(* ===== verification/Prelude.thy ===== *)
theory Prelude
  imports Main "HOL-Library.Word"
begin

text \<open>
  Shared vocabulary of the StratumBee development: the machine integers and the result type of
  the Rust code, little-endian byte strings and capped queues. The interfaces (locales) that
  several components implement are in the theory \<open>Interfaces\<close>.
\<close>

unbundle bit_operations_syntax

named_theorems bee_defs \<open>definitions that the component proofs unfold\<close>
named_theorems bee_inv \<open>preservation of component invariants\<close>

type_synonym u8 = "8 word"
type_synonym u16 = "16 word"
type_synonym u32 = "32 word"
type_synonym u64 = "64 word"
type_synonym bytes = "8 word list"

text \<open>\<open>anyhow::Result\<close>: the error is the text its \<open>Display\<close> instance prints.\<close>

type_synonym 'a result = "string + 'a"

abbreviation Ok :: "'a \<Rightarrow> 'a result" where "Ok \<equiv> Inr"
abbreviation Err :: "string \<Rightarrow> 'a result" where "Err \<equiv> Inl"

text \<open>The operator \<open>?\<close> of Rust: stop at the first error.\<close>

definition rbind :: "'a result \<Rightarrow> ('a \<Rightarrow> 'b result) \<Rightarrow> 'b result" where
  "rbind r f = (case r of Inl e \<Rightarrow> Inl e | Inr x \<Rightarrow> f x)"

lemma rbind_simps [simp]: "rbind (Inl e) f = Inl e" "rbind (Inr x) f = f x"
  by (simp_all add: rbind_def)

lemma rbind_Inr_iff: "rbind r f = Inr y \<longleftrightarrow> (\<exists>x. r = Inr x \<and> f x = Inr y)"
  by (cases r) auto

lemma rbind_InrE:
  assumes "rbind r f = Inr y"
  obtains x where "r = Inr x" and "f x = Inr y"
  using assms by (cases r) auto

text \<open>\<open>anyhow::Context::context\<close>: the text of the error becomes the context.\<close>

definition with_context :: "string \<Rightarrow> 'a result \<Rightarrow> 'a result" where
  "with_context c r = (case r of Inl e \<Rightarrow> Inl c | Inr x \<Rightarrow> Inr x)"

lemma with_context_simps [simp]:
  "with_context c (Inl e) = Inl c" "with_context c (Inr x) = Inr x"
  by (simp_all add: with_context_def)

lemma with_context_Inr [simp]: "with_context c r = Inr x \<longleftrightarrow> r = Inr x"
  by (cases r) auto

text \<open>\<open>Option::ok_or_else\<close> and \<open>Result::ok\<close>.\<close>

definition ok_or :: "string \<Rightarrow> 'a option \<Rightarrow> 'a result" where
  "ok_or e v = (case v of None \<Rightarrow> Inl e | Some x \<Rightarrow> Inr x)"

definition result_ok :: "'a result \<Rightarrow> 'a option" where
  "result_ok r = (case r of Inl e \<Rightarrow> None | Inr x \<Rightarrow> Some x)"

lemma ok_or_simps [simp]: "ok_or e None = Inl e" "ok_or e (Some x) = Inr x"
  by (simp_all add: ok_or_def)

lemma result_ok_simps [simp]: "result_ok (Inl e) = None" "result_ok (Inr x) = Some x"
  by (simp_all add: result_ok_def)

definition unwrap_or :: "'a \<Rightarrow> 'a option \<Rightarrow> 'a" where
  "unwrap_or d v = (case v of None \<Rightarrow> d | Some x \<Rightarrow> x)"

lemma unwrap_or_simps [simp]: "unwrap_or d None = d" "unwrap_or d (Some x) = x"
  by (simp_all add: unwrap_or_def)

fun map_result :: "('a \<Rightarrow> 'b result) \<Rightarrow> 'a list \<Rightarrow> 'b list result" where
  "map_result f [] = Inr []"
| "map_result f (x # xs) = rbind (f x) (\<lambda>y. rbind (map_result f xs) (\<lambda>ys. Inr (y # ys)))"

lemma map_result_length: "map_result f xs = Inr ys \<Longrightarrow> length ys = length xs"
  by (induction xs arbitrary: ys) (auto simp: rbind_Inr_iff)

lemma map_result_pure: "(\<And>x. x \<in> set xs \<Longrightarrow> f x = Inr (g x)) \<Longrightarrow> map_result f xs = Inr (map g xs)"
  by (induction xs) auto

lemma map_result_set:
  "map_result f xs = Inr ys \<Longrightarrow> y \<in> set ys \<Longrightarrow> \<exists>x \<in> set xs. f x = Inr y"
  by (induction xs arbitrary: ys) (auto simp: rbind_Inr_iff)

subsection \<open>Saturating arithmetic\<close>

lemma unat_lt: "unat (w :: 'a::len word) < 2 ^ LENGTH('a)"
  by (rule unsigned_less)

definition sat_sub :: "'a::len word \<Rightarrow> 'a word \<Rightarrow> 'a word" where
  "sat_sub a b = (if a < b then 0 else a - b)"

definition sat_add :: "'a::len word \<Rightarrow> 'a word \<Rightarrow> 'a word" where
  "sat_add a b = (if unat a + unat b < 2 ^ LENGTH('a) then a + b else - 1)"

lemma unat_sat_sub: "unat (sat_sub a b) = unat a - unat b"
  by (auto simp: sat_sub_def word_less_nat_alt unat_sub word_le_nat_alt)

lemma unat_sat_add:
  fixes a b :: "'a::len word"
  shows "unat (sat_add a b) = min (unat a + unat b) (2 ^ LENGTH('a) - 1)"
proof -
  have "unat (- 1 :: 'a word) = 2 ^ LENGTH('a) - 1"
    by (simp add: unsigned_minus_1_eq_mask mask_eq_exp_minus_1)
  then show ?thesis by (auto simp: sat_add_def unat_word_ariths)
qed

subsection \<open>Little-endian byte strings\<close>

fun nat_to_le :: "nat \<Rightarrow> nat \<Rightarrow> bytes" where
  "nat_to_le 0 x = []"
| "nat_to_le (Suc n) x = word_of_nat (x mod 256) # nat_to_le n (x div 256)"

fun le_to_nat :: "bytes \<Rightarrow> nat" where
  "le_to_nat [] = 0"
| "le_to_nat (b # bs) = unat b + 256 * le_to_nat bs"

definition u16_to_le :: "u16 \<Rightarrow> bytes" where "u16_to_le w = nat_to_le 2 (unat w)"
definition u32_to_le :: "u32 \<Rightarrow> bytes" where "u32_to_le w = nat_to_le 4 (unat w)"
definition u64_to_le :: "u64 \<Rightarrow> bytes" where "u64_to_le w = nat_to_le 8 (unat w)"
definition u32_from_le :: "bytes \<Rightarrow> u32" where "u32_from_le bs = word_of_nat (le_to_nat bs)"

lemma length_nat_to_le [simp]: "length (nat_to_le n x) = n"
  by (induction n arbitrary: x) auto

lemma unat_byte_of_nat [simp]: "unat (word_of_nat x :: u8) = x mod 256"
  by (simp add: unat_of_nat)

lemma le_to_nat_to_le: "le_to_nat (nat_to_le n x) = x mod 256 ^ n"
proof (induction n arbitrary: x)
  case 0
  then show ?case by simp
next
  case (Suc n)
  have "le_to_nat (nat_to_le (Suc n) x) = x mod 256 + 256 * (x div 256 mod 256 ^ n)"
    by (simp add: Suc.IH)
  also have "\<dots> = x mod (256 * 256 ^ n)"
    by (simp add: mod_mult2_eq)
  finally show ?case by simp
qed

lemma le_to_nat_less: "le_to_nat bs < 256 ^ length bs"
proof (induction bs)
  case Nil
  then show ?case by simp
next
  case (Cons b bs)
  have "unat b < 256" using unat_lt[of b] by simp
  with Cons.IH have "unat b + 256 * le_to_nat bs < 256 + 256 * (256 ^ length bs - 1)"
    by (intro add_less_le_mono) auto
  also have "\<dots> = 256 * 256 ^ length bs"
    by (simp add: diff_mult_distrib2)
  finally show ?case by simp
qed

lemma nat_to_le_to_nat: "nat_to_le (length bs) (le_to_nat bs) = bs"
proof (induction bs)
  case Nil
  then show ?case by simp
next
  case (Cons b bs)
  have "unat b < 256" using unat_lt[of b] by simp
  with Cons.IH show ?case by simp
qed

lemma le_to_nat_inj: "length as = length bs \<Longrightarrow> le_to_nat as = le_to_nat bs \<Longrightarrow> as = bs"
  by (metis nat_to_le_to_nat)

lemma le_to_nat_append: "le_to_nat (as @ bs) = le_to_nat as + 256 ^ length as * le_to_nat bs"
  by (induction as) (auto simp: algebra_simps)

lemma le_to_nat_zeros: "le_to_nat (replicate n 0) = 0"
  by (induction n) auto

lemma length_u_to_le [simp]:
  "length (u16_to_le a) = 2" "length (u32_to_le b) = 4" "length (u64_to_le c) = 8"
  by (simp_all add: u16_to_le_def u32_to_le_def u64_to_le_def)

lemma le_to_nat_u16 [simp]: "le_to_nat (u16_to_le w) = unat w"
  using unat_lt[of w] by (simp add: u16_to_le_def le_to_nat_to_le)

lemma le_to_nat_u32 [simp]: "le_to_nat (u32_to_le w) = unat w"
  using unat_lt[of w] by (simp add: u32_to_le_def le_to_nat_to_le)

lemma le_to_nat_u64 [simp]: "le_to_nat (u64_to_le w) = unat w"
  using unat_lt[of w] by (simp add: u64_to_le_def le_to_nat_to_le)

lemma u32_from_to_le [simp]: "u32_from_le (u32_to_le w) = w"
  by (simp add: u32_from_le_def)

subsection \<open>Capped queues\<close>

text \<open>
  The queues of the program are all bounded by dropping from the front after a push to the back
  (\<open>while q.len() > cap { q.pop_front(); }\<close>). \<open>drop_to\<close> is that loop.
\<close>

function drop_to :: "nat \<Rightarrow> 'a list \<Rightarrow> 'a list" where
  "drop_to cap q = (if length q > cap then drop_to cap (tl q) else q)"
  by pat_completeness auto
termination
  by (relation "measure (\<lambda>(cap, q). length q)") auto

declare drop_to.simps [simp del]

definition last_n :: "nat \<Rightarrow> 'a list \<Rightarrow> 'a list" where
  "last_n n xs = drop (length xs - n) xs"

lemma drop_to_eq: "drop_to cap q = last_n cap q"
proof (induction cap q rule: drop_to.induct)
  case (1 cap q)
  show ?case
  proof (cases "length q > cap")
    case True
    then obtain y ys where q: "q = y # ys" by (cases q) auto
    from 1 True q have "drop_to cap q = last_n cap ys"
      by (simp add: drop_to.simps [of cap "y # ys"])
    also from True q have "\<dots> = last_n cap q"
      by (simp add: last_n_def Suc_diff_le)
    finally show ?thesis .
  next
    case False
    then show ?thesis by (simp add: drop_to.simps [of cap q] last_n_def)
  qed
qed

lemma length_last_n [simp]: "length (last_n n xs) = min n (length xs)"
  by (auto simp: last_n_def)

lemma last_n_all: "length xs \<le> n \<Longrightarrow> last_n n xs = xs"
  by (simp add: last_n_def)

lemma set_last_n: "set (last_n n xs) \<subseteq> set xs"
  by (auto simp: last_n_def dest: in_set_dropD)

lemma distinct_last_n: "distinct xs \<Longrightarrow> distinct (last_n n xs)"
  by (simp add: last_n_def)

lemma last_n_snoc: "0 < n \<Longrightarrow> last_n n (xs @ [x]) = last_n (n - 1) xs @ [x]"
  by (auto simp: last_n_def Suc_diff_le)

lemma last_last_n: "0 < n \<Longrightarrow> last (last_n n (xs @ [x])) = x"
  by (simp add: last_n_snoc)

lemma last_n_last_n_append: "last_n n (last_n n xs @ ys) = last_n n (xs @ ys)"
  by (cases "length xs \<le> n") (auto simp: last_n_def add.commute)

text \<open>\<open>q.push_back(x); if q.len() > cap { q.pop_front(); }\<close> on a queue within its bound.\<close>

lemma push_pop_last_n:
  "length q \<le> cap \<Longrightarrow>
   (if length (q @ [x]) > cap then tl (q @ [x]) else q @ [x]) = last_n cap (q @ [x])"
  by (cases q) (auto simp: last_n_def Suc_diff_le)

lemma last_n_Nil [simp]: "last_n n [] = []"
  by (simp add: last_n_def)

end
