(* ===== verification/Interfaces.thy ===== *)
theory Interfaces
  imports Prelude
begin

text \<open>
  The contracts that components share, as locales: what the client calls is fixed, what the
  provider promises is assumed, and what the clients conclude is proved once. Each is
  interpreted in the theory of every component that provides it.
  \<^item> \<open>fifo_log\<close>: a log that keeps the last \<open>cap\<close> entries (share events, vardiff samples,
    hashrate samples, session jobs);
  \<^item> \<open>dedup_filter\<close>: a duplicate filter that remembers the last \<open>cap\<close> accepted keys (the share
    filters of the Stratum V1 session and of the Stratum V2 connection);
  \<^item> \<open>id_source\<close>: 32-bit identifiers that are never zero (session jobs, SV2 channels and jobs);
  \<^item> \<open>byte_codec\<close>: an encoder with a decoder that returns the value and the unread rest
    (CompactSize integers, little-endian integers, script pushes).
\<close>

subsection \<open>Capped logs\<close>

locale fifo_log =
  fixes items :: "'s \<Rightarrow> 'a list"
    and push :: "'a \<Rightarrow> 's \<Rightarrow> 's"
    and cap :: "'s \<Rightarrow> nat"
  assumes items_push: "length (items s) \<le> cap s \<Longrightarrow> items (push x s) = last_n (cap s) (items s @ [x])"
    and cap_push: "cap (push x s) = cap s"
begin

definition bounded :: "'s \<Rightarrow> bool" where
  "bounded s \<longleftrightarrow> length (items s) \<le> cap s"

lemma bounded_push: "bounded s \<Longrightarrow> bounded (push x s)"
  by (simp add: bounded_def items_push cap_push)

lemma last_push: "bounded s \<Longrightarrow> 0 < cap s \<Longrightarrow> items (push x s) \<noteq> [] \<and> last (items (push x s)) = x"
  by (simp add: bounded_def items_push last_n_snoc)

lemma set_push: "bounded s \<Longrightarrow> set (items (push x s)) \<subseteq> insert x (set (items s))"
  using set_last_n [of "cap s" "items s @ [x]"] by (auto simp: items_push bounded_def)

lemma cap_pushes: "cap (fold push xs s) = cap s"
  by (induction xs arbitrary: s) (auto simp: cap_push)

lemma items_pushes:
  "bounded s \<Longrightarrow> items (fold push xs s) = last_n (cap s) (items s @ xs)"
proof (induction xs arbitrary: s)
  case Nil
  then show ?case by (simp add: last_n_all bounded_def)
next
  case (Cons x xs)
  have "items (fold push (x # xs) s) = last_n (cap s) (items (push x s) @ xs)"
    using Cons.IH [of "push x s"] Cons.prems by (simp add: bounded_push cap_push)
  also have "\<dots> = last_n (cap s) (items s @ x # xs)"
    using Cons.prems by (simp add: items_push bounded_def last_n_last_n_append)
  finally show ?case .
qed

lemma bounded_pushes: "bounded s \<Longrightarrow> bounded (fold push xs s)"
  by (induction xs arbitrary: s) (auto simp: bounded_push)

end

subsection \<open>Duplicate filters\<close>

text \<open>Offer a list of keys one after the other; the answers and the final state.\<close>

fun offer_all :: "('k \<Rightarrow> 's \<Rightarrow> bool \<times> 's) \<Rightarrow> 'k list \<Rightarrow> 's \<Rightarrow> bool list \<times> 's" where
  "offer_all f [] s = ([], s)"
| "offer_all f (k # ks) s =
     (let (b, s1) = f k s; (bs, s2) = offer_all f ks s1 in (b # bs, s2))"

definition accepted_of :: "'k list \<Rightarrow> bool list \<Rightarrow> 'k list" where
  "accepted_of ks bs = map fst (filter snd (zip ks bs))"

lemma accepted_of_simps [simp]:
  "accepted_of [] [] = []"
  "accepted_of (k # ks) (b # bs) = (if b then k # accepted_of ks bs else accepted_of ks bs)"
  by (simp_all add: accepted_of_def)

lemma length_offer_all: "length (fst (offer_all f ks s)) = length ks"
  by (induction ks arbitrary: s) (auto simp: split_beta Let_def)

lemma length_accepted_of: "length (accepted_of ks bs) \<le> length ks"
  by (auto simp: accepted_of_def intro: order.trans [OF length_filter_le])

text \<open>Specification: all keys accepted so far, oldest first; a key among the last \<open>n\<close> is refused.\<close>

definition window_offer :: "nat \<Rightarrow> 'k \<Rightarrow> 'k list \<Rightarrow> bool \<times> 'k list" where
  "window_offer n k h = (if k \<in> set (last_n n h) then (False, h) else (True, h @ [k]))"

locale dedup_filter =
  fixes remembered :: "'s \<Rightarrow> 'k list"
    and remember :: "'k \<Rightarrow> 's \<Rightarrow> bool \<times> 's"
    and inv :: "'s \<Rightarrow> bool"
    and cap :: nat
  assumes cap_pos: "0 < cap"
    and inv_remembered: "inv s \<Longrightarrow> distinct (remembered s) \<and> length (remembered s) \<le> cap"
    and known: "inv s \<Longrightarrow> k \<in> set (remembered s) \<Longrightarrow> remember k s = (False, s)"
    and fresh: "inv s \<Longrightarrow> k \<notin> set (remembered s) \<Longrightarrow>
      fst (remember k s) \<and> remembered (snd (remember k s)) = last_n cap (remembered s @ [k])"
    and inv_remember: "inv s \<Longrightarrow> inv (snd (remember k s))"
begin

lemma accepts_iff: "inv s \<Longrightarrow> fst (remember k s) \<longleftrightarrow> k \<notin> set (remembered s)"
  using known fresh by fastforce

lemma remembered_after: "inv s \<Longrightarrow> k \<in> set (remembered (snd (remember k s)))"
  using known [of s k] fresh [of s k] cap_pos
  by (cases "k \<in> set (remembered s)") (auto simp: last_n_snoc)

lemma inv_offer_all: "inv s \<Longrightarrow> inv (snd (offer_all remember ks s))"
  by (induction ks arbitrary: s)
    (auto simp: split_beta Let_def inv_remember)

lemma remembered_offer_all:
  "inv s \<Longrightarrow> remembered (snd (offer_all remember ks s)) =
     last_n cap (remembered s @ accepted_of ks (fst (offer_all remember ks s)))"
proof (induction ks arbitrary: s)
  case Nil
  then show ?case using inv_remembered [OF Nil] by (simp add: last_n_all)
next
  case (Cons k ks)
  obtain b s1 where r: "remember k s = (b, s1)" by fastforce
  have inv1: "inv s1" using inv_remember [OF Cons.prems, of k] by (simp add: r)
  show ?case
  proof (cases "k \<in> set (remembered s)")
    case True
    then have "b = False" "s1 = s" using known [OF Cons.prems] r by auto
    with Cons.IH [OF inv1] r show ?thesis by (simp add: split_beta)
  next
    case False
    then have "b" "remembered s1 = last_n cap (remembered s @ [k])"
      using fresh [OF Cons.prems False] r by auto
    with Cons.IH [OF inv1] r show ?thesis
      by (simp add: split_beta last_n_last_n_append)
  qed
qed

text \<open>The filter answers as the specification does, for every sequence of keys.\<close>

lemma refines_window:
  assumes "inv s" and "remembered s = last_n cap h"
  shows "fst (offer_all remember ks s) = fst (offer_all (window_offer cap) ks h) \<and>
    remembered (snd (offer_all remember ks s)) = last_n cap (snd (offer_all (window_offer cap) ks h))"
  using assms
proof (induction ks arbitrary: s h)
  case (Cons k ks)
  obtain b s1 where r: "remember k s = (b, s1)" by fastforce
  obtain h1 where w: "window_offer cap k h = (b, h1)" and s1: "inv s1" "remembered s1 = last_n cap h1"
    using known [OF Cons.prems(1), of k] fresh [OF Cons.prems(1), of k] inv_remember [OF Cons.prems(1), of k]
      r Cons.prems(2) last_n_last_n_append [of cap h "[k]"]
    by (cases "k \<in> set (last_n cap h)") (auto simp: window_offer_def)
  from Cons.IH [OF s1] show ?case by (simp add: r w split_beta)
qed simp

text \<open>A key stays refused until \<open>cap\<close> further keys have been accepted.\<close>

lemma refused_within_window:
  assumes "inv s" and "fst (remember k s)" and "length ks < cap"
  shows "\<not> fst (remember k (snd (offer_all remember ks (snd (remember k s)))))"
proof -
  let ?s1 = "snd (remember k s)"
  let ?acc = "accepted_of ks (fst (offer_all remember ks ?s1))"
  have inv1: "inv ?s1" by (rule inv_remember [OF assms(1)])
  have s1: "remembered ?s1 = last_n (cap - 1) (remembered s) @ [k]"
    using assms(1,2) fresh [of s k] accepts_iff [of s k] cap_pos by (simp add: last_n_snoc)
  have acc: "length ?acc < cap" using length_accepted_of [of ks] assms(3) by (rule le_less_trans)
  have "remembered (snd (offer_all remember ks ?s1)) =
      last_n cap (last_n (cap - 1) (remembered s) @ [k] @ ?acc)"
    by (simp add: remembered_offer_all [OF inv1] s1)
  also have "k \<in> set \<dots>"
    using acc by (auto simp: last_n_def)
  finally have "k \<in> set (remembered (snd (offer_all remember ks ?s1)))" .
  then show ?thesis
    using accepts_iff [OF inv_offer_all [OF inv1]] by blast
qed

end

subsection \<open>Identifiers\<close>

text \<open>\<open>next.wrapping_add(1).max(1)\<close>.\<close>

definition next_id :: "u32 \<Rightarrow> u32" where
  "next_id w = max (w + 1) 1"

lemma next_id_nonzero [simp]: "next_id w \<noteq> 0"
  by (auto simp: next_id_def max_def)

definition id_index :: "u32 \<Rightarrow> nat" where
  "id_index w = unat w - 1"

lemma id_index_less: "id_index w < 2 ^ 32 - 1"
  using unat_lt [of w] by (auto simp: id_index_def)

lemma id_index_inj: "v \<noteq> 0 \<Longrightarrow> w \<noteq> 0 \<Longrightarrow> id_index v = id_index w \<Longrightarrow> v = w"
proof -
  assume "v \<noteq> 0" "w \<noteq> 0" and eq: "id_index v = id_index w"
  then have "0 < unat v" "0 < unat w" by (simp_all add: unat_gt_0)
  with eq have "unat v = unat w" by (simp add: id_index_def)
  then show "v = w" by (rule unsigned_word_eqI)
qed

lemma id_index_next: "w \<noteq> 0 \<Longrightarrow> id_index (next_id w) = (id_index w + 1) mod (2 ^ 32 - 1)"
proof (cases "w = - 1")
  case True
  moreover have "unat (- 1 :: u32) = 2 ^ 32 - 1" by (simp add: unsigned_minus_1_eq_mask mask_eq_exp_minus_1)
  ultimately show ?thesis by (simp add: id_index_def next_id_def)
next
  case False
  assume w: "w \<noteq> 0"
  have "w + 1 \<noteq> 0" using False by (metis add_diff_cancel_right' diff_0)
  then have sum: "unat (w + 1) = unat w + 1" using unatSuc [of w] by (simp add: add.commute)
  then have lt: "unat w + 1 < 2 ^ 32" using unat_lt [of "w + 1"] by simp
  then have "next_id w = w + 1"
    using w by (auto simp: next_id_def max_def word_le_nat_alt sum unat_0_iff)
  moreover have "0 < unat w" using w by (simp add: unat_gt_0)
  ultimately show ?thesis using lt w by (auto simp: id_index_def sum unat_0_iff)
qed

lemma next_id_pow_nonzero: "w \<noteq> 0 \<Longrightarrow> (next_id ^^ n) w \<noteq> 0"
  by (cases n) auto

lemma id_index_next_pow:
  "w \<noteq> 0 \<Longrightarrow> id_index ((next_id ^^ n) w) = (id_index w + n) mod (2 ^ 32 - 1)"
proof (induction n)
  case 0
  then show ?case using id_index_less [of w] by simp
next
  case (Suc n)
  have "id_index ((next_id ^^ Suc n) w) = ((id_index w + n) mod (2 ^ 32 - 1) + 1) mod (2 ^ 32 - 1)"
    using Suc by (simp add: id_index_next next_id_pow_nonzero)
  then show ?case by (simp add: mod_simps)
qed

lemma next_id_pow_distinct:
  assumes "w \<noteq> 0" and "i < j" and "j - i < 2 ^ 32 - 1"
  shows "(next_id ^^ i) w \<noteq> (next_id ^^ j) w"
proof
  assume "(next_id ^^ i) w = (next_id ^^ j) w"
  then have "(id_index w + i) mod (2 ^ 32 - 1) = (id_index w + j) mod (2 ^ 32 - 1)"
    using assms(1) by (metis id_index_next_pow)
  moreover have "id_index w + j = (id_index w + i) + (j - i)" using assms(2) by simp
  ultimately have "(2 ^ 32 - 1) dvd (j - i)"
    by (metis add_diff_cancel_left' mod_eq_dvd_iff_nat le_add1)
  with assms(2,3) show False by (metis dvd_imp_le not_le zero_less_diff)
qed

text \<open>The identifiers a source hands out in a row, and where it then stands.\<close>

fun draw :: "('s \<Rightarrow> u32 \<times> 's) \<Rightarrow> nat \<Rightarrow> 's \<Rightarrow> u32 list" where
  "draw f 0 s = []"
| "draw f (Suc n) s = fst (f s) # draw f n (snd (f s))"

locale id_source =
  fixes cur :: "'s \<Rightarrow> u32"
    and alloc :: "'s \<Rightarrow> u32 \<times> 's"
  assumes alloc_id: "cur s \<noteq> 0 \<Longrightarrow> fst (alloc s) = cur s"
    and alloc_next: "cur s \<noteq> 0 \<Longrightarrow> cur (snd (alloc s)) = next_id (cur s)"
begin

lemma alloc_nonzero: "cur s \<noteq> 0 \<Longrightarrow> fst (alloc s) \<noteq> 0 \<and> cur (snd (alloc s)) \<noteq> 0"
  by (simp add: alloc_id alloc_next)

lemma draw_eq: "cur s \<noteq> 0 \<Longrightarrow> draw alloc n s = map (\<lambda>i. (next_id ^^ i) (cur s)) [0..<n]"
proof (induction n arbitrary: s)
  case 0
  then show ?case by simp
next
  case (Suc n)
  have "draw alloc n (snd (alloc s)) = map (\<lambda>i. (next_id ^^ Suc i) (cur s)) [0..<n]"
    using Suc.IH [of "snd (alloc s)"] Suc.prems by (simp add: alloc_next funpow_swap1)
  with Suc.prems show ?case
    by (simp only: draw.simps alloc_id upt_conv_Cons map_upt_Suc [symmetric] funpow_0
      upt_rec [of 0 "Suc n"]) (simp add: alloc_id map_Suc_upt [symmetric] del: upt_Suc funpow.simps)
qed

lemma draw_distinct:
  assumes "cur s \<noteq> 0" and "n \<le> 2 ^ 32 - 1"
  shows "distinct (draw alloc n s)" and "0 \<notin> set (draw alloc n s)"
proof -
  have "i = j" if "i < n" "j < n" "(next_id ^^ i) (cur s) = (next_id ^^ j) (cur s)" for i j
  proof (rule ccontr)
    assume "i \<noteq> j"
    then have "i < j \<or> j < i" by arith
    moreover have "j - i < 2 ^ 32 - 1" "i - j < 2 ^ 32 - 1" using that(1,2) assms(2) by linarith+
    ultimately show False
      using that(3) assms(1) next_id_pow_distinct [of "cur s" i j] next_id_pow_distinct [of "cur s" j i]
      by metis
  qed
  then show "distinct (draw alloc n s)"
    by (auto simp: draw_eq [OF assms(1)] distinct_map intro!: inj_onI)
  show "0 \<notin> set (draw alloc n s)"
    using next_id_pow_nonzero [OF assms(1)] by (force simp: draw_eq [OF assms(1)])
qed

end

subsection \<open>Byte codecs\<close>

fun decode_many :: "(bytes \<Rightarrow> ('a \<times> bytes) option) \<Rightarrow> nat \<Rightarrow> bytes \<Rightarrow> ('a list \<times> bytes) option" where
  "decode_many dec 0 bs = Some ([], bs)"
| "decode_many dec (Suc n) bs =
     (case dec bs of None \<Rightarrow> None
      | Some (x, rest) \<Rightarrow> (case decode_many dec n rest of None \<Rightarrow> None
          | Some (xs, rest') \<Rightarrow> Some (x # xs, rest')))"

locale byte_codec =
  fixes enc :: "'a \<Rightarrow> bytes"
    and dec :: "bytes \<Rightarrow> ('a \<times> bytes) option"
    and valid :: "'a \<Rightarrow> bool"
  assumes dec_enc: "valid x \<Longrightarrow> dec (enc x @ rest) = Some (x, rest)"
begin

lemma enc_prefix_free:
  assumes "valid x" and "valid y" and "enc x @ r = enc y @ r'"
  shows "x = y \<and> r = r'"
proof -
  have "Some (x, r) = Some (y, r')"
    using dec_enc [OF assms(1), of r] dec_enc [OF assms(2), of r'] assms(3) by (simp only:)
  then show ?thesis by simp
qed

lemma enc_inj: "valid x \<Longrightarrow> valid y \<Longrightarrow> enc x = enc y \<Longrightarrow> x = y"
  by (rule enc_prefix_free [of x y "[]" "[]", THEN conjunct1]) simp_all

lemma decode_many_enc:
  "(\<And>x. x \<in> set xs \<Longrightarrow> valid x) \<Longrightarrow>
   decode_many dec (length xs) (concat (map enc xs) @ rest) = Some (xs, rest)"
  by (induction xs) (auto simp: dec_enc)

end

end
