(* ===== verification/RustStd.thy ===== *)
theory RustStd
  imports Prelude
begin

text \<open>
  The parts of Rust's standard library that the program uses on strings and integers. A
  \<open>String\<close> is its UTF-8 bytes, as a HOL \<open>string\<close> (one \<open>char\<close> per byte), so \<open>len()\<close> is
  \<open>length\<close>; \<open>chars()\<close> and \<open>trim()\<close> look at code points, which the functions below find in
  the bytes.
\<close>

subsection \<open>Characters\<close>

text \<open>A byte that continues a code point (bit pattern 10xxxxxx) starts no \<open>char\<close> of its own.\<close>

definition is_cont :: "char \<Rightarrow> bool" where
  "is_cont c \<longleftrightarrow> 128 \<le> (of_char c :: nat) \<and> (of_char c :: nat) < 192"

text \<open>\<open>s.chars().count()\<close> and \<open>s.chars().take(n).collect()\<close>.\<close>

definition char_count :: "string \<Rightarrow> nat" where
  "char_count s = length (filter (\<lambda>c. \<not> is_cont c) s)"

fun take_chars :: "nat \<Rightarrow> string \<Rightarrow> string" where
  "take_chars n [] = []"
| "take_chars n (c # s) =
     (if is_cont c then c # take_chars n s
      else if n = 0 then [] else c # take_chars (n - 1) s)"

lemma char_count_take_chars: "char_count (take_chars n s) \<le> n"
  by (induction n s rule: take_chars.induct) (auto simp: char_count_def)

text \<open>The UTF-8 encodings of the code points with the property \<open>White_Space\<close>.\<close>

definition white_space :: "string list" where
  "white_space =
     map (\<lambda>b. [char_of b]) [9, 10, 11, 12, 13, 32 :: nat]
     @ map (map char_of)
         [[194, 133], [194, 160], [225, 154, 128 :: nat], [226, 128, 168], [226, 128, 169],
          [226, 128, 175], [226, 129, 159], [227, 128, 128]]
     @ map (\<lambda>b. map char_of [226, 128, b :: nat]) [128..<139]"

fun strip_first :: "string list \<Rightarrow> string \<Rightarrow> string option" where
  "strip_first [] s = None"
| "strip_first (p # ps) s =
     (if p \<noteq> [] \<and> take (length p) s = p then Some (drop (length p) s) else strip_first ps s)"

lemma strip_first_shorter: "strip_first ps s = Some r \<Longrightarrow> length r < length s"
proof (induction ps)
  case (Cons p ps)
  show ?case
  proof (cases "p \<noteq> [] \<and> take (length p) s = p")
    case True
    then have "length p \<le> length s" by (metis length_take min.cobounded1)
    with True Cons.prems show ?thesis by (cases p) auto
  next
    case False
    with Cons show ?thesis by (simp split: if_splits)
  qed
qed simp

function strip_all :: "string list \<Rightarrow> string \<Rightarrow> string" where
  "strip_all ps s = (case strip_first ps s of None \<Rightarrow> s | Some r \<Rightarrow> strip_all ps r)"
  by pat_completeness auto
termination
  by (relation "measure (\<lambda>(ps, s). length s)") (auto dest: strip_first_shorter)

declare strip_all.simps [simp del]

text \<open>\<open>str::trim\<close>.\<close>

definition trim :: "string \<Rightarrow> string" where
  "trim s = rev (strip_all (map rev white_space) (rev (strip_all white_space s)))"

lemma trim_Nil [simp]: "trim [] = []"
proof -
  have "strip_first ps [] = None" for ps by (induction ps) auto
  then show ?thesis by (simp add: trim_def strip_all.simps)
qed

text \<open>A string of visible ASCII characters is its own \<open>trim\<close>.\<close>

definition visible :: "char \<Rightarrow> bool" where
  "visible c \<longleftrightarrow> 33 \<le> (of_char c :: nat) \<and> (of_char c :: nat) < 127"

lemma white_space_visible:
  "list_all (\<lambda>p. p \<noteq> [] \<and> \<not> visible (hd p) \<and> \<not> visible (last p)) white_space"
  by code_simp

lemma strip_first_hd:
  "s \<noteq> [] \<Longrightarrow> visible (hd s) \<Longrightarrow> list_all (\<lambda>p. p \<noteq> [] \<and> \<not> visible (hd p)) ps \<Longrightarrow> strip_first ps s = None"
proof (induction ps)
  case (Cons p ps)
  have "take (length p) s \<noteq> p"
  proof
    assume t: "take (length p) s = p"
    from Cons.prems have "p \<noteq> []" "s \<noteq> []" by auto
    then have "hd (take (length p) s) = hd s" by (cases p; cases s) auto
    with t Cons.prems show False by auto
  qed
  with Cons show ?case by simp
qed simp

lemma strip_all_visible:
  "list_all visible s \<Longrightarrow> list_all (\<lambda>p. p \<noteq> [] \<and> \<not> visible (hd p)) ps \<Longrightarrow> strip_all ps s = s"
proof (cases "s = []")
  case True
  have "strip_first ps [] = None" by (induction ps) auto
  with True show ?thesis by (simp add: strip_all.simps)
next
  case False
  assume "list_all visible s" and "list_all (\<lambda>p. p \<noteq> [] \<and> \<not> visible (hd p)) ps"
  with False have "strip_first ps s = None" by (intro strip_first_hd) (auto simp: neq_Nil_conv)
  then show ?thesis by (simp add: strip_all.simps [of ps s])
qed

lemma trim_visible: "list_all visible s \<Longrightarrow> trim s = s"
proof -
  assume s: "list_all visible s"
  have "list_all (\<lambda>p. p \<noteq> [] \<and> \<not> visible (hd p)) white_space"
    "list_all (\<lambda>p. p \<noteq> [] \<and> \<not> visible (hd p)) (map rev white_space)"
    using white_space_visible by (auto simp: list_all_iff hd_rev)
  then show ?thesis using s by (simp add: trim_def strip_all_visible)
qed

text \<open>\<open>s.trim_start_matches("0x")\<close> removes the prefix as often as it is there.\<close>

fun trim_0x :: "string \<Rightarrow> string" where
  "trim_0x (a # b # s) = (if a = CHR ''0'' \<and> b = CHR ''x'' then trim_0x s else a # b # s)"
| "trim_0x s = s"

lemma length_trim_0x: "length (trim_0x s) \<le> length s"
  by (induction s rule: trim_0x.induct) auto

text \<open>\<open>format!("{s:0>width$}")\<close>: fill with zeros on the left up to \<open>width\<close> chars.\<close>

definition pad0 :: "nat \<Rightarrow> string \<Rightarrow> string" where
  "pad0 width s = replicate (width - char_count s) (CHR ''0'') @ s"

text \<open>\<open>s.contains(p)\<close>, \<open>s.strip_prefix(p)\<close>.\<close>

fun str_contains :: "string \<Rightarrow> string \<Rightarrow> bool" where
  "str_contains p [] = (p = [])"
| "str_contains p (c # s) = (take (length p) (c # s) = p \<or> str_contains p s)"

definition strip_prefix :: "string \<Rightarrow> string \<Rightarrow> string option" where
  "strip_prefix p s = (if take (length p) s = p then Some (drop (length p) s) else None)"

text \<open>ASCII case: \<open>to_ascii_lowercase\<close>, \<open>eq_ignore_ascii_case\<close>.\<close>

definition ascii_lower :: "char \<Rightarrow> char" where
  "ascii_lower c =
     (let n = of_char c :: nat in if 65 \<le> n \<and> n \<le> 90 then char_of (n + 32) else c)"

definition to_ascii_lowercase :: "string \<Rightarrow> string" where
  "to_ascii_lowercase s = map ascii_lower s"

definition eq_ignore_ascii_case :: "string \<Rightarrow> string \<Rightarrow> bool" where
  "eq_ignore_ascii_case a b \<longleftrightarrow> to_ascii_lowercase a = to_ascii_lowercase b"

text \<open>\<open>v.join(sep)\<close>.\<close>

fun join :: "string \<Rightarrow> string list \<Rightarrow> string" where
  "join sep [] = []"
| "join sep [s] = s"
| "join sep (s # t # ss) = s @ sep @ join sep (t # ss)"

subsection \<open>Hexadecimal integers\<close>

definition hex_digit :: "char \<Rightarrow> nat option" where
  "hex_digit c =
     (let n = of_char c :: nat in
      if 48 \<le> n \<and> n \<le> 57 then Some (n - 48)
      else if 97 \<le> n \<and> n \<le> 102 then Some (n - 87)
      else if 65 \<le> n \<and> n \<le> 70 then Some (n - 55)
      else None)"

definition is_hexdigit :: "char \<Rightarrow> bool" where
  "is_hexdigit c \<longleftrightarrow> hex_digit c \<noteq> None"

fun parse_hex_digits :: "nat \<Rightarrow> string \<Rightarrow> nat option" where
  "parse_hex_digits acc [] = Some acc"
| "parse_hex_digits acc (c # s) =
     (case hex_digit c of None \<Rightarrow> None | Some d \<Rightarrow> parse_hex_digits (16 * acc + d) s)"

text \<open>
  \<open>u32::from_str_radix(s, 16).ok()\<close>: the empty string and a lone sign are errors, one leading
  \<open>+\<close> is accepted, any other character that is no digit is an error, and so is a value that
  does not fit.
\<close>

definition u32_from_hex :: "string \<Rightarrow> u32 option" where
  "u32_from_hex s =
     (let ds = (case s of [] \<Rightarrow> [] | c # t \<Rightarrow> if c = CHR ''+'' then t else s) in
      if ds = [] then None
      else case parse_hex_digits 0 ds of
          None \<Rightarrow> None
        | Some n \<Rightarrow> if n < 2 ^ 32 then Some (word_of_nat n) else None)"

definition hex_char :: "nat \<Rightarrow> char" where
  "hex_char d = (if d < 10 then char_of (48 + d) else char_of (87 + d))"

text \<open>\<open>n\<close> hexadecimal digits of \<open>x\<close>, most significant first; \<open>format!("{x:08x}")\<close> of a \<open>u32\<close>.\<close>

fun hex_digits :: "nat \<Rightarrow> nat \<Rightarrow> string" where
  "hex_digits 0 x = []"
| "hex_digits (Suc n) x = hex_digits n (x div 16) @ [hex_char (x mod 16)]"

definition fmt_08x :: "u32 \<Rightarrow> string" where
  "fmt_08x w = hex_digits 8 (unat w)"

lemma length_hex_digits [simp]: "length (hex_digits n x) = n"
  by (induction n arbitrary: x) auto

lemma length_fmt_08x [simp]: "length (fmt_08x w) = 8"
  by (simp add: fmt_08x_def)

lemma of_char_hex_char: "d < 16 \<Longrightarrow> (of_char (hex_char d) :: nat) = (if d < 10 then 48 + d else 87 + d)"
  by (auto simp: hex_char_def)

lemma hex_digit_hex_char [simp]: "d < 16 \<Longrightarrow> hex_digit (hex_char d) = Some d"
  by (auto simp: hex_digit_def of_char_hex_char Let_def)

lemma hex_digit_less: "hex_digit c = Some d \<Longrightarrow> d < 16"
  by (auto simp: hex_digit_def Let_def split: if_splits)

lemma parse_hex_digits_append:
  "parse_hex_digits a (s @ t) =
     (case parse_hex_digits a s of None \<Rightarrow> None | Some n \<Rightarrow> parse_hex_digits n t)"
  by (induction s arbitrary: a) (auto split: option.splits)

lemma parse_hex_digits_hex_digits:
  "parse_hex_digits a (hex_digits n x) = Some (a * 16 ^ n + x mod 16 ^ n)"
proof (induction n arbitrary: x a)
  case 0
  then show ?case by simp
next
  case (Suc n)
  have "16 * (x div 16 mod 16 ^ n) + x mod 16 = x mod (16 * 16 ^ n)"
    by (simp add: mod_mult2_eq)
  then show ?case
    by (simp add: Suc.IH parse_hex_digits_append algebra_simps)
qed

lemma is_hexdigit_hex_digits: "c \<in> set (hex_digits n x) \<Longrightarrow> is_hexdigit c"
  by (induction n arbitrary: x) (auto simp: is_hexdigit_def)

lemma hex_digits_no_plus: "hex_digits n x = c # t \<Longrightarrow> c \<noteq> CHR ''+''"
  using is_hexdigit_hex_digits [of c n x] by (auto simp: is_hexdigit_def hex_digit_def)

lemma u32_from_hex_fmt_08x [simp]: "u32_from_hex (fmt_08x w) = Some w"
proof -
  obtain c t where s: "hex_digits 8 (unat w) = c # t"
    using length_hex_digits [of 8 "unat w"] by (cases "hex_digits 8 (unat w)") auto
  have "c \<noteq> CHR ''+''" using s by (rule hex_digits_no_plus)
  then have "(case hex_digits 8 (unat w) of [] \<Rightarrow> [] | c # t \<Rightarrow>
      if c = CHR ''+'' then t else hex_digits 8 (unat w)) = hex_digits 8 (unat w)"
    by (simp add: s)
  moreover have "parse_hex_digits 0 (hex_digits 8 (unat w)) = Some (unat w)"
    using unat_lt [of w] by (simp add: parse_hex_digits_hex_digits)
  moreover have "hex_digits 8 (unat w) \<noteq> []" by (simp add: s)
  ultimately show ?thesis
    using unat_lt [of w] by (simp add: u32_from_hex_def fmt_08x_def)
qed

lemma fmt_08x_inj: "fmt_08x v = fmt_08x w \<Longrightarrow> v = w"
  by (metis option.inject u32_from_hex_fmt_08x)

lemma is_hexdigit_fmt_08x: "c \<in> set (fmt_08x w) \<Longrightarrow> is_hexdigit c"
  by (simp add: fmt_08x_def is_hexdigit_hex_digits)

lemma trim_0x_fmt_08x [simp]: "trim_0x (fmt_08x w) = fmt_08x w"
proof -
  have "trim_0x s = s" if "\<forall>c \<in> set s. is_hexdigit c" for s
    using that by (cases s rule: trim_0x.cases) (auto simp: is_hexdigit_def hex_digit_def)
  then show ?thesis by (simp add: is_hexdigit_fmt_08x)
qed

text \<open>What a parsed value says about its text.\<close>

lemma parse_hex_digits_Some_all: "parse_hex_digits a s = Some n \<Longrightarrow> \<forall>c \<in> set s. is_hexdigit c"
  by (induction s arbitrary: a) (auto simp: is_hexdigit_def split: option.splits)

lemma parse_hex_digits_total: "\<forall>c \<in> set s. is_hexdigit c \<Longrightarrow> \<exists>n. parse_hex_digits a s = Some n"
  by (induction s arbitrary: a) (auto simp: is_hexdigit_def)

lemma parse_hex_digits_bound:
  "parse_hex_digits a s = Some n \<Longrightarrow> n < (a + 1) * 16 ^ length s"
proof (induction s arbitrary: a)
  case Nil
  then show ?case by simp
next
  case (Cons c s)
  then obtain d where d: "hex_digit c = Some d" "parse_hex_digits (16 * a + d) s = Some n"
    by (auto split: option.splits)
  then have "n < (16 * a + d + 1) * 16 ^ length s" by (intro Cons.IH)
  also have "\<dots> \<le> (16 * a + 16) * 16 ^ length s"
    using hex_digit_less [OF d(1)] by (intro mult_le_mono1) simp
  also have "\<dots> = (a + 1) * 16 ^ length (c # s)" by (simp add: algebra_simps)
  finally show ?case .
qed

subsection \<open>Decimal integers\<close>

text \<open>\<open>n.to_string()\<close> of an unsigned integer.\<close>

fun dec_digits :: "nat \<Rightarrow> string" where
  "dec_digits n =
     (if n < 10 then [char_of (48 + n)] else dec_digits (n div 10) @ [char_of (48 + n mod 10)])"

declare dec_digits.simps [simp del]

definition parse_dec :: "string \<Rightarrow> nat" where
  "parse_dec s = foldl (\<lambda>a c. 10 * a + (of_char c - 48)) 0 s"

lemma parse_dec_snoc: "parse_dec (s @ [c]) = 10 * parse_dec s + (of_char c - 48)"
  by (simp add: parse_dec_def)

lemma parse_dec_digits [simp]: "parse_dec (dec_digits n) = n"
proof (induction n rule: dec_digits.induct)
  case (1 n)
  show ?case
  proof (cases "n < 10")
    case True
    then show ?thesis by (subst dec_digits.simps) (simp add: parse_dec_def)
  next
    case False
    with 1 have "parse_dec (dec_digits n) = 10 * (n div 10) + n mod 10"
      by (subst dec_digits.simps) (simp add: parse_dec_snoc)
    then show ?thesis by simp
  qed
qed

lemma dec_digits_inj: "dec_digits m = dec_digits n \<Longrightarrow> m = n"
  by (metis parse_dec_digits)

lemma dec_digits_digit: "c \<in> set (dec_digits n) \<Longrightarrow> 48 \<le> (of_char c :: nat) \<and> (of_char c :: nat) \<le> 57"
proof (induction n rule: dec_digits.induct)
  case (1 n)
  have "n mod 10 < 10" by simp
  then have "48 + n mod 10 < 256" by simp
  with 1 show ?case
    by (subst (asm) dec_digits.simps) (auto split: if_splits simp: less_Suc_eq_le)
qed

subsection \<open>Time\<close>

text \<open>
  Instants (\<open>DateTime\<close>) and spans are integers in nanoseconds. The whole milliseconds and
  seconds of a span round towards zero, as \<open>num_milliseconds\<close> and \<open>num_seconds\<close> do.
\<close>

type_synonym instant = int

definition trunc_div :: "int \<Rightarrow> int \<Rightarrow> int" where
  "trunc_div a b = (if a < 0 then - ((- a) div b) else a div b)"

definition num_milliseconds :: "int \<Rightarrow> int" where
  "num_milliseconds d = trunc_div d 1000000"

definition num_seconds :: "int \<Rightarrow> int" where
  "num_seconds d = trunc_div d 1000000000"

lemma trunc_div_nonneg: "0 \<le> a \<Longrightarrow> 0 < b \<Longrightarrow> 0 \<le> trunc_div a b"
  by (simp add: trunc_div_def pos_imp_zdiv_nonneg_iff)

lemma trunc_div_mono: "0 < b \<Longrightarrow> a \<le> a' \<Longrightarrow> trunc_div a b \<le> trunc_div a' b"
proof -
  assume b: "0 < b" and le: "a \<le> a'"
  have "0 \<le> (- a) div b" if "a < 0" using that b by (simp add: pos_imp_zdiv_nonneg_iff)
  moreover have "0 \<le> a' div b" if "0 \<le> a'" using that b by (simp add: pos_imp_zdiv_nonneg_iff)
  moreover have "a div b \<le> a' div b" using le b by (simp add: zdiv_mono1)
  moreover have "(- a') div b \<le> (- a) div b" using le b by (intro zdiv_mono1) auto
  ultimately show ?thesis using le by (auto simp: trunc_div_def)
qed

end
