(* ===== verification/Bitcoin_Encoding.thy ===== *)
theory Bitcoin_Encoding
  imports Interfaces RustStd
begin

text \<open>
  \<open>src/bitcoin_encoding.rs\<close> and the readers and sizes that belong to it: the CompactSize
  integers of Bitcoin (\<open>encode_varint\<close>; \<open>varint_len\<close> of \<open>template.rs\<close>; \<open>read_varint\<close> of
  \<open>p2p.rs\<close>) and the hexadecimal 32-bit fields of Stratum (\<open>parse_u32_be_hex\<close>).
\<close>

definition encode_varint :: "u64 \<Rightarrow> bytes \<Rightarrow> bytes" where
  "encode_varint value out =
     (if value \<le> 0xfc then out @ [ucast value]
      else if value \<le> 0xffff then out @ [0xfd] @ u16_to_le (ucast value)
      else if value \<le> 0xffffffff then out @ [0xfe] @ u32_to_le (ucast value)
      else out @ [0xff] @ u64_to_le value)"

definition varint_len :: "u64 \<Rightarrow> nat" where
  "varint_len value =
     (if value \<le> 0xfc then 1
      else if value \<le> 0xffff then 3
      else if value \<le> 0xffffffff then 5
      else 9)"

definition parse_u32_be_hex :: "string \<Rightarrow> u32 option" where
  "parse_u32_be_hex value = u32_from_hex (trim_0x value)"

text \<open>\<open>payload.get(i..j)\<close>.\<close>

definition get_range :: "'a list \<Rightarrow> nat \<Rightarrow> nat \<Rightarrow> 'a list option" where
  "get_range bs i j = (if i \<le> j \<and> j \<le> length bs then Some (take (j - i) (drop i bs)) else None)"

text \<open>The cursor \<open>pos\<close> is returned with the value.\<close>

definition read_varint :: "bytes \<Rightarrow> nat \<Rightarrow> (u64 \<times> nat) result" where
  "read_varint payload pos =
     (if pos < length payload then
        (let prefix = payload ! pos; pos = pos + 1 in
         if prefix \<le> 0xfc then Inr (ucast prefix, pos)
         else if prefix = 0xfd then
           (case get_range payload pos (pos + 2) of
              None \<Rightarrow> Inl ''varint u16 truncated''
            | Some bs \<Rightarrow> Inr (word_of_nat (le_to_nat bs), pos + 2))
         else if prefix = 0xfe then
           (case get_range payload pos (pos + 4) of
              None \<Rightarrow> Inl ''varint u32 truncated''
            | Some bs \<Rightarrow> Inr (word_of_nat (le_to_nat bs), pos + 4))
         else
           (case get_range payload pos (pos + 8) of
              None \<Rightarrow> Inl ''varint u64 truncated''
            | Some bs \<Rightarrow> Inr (word_of_nat (le_to_nat bs), pos + 8)))
      else Inl ''varint prefix missing'')"

subsection \<open>Lemmas\<close>

lemma get_range_append:
  "get_range (as @ bs @ cs) (length as) (length as + length bs) = Some bs"
  by (simp add: get_range_def)

lemma get_range_length: "get_range bs i j = Some r \<Longrightarrow> length r = j - i \<and> i \<le> j \<and> j \<le> length bs"
  by (auto simp: get_range_def split: if_splits)

lemma encode_varint_append: "encode_varint v out = out @ encode_varint v []"
  by (simp add: encode_varint_def)

lemma length_encode_varint: "length (encode_varint v out) = length out + varint_len v"
  by (simp add: encode_varint_def varint_len_def)

lemma varint_len_bounds: "1 \<le> varint_len v \<and> varint_len v \<le> 9"
  by (simp add: varint_len_def)

lemma unat_ucast_small: "unat v < 2 ^ LENGTH('b) \<Longrightarrow> unat (ucast v :: 'b::len word) = unat v"
  by (simp add: unsigned_ucast_eq take_bit_nat_eq_self_iff)

lemma word_of_nat_unat_u64: "word_of_nat (unat v) = (v :: u64)"
  by simp

lemma read_varint_wide:
  assumes "get_range (pre @ encode_varint v [] @ rest) (Suc (length pre)) (length (pre @ encode_varint v [])) = Some bs"
  shows "length bs = varint_len v - 1"
  using get_range_length [OF assms] by (simp add: length_encode_varint)

lemma read_varint_encode:
  "read_varint (pre @ encode_varint v [] @ rest) (length pre) =
     Inr (v, length pre + varint_len v)"
proof -
  consider (a) "unat v \<le> 0xfc" | (b) "0xfc < unat v" "unat v \<le> 0xffff"
    | (c) "0xffff < unat v" "unat v \<le> 0xffffffff" | (d) "0xffffffff < unat v"
    by linarith
  then show ?thesis
  proof cases
    case a
    then have u: "unat (ucast v :: u8) = unat v" by (simp add: unat_ucast_small)
    then have le: "(ucast v :: u8) \<le> 0xfc" using a by (simp add: word_le_nat_alt)
    have "unat (ucast (ucast v :: u8) :: u64) = unat v"
      using a by (simp add: unat_ucast_small u)
    then have "ucast (ucast v :: u8) = v" by (simp only: word_unat_eq_iff)
    with a le show ?thesis
      by (simp add: read_varint_def encode_varint_def varint_len_def word_le_nat_alt nth_append Let_def)
  next
    case b
    then have u: "unat (ucast v :: u16) = unat v" by (simp add: unat_ucast_small)
    have e: "encode_varint v [] = 0xfd # u16_to_le (ucast v)" and l: "varint_len v = 3"
      using b by (simp_all add: encode_varint_def varint_len_def word_le_nat_alt)
    have "get_range ((pre @ [0xfd]) @ u16_to_le (ucast v) @ rest) (length (pre @ [0xfd]))
        (length (pre @ [0xfd]) + length (u16_to_le (ucast v))) = Some (u16_to_le (ucast v))"
      by (rule get_range_append)
    then show ?thesis by (simp add: read_varint_def e l u nth_append Let_def)
  next
    case c
    then have u: "unat (ucast v :: u32) = unat v" by (simp add: unat_ucast_small)
    have e: "encode_varint v [] = 0xfe # u32_to_le (ucast v)" and l: "varint_len v = 5"
      using c by (simp_all add: encode_varint_def varint_len_def word_le_nat_alt)
    have "get_range ((pre @ [0xfe]) @ u32_to_le (ucast v) @ rest) (length (pre @ [0xfe]))
        (length (pre @ [0xfe]) + length (u32_to_le (ucast v))) = Some (u32_to_le (ucast v))"
      by (rule get_range_append)
    then show ?thesis by (simp add: read_varint_def e l u nth_append Let_def)
  next
    case d
    have e: "encode_varint v [] = 0xff # u64_to_le v" and l: "varint_len v = 9"
      using d by (simp_all add: encode_varint_def varint_len_def word_le_nat_alt)
    have "get_range ((pre @ [0xff]) @ u64_to_le v @ rest) (length (pre @ [0xff]))
        (length (pre @ [0xff]) + length (u64_to_le v)) = Some (u64_to_le v)"
      by (rule get_range_append)
    then show ?thesis by (simp add: read_varint_def e l nth_append Let_def)
  qed
qed

text \<open>Reading never moves the cursor past the payload and always forward.\<close>

lemma read_varint_advances:
  "read_varint payload pos = Inr (v, pos') \<Longrightarrow> pos < pos' \<and> pos' \<le> length payload"
  by (auto simp: read_varint_def Let_def dest!: get_range_length split: if_splits option.splits)

definition varint_dec :: "bytes \<Rightarrow> (u64 \<times> bytes) option" where
  "varint_dec bs =
     (case read_varint bs 0 of Inl e \<Rightarrow> None | Inr (v, pos) \<Rightarrow> Some (v, drop pos bs))"

interpretation varint: byte_codec "\<lambda>v. encode_varint v []" varint_dec "\<lambda>_. True"
proof
  fix v rest
  show "varint_dec (encode_varint v [] @ rest) = Some (v, rest)"
    using read_varint_encode [of "[]" v rest]
    by (simp add: varint_dec_def length_encode_varint)
qed

lemma parse_u32_be_hex_fmt [simp]: "parse_u32_be_hex (fmt_08x w) = Some w"
  by (simp add: parse_u32_be_hex_def)

subsection \<open>Properties\<close>

text \<open>\<open>encode_varint\<close>, \<open>read_varint\<close>: a CompactSize integer is read back from the bytes the encoder
  writes, wherever it stands in a payload, the cursor then stands behind it, and the length is the
  one \<open>varint_len\<close> states.\<close>

theorem varint_roundtrip:
  "read_varint (before @ encode_varint v [] @ after) (length before) =
     Inr (v, length before + varint_len v) \<and>
   length (encode_varint v []) = varint_len v"
  by (simp add: read_varint_encode length_encode_varint)

text \<open>\<open>encode_varint\<close>: a list of CompactSize integers written one after the other is decoded to
  the same list, and what follows it is left.\<close>

theorem varint_list_roundtrip:
  "decode_many varint_dec (length vs) (concat (map (\<lambda>v. encode_varint v []) vs) @ rest) = Some (vs, rest)"
  by (rule varint.decode_many_enc) simp

end
