(* ===== verification/Float64.thy ===== *)
theory Float64
  imports Complex_Main Prelude
begin

text \<open>
  IEEE 754 binary64, the \<open>f64\<close> of the program. A finite value is the rational number it stands
  for (the two zeros are one value), and every arithmetic operation is the exact result rounded
  to the nearest representable number, ties to even, with overflow to infinity. Comparisons with
  NaN are false, as in Rust. The type is made an instance of the syntactic classes only: the
  laws of ordered rings do not hold of rounded arithmetic.
\<close>

datatype f64 = NaN | PInf | NInf | Fin rat

subsection \<open>Rounding\<close>

fun ilog2 :: "nat \<Rightarrow> nat" where
  "ilog2 n = (if n < 2 then 0 else Suc (ilog2 (n div 2)))"

declare ilog2.simps [simp del]

lemma ilog2_bounds: "0 < n \<Longrightarrow> 2 ^ ilog2 n \<le> n \<and> n < 2 ^ Suc (ilog2 n)"
proof (induction n rule: ilog2.induct)
  case (1 n)
  show ?case
  proof (cases "n < 2")
    case True
    with 1 show ?thesis by (simp add: ilog2.simps [of n])
  next
    case False
    then have e: "ilog2 n = Suc (ilog2 (n div 2))" by (simp add: ilog2.simps [of n])
    from 1 False have "2 ^ ilog2 (n div 2) \<le> n div 2" "n div 2 < 2 ^ Suc (ilog2 (n div 2))"
      by auto
    then have "2 ^ ilog2 (n div 2) * 2 \<le> n" "n < 2 ^ Suc (ilog2 (n div 2)) * 2"
      by (simp_all add: div_less_iff_less_mult less_eq_div_iff_mult_less_eq)
    then show ?thesis by (simp add: e)
  qed
qed

text \<open>The exponent of the leading bit of a positive rational.\<close>

definition flog2 :: "rat \<Rightarrow> int" where
  "flog2 x =
     (case quotient_of x of (a, b) \<Rightarrow>
        let k = int (ilog2 (nat a)) - int (ilog2 (nat b)) in
        if 2 powi k \<le> x then k else k - 1)"

lemma flog2_bounds:
  assumes "0 < x"
  shows "2 powi flog2 x \<le> x" and "x < 2 powi (flog2 x + 1)"
proof -
  obtain a b where q: "quotient_of x = (a, b)" by fastforce
  have b: "0 < b" and x: "x = of_int a / of_int b"
    using quotient_of_denom_pos [OF q] quotient_of_div [OF q] by auto
  with assms have a: "0 < a" by (simp add: zero_less_divide_iff)
  define la lb where "la = ilog2 (nat a)" and "lb = ilog2 (nat b)"
  have "2 ^ la \<le> nat a" "nat a < 2 ^ Suc la" "2 ^ lb \<le> nat b" "nat b < 2 ^ Suc lb"
    using a b ilog2_bounds [of "nat a"] ilog2_bounds [of "nat b"] by (auto simp: la_def lb_def)
  then have "int (2 ^ la) \<le> a" "a < int (2 ^ Suc la)" "int (2 ^ lb) \<le> b" "b < int (2 ^ Suc lb)"
    using a b by (simp_all only: nat_le_iff zless_nat_eq_int_zless le_nat_iff nat_less_iff)
  then have bnd: "(2::rat) ^ la \<le> of_int a" "of_int a < (2::rat) ^ Suc la"
    "(2::rat) ^ lb \<le> of_int b" "of_int b < (2::rat) ^ Suc lb"
    using of_int_le_iff [where 'a = rat] of_int_less_iff [where 'a = rat]
    by (metis of_int_of_nat_eq of_nat_numeral of_nat_power)+
  define k where "k = int la - int lb"
  have k: "(2::rat) powi k = 2 ^ la / 2 ^ lb"
    by (simp add: k_def power_int_diff)
  have lo: "2 powi (k - 1) \<le> x"
  proof -
    have "(2::rat) powi (k - 1) = 2 ^ la / 2 ^ Suc lb"
      by (simp add: k_def power_int_diff)
    also have "\<dots> \<le> of_int a / of_int b"
      using bnd a b by (intro frac_le) auto
    finally show ?thesis by (simp add: x)
  qed
  have hi: "x < 2 powi (k + 1)"
  proof -
    have "of_int a / of_int b < (2::rat) ^ Suc la / 2 ^ lb"
      using bnd a b by (intro frac_less) auto
    also have "\<dots> = 2 powi (k + 1)"
      by (simp add: k_def power_int_add power_int_diff)
    finally show ?thesis by (simp add: x)
  qed
  have fl: "flog2 x = (if 2 powi k \<le> x then k else k - 1)"
    by (simp add: flog2_def q k_def la_def lb_def Let_def)
  show "2 powi flog2 x \<le> x" and "x < 2 powi (flog2 x + 1)"
    using lo hi by (auto simp: fl)
qed

lemma flog2_mono:
  assumes "0 < x" and "x \<le> y"
  shows "flog2 x \<le> flog2 y"
proof (rule ccontr)
  assume "\<not> flog2 x \<le> flog2 y"
  then have "(2::rat) powi (flog2 y + 1) \<le> 2 powi flog2 x"
    by (intro power_int_increasing) auto
  with flog2_bounds(1) [OF assms(1)] flog2_bounds(2) [of y] assms show False by simp
qed

text \<open>Round to the nearest integer, ties to even.\<close>

definition rhe :: "rat \<Rightarrow> int" where
  "rhe x =
     (let f = \<lfloor>x\<rfloor>; d = x - of_int f in
      if d < 1 / 2 then f else if 1 / 2 < d then f + 1 else if even f then f else f + 1)"

lemma rhe_floor: "\<lfloor>x\<rfloor> \<le> rhe x" "rhe x \<le> \<lfloor>x\<rfloor> + 1"
  by (auto simp: rhe_def Let_def)

lemma rhe_of_int [simp]: "rhe (of_int n) = n"
  by (simp add: rhe_def)

lemma rhe_mono: "x \<le> y \<Longrightarrow> rhe x \<le> rhe y"
proof -
  assume le: "x \<le> y"
  show ?thesis
  proof (cases "\<lfloor>x\<rfloor> = \<lfloor>y\<rfloor>")
    case True
    with le show ?thesis by (auto simp: rhe_def Let_def)
  next
    case False
    then have "\<lfloor>x\<rfloor> + 1 \<le> \<lfloor>y\<rfloor>" using floor_mono [OF le] by simp
    with rhe_floor(2) [of x] rhe_floor(1) [of y] show ?thesis by simp
  qed
qed

lemma rhe_le_int: "x \<le> of_int n \<Longrightarrow> rhe x \<le> n"
  using rhe_mono [of x "of_int n"] by simp

lemma rhe_ge_int: "of_int n \<le> x \<Longrightarrow> n \<le> rhe x"
  using rhe_mono [of "of_int n" x] by simp

text \<open>The exponent of the last bit kept: 53 significant bits, none below \<open>2 ^ -1074\<close>.\<close>

definition ulp_exp :: "rat \<Rightarrow> int" where
  "ulp_exp x = max (- 1074) (flog2 x - 52)"

definition round_pos :: "rat \<Rightarrow> rat" where
  "round_pos x = (let e = ulp_exp x in of_int (rhe (x / 2 powi e)) * 2 powi e)"

definition rnd :: "rat \<Rightarrow> rat" where
  "rnd x = (if x = 0 then 0 else if 0 < x then round_pos x else - round_pos (- x))"

lemma round_pos_nonneg: "0 \<le> x \<Longrightarrow> 0 \<le> round_pos x"
  using rhe_ge_int [of 0 "x / 2 powi ulp_exp x"] by (simp add: round_pos_def Let_def)

lemma round_pos_le:
  assumes "ulp_exp x \<le> n" and "x \<le> 2 powi n"
  shows "round_pos x \<le> 2 powi n"
proof -
  let ?e = "ulp_exp x"
  have p: "(2::rat) powi n = of_int (2 ^ nat (n - ?e)) * 2 powi ?e"
    using assms(1) by (simp add: power_int_add [symmetric] flip: power_int_of_nat)
  have "x / 2 powi ?e \<le> of_int (2 ^ nat (n - ?e))"
    using assms(2) by (simp add: p pos_divide_le_eq)
  then have "rhe (x / 2 powi ?e) \<le> 2 ^ nat (n - ?e)" by (rule rhe_le_int)
  then have "(of_int (rhe (x / 2 powi ?e)) :: rat) \<le> of_int (2 ^ nat (n - ?e))"
    by (simp only: of_int_le_iff)
  then show ?thesis by (simp add: round_pos_def Let_def p mult_right_mono)
qed

lemma round_pos_ge:
  assumes "ulp_exp x \<le> n" and "2 powi n \<le> x"
  shows "2 powi n \<le> round_pos x"
proof -
  let ?e = "ulp_exp x"
  have p: "(2::rat) powi n = of_int (2 ^ nat (n - ?e)) * 2 powi ?e"
    using assms(1) by (simp add: power_int_add [symmetric] flip: power_int_of_nat)
  have "of_int (2 ^ nat (n - ?e)) \<le> x / 2 powi ?e"
    using assms(2) by (simp add: p pos_le_divide_eq)
  then have "2 ^ nat (n - ?e) \<le> rhe (x / 2 powi ?e)" by (rule rhe_ge_int)
  then have "of_int (2 ^ nat (n - ?e)) \<le> (of_int (rhe (x / 2 powi ?e)) :: rat)"
    by (simp only: of_int_le_iff)
  then show ?thesis by (simp add: round_pos_def Let_def p mult_right_mono)
qed

lemma round_pos_mono:
  assumes "0 < x" and "x \<le> y"
  shows "round_pos x \<le> round_pos y"
proof (cases "ulp_exp x = ulp_exp y")
  case True
  have "x / 2 powi ulp_exp x \<le> y / 2 powi ulp_exp x"
    using assms(2) by (simp add: divide_right_mono)
  then have "rhe (x / 2 powi ulp_exp x) \<le> rhe (y / 2 powi ulp_exp x)" by (rule rhe_mono)
  then show ?thesis by (simp add: round_pos_def Let_def True mult_right_mono)
next
  case False
  let ?n = "flog2 y"
  have lt: "flog2 x < ?n" and ey: "ulp_exp y = ?n - 52" and ex: "ulp_exp x \<le> ?n"
    using False flog2_mono [OF assms] by (auto simp: ulp_exp_def)
  have "x \<le> 2 powi (flog2 x + 1)" using flog2_bounds(2) [OF assms(1)] by simp
  also have "\<dots> \<le> 2 powi ?n" using lt by (intro power_int_increasing) auto
  finally have "round_pos x \<le> 2 powi ?n" using ex by (intro round_pos_le)
  also have "\<dots> \<le> round_pos y"
    using assms ey flog2_bounds(1) [of y] by (intro round_pos_ge) auto
  finally show ?thesis .
qed

lemma rnd_mono: "x \<le> y \<Longrightarrow> rnd x \<le> rnd y"
proof -
  assume le: "x \<le> y"
  consider "0 < x" | "x = 0" | "x < 0" "y < 0" | "x < 0" "0 \<le> y" by linarith
  then show ?thesis
  proof cases
    case 1
    with le show ?thesis by (simp add: rnd_def round_pos_mono)
  next
    case 2
    with le show ?thesis by (simp add: rnd_def round_pos_nonneg)
  next
    case 3
    with le round_pos_mono [of "- y" "- x"] show ?thesis by (simp add: rnd_def)
  next
    case 4
    with round_pos_nonneg [of "- x"] round_pos_nonneg [of y] show ?thesis by (simp add: rnd_def)
  qed
qed

lemma rnd_0 [simp]: "rnd 0 = 0"
  by (simp add: rnd_def)

lemma round_pos_exact:
  assumes "x = of_int m * 2 powi k" and "ulp_exp x \<le> k"
  shows "round_pos x = x"
proof -
  let ?e = "ulp_exp x"
  have p: "(2::rat) powi k = of_int (2 ^ nat (k - ?e)) * 2 powi ?e"
    using assms(2) by (simp add: power_int_add [symmetric] flip: power_int_of_nat)
  have "x / 2 powi ?e = of_int (m * 2 ^ nat (k - ?e))"
    by (subst assms(1), subst p) simp
  then have "rhe (x / 2 powi ?e) = m * 2 ^ nat (k - ?e)" by (simp only: rhe_of_int)
  then have "round_pos x = of_int m * (of_int (2 ^ nat (k - ?e)) * 2 powi ?e)"
    by (simp add: round_pos_def Let_def)
  then show ?thesis by (simp only: p [symmetric] assms(1) [symmetric])
qed

text \<open>Integers of at most 53 bits are exact.\<close>

lemma rnd_of_int:
  assumes "\<bar>n\<bar> \<le> 2 ^ 53"
  shows "rnd (of_int n) = of_int n"
proof -
  have pos: "round_pos (of_int m) = of_int m" if m: "0 < m" "m \<le> 2 ^ 53" for m :: int
  proof (cases "m = 2 ^ 53")
    case True
    have "flog2 (2 ^ 53 :: rat) \<le> 53"
    proof (rule ccontr)
      assume "\<not> ?thesis"
      then have "(2::rat) powi 54 \<le> 2 powi flog2 (2 ^ 53)" by (intro power_int_increasing) auto
      with flog2_bounds(1) [of "2 ^ 53"] show False by simp
    qed
    then show ?thesis
      using True by (intro round_pos_exact [of _ 1 53]) (auto simp: ulp_exp_def)
  next
    case False
    have "flog2 (of_int m) < 53"
    proof (rule ccontr)
      assume "\<not> ?thesis"
      then have "(2::rat) powi 53 \<le> 2 powi flog2 (of_int m)" by (intro power_int_increasing) auto
      also have "\<dots> \<le> of_int m" using m by (intro flog2_bounds) simp
      finally have "of_int (2 ^ 53) \<le> (of_int m :: rat)" by simp
      then have "2 ^ 53 \<le> m" by (simp only: of_int_le_iff)
      with m False show False by simp
    qed
    then show ?thesis by (intro round_pos_exact [of _ m 0]) (auto simp: ulp_exp_def)
  qed
  show ?thesis
    using assms pos [of n] pos [of "- n"] by (auto simp: rnd_def)
qed


subsection \<open>Arithmetic\<close>

definition f64_of_rat :: "rat \<Rightarrow> f64" where
  "f64_of_rat x =
     (let r = rnd x in
      if r \<ge> 2 ^ 1024 then PInf else if r \<le> - (2 ^ 1024) then NInf else Fin r)"

text \<open>Casts of integers, \<open>n as f64\<close>.\<close>

definition f64_of_int :: "int \<Rightarrow> f64" where
  "f64_of_int n = f64_of_rat (of_int n)"

instantiation f64 :: "{zero, one, plus, minus, uminus, times, inverse, ord}"
begin

definition zero_f64 :: f64 where "0 = Fin 0"
definition one_f64 :: f64 where "1 = Fin 1"

fun uminus_f64 :: "f64 \<Rightarrow> f64" where
  "- NaN = NaN"
| "- PInf = NInf"
| "- NInf = PInf"
| "- (Fin x) = Fin (- x)"

fun plus_f64 :: "f64 \<Rightarrow> f64 \<Rightarrow> f64" where
  "Fin x + Fin y = f64_of_rat (x + y)"
| "Fin x + b = b"
| "a + Fin y = a"
| "PInf + PInf = PInf"
| "NInf + NInf = NInf"
| "(a :: f64) + b = NaN"

definition minus_f64 :: "f64 \<Rightarrow> f64 \<Rightarrow> f64" where "(a :: f64) - b = a + - b"

definition inf_of :: "rat \<Rightarrow> f64" where
  "inf_of s = (if s = 0 then NaN else if 0 < s then PInf else NInf)"

fun sign_of :: "f64 \<Rightarrow> rat" where
  "sign_of NaN = 0"
| "sign_of PInf = 1"
| "sign_of NInf = - 1"
| "sign_of (Fin x) = sgn x"

fun times_f64 :: "f64 \<Rightarrow> f64 \<Rightarrow> f64" where
  "Fin x * Fin y = f64_of_rat (x * y)"
| "(a :: f64) * b = inf_of (sign_of a * sign_of b)"

text \<open>A zero divisor is the positive zero: the program divides by no negative zero.\<close>

fun divide_f64 :: "f64 \<Rightarrow> f64 \<Rightarrow> f64" where
  "divide (Fin x) (Fin y) = (if y = 0 then inf_of (sgn x) else f64_of_rat (x / y))"
| "divide (Fin x) NaN = NaN"
| "divide (Fin x) b = Fin 0"
| "divide NaN b = NaN"
| "divide a (Fin y) = inf_of (sign_of a * (if y = 0 then 1 else sgn y))"
| "divide a b = NaN"

definition inverse_f64 :: "f64 \<Rightarrow> f64" where "inverse a = divide 1 (a :: f64)"

fun less_eq_f64 :: "f64 \<Rightarrow> f64 \<Rightarrow> bool" where
  "less_eq_f64 NaN b = False"
| "less_eq_f64 a NaN = False"
| "less_eq_f64 NInf b = True"
| "less_eq_f64 a PInf = True"
| "less_eq_f64 (Fin x) (Fin y) = (x \<le> y)"
| "less_eq_f64 a b = False"

fun less_f64 :: "f64 \<Rightarrow> f64 \<Rightarrow> bool" where
  "less_f64 NaN b = False"
| "less_f64 a NaN = False"
| "less_f64 (Fin x) (Fin y) = (x < y)"
| "less_f64 NInf NInf = False"
| "less_f64 NInf b = True"
| "less_f64 PInf b = False"
| "less_f64 a PInf = True"
| "less_f64 a NInf = False"

instance ..

end

text \<open>\<open>abs\<close>, \<open>max\<close>, \<open>min\<close>: a NaN argument of \<open>max\<close> and \<open>min\<close> is ignored.\<close>

fun fabs :: "f64 \<Rightarrow> f64" where
  "fabs (Fin x) = Fin \<bar>x\<bar>"
| "fabs NInf = PInf"
| "fabs a = a"

definition fmax :: "f64 \<Rightarrow> f64 \<Rightarrow> f64" where
  "fmax a b = (if a = NaN then b else if b = NaN then a else if a < b then b else a)"

definition fmin :: "f64 \<Rightarrow> f64 \<Rightarrow> f64" where
  "fmin a b = (if a = NaN then b else if b = NaN then a else if b < a then b else a)"

text \<open>\<open>x.clamp(lo, hi)\<close> asserts \<open>lo <= hi\<close>: \<open>None\<close> is the panic.\<close>

definition fclamp :: "f64 \<Rightarrow> f64 \<Rightarrow> f64 \<Rightarrow> f64 option" where
  "fclamp x lo hi =
     (if lo \<le> hi then Some (if x < lo then lo else if hi < x then hi else x) else None)"

fun is_finite :: "f64 \<Rightarrow> bool" where
  "is_finite (Fin x) = True"
| "is_finite a = False"

fun ffloor :: "f64 \<Rightarrow> f64" where
  "ffloor (Fin x) = Fin (of_int \<lfloor>x\<rfloor>)"
| "ffloor a = a"

fun fceil :: "f64 \<Rightarrow> f64" where
  "fceil (Fin x) = Fin (of_int \<lceil>x\<rceil>)"
| "fceil a = a"

text \<open>\<open>round\<close>: half away from zero.\<close>

fun fround :: "f64 \<Rightarrow> f64" where
  "fround (Fin x) = Fin (sgn x * of_int \<lfloor>\<bar>x\<bar> + 1 / 2\<rfloor>)"
| "fround a = a"

text \<open>Casts to integers truncate towards zero and saturate; NaN becomes 0.\<close>

definition rat_trunc :: "rat \<Rightarrow> int" where
  "rat_trunc x = (if x < 0 then - \<lfloor>- x\<rfloor> else \<lfloor>x\<rfloor>)"

fun f64_to_int :: "int \<Rightarrow> int \<Rightarrow> f64 \<Rightarrow> int" where
  "f64_to_int lo hi NaN = 0"
| "f64_to_int lo hi PInf = hi"
| "f64_to_int lo hi NInf = lo"
| "f64_to_int lo hi (Fin x) = max lo (min hi (rat_trunc x))"

definition f64_to_u64 :: "f64 \<Rightarrow> int" where "f64_to_u64 = f64_to_int 0 (2 ^ 64 - 1)"
definition f64_to_i64 :: "f64 \<Rightarrow> int" where "f64_to_i64 = f64_to_int (- (2 ^ 63)) (2 ^ 63 - 1)"
definition f64_to_u128 :: "f64 \<Rightarrow> nat" where "f64_to_u128 x = nat (f64_to_int 0 (2 ^ 128 - 1) x)"

definition f64_EPSILON :: f64 where "f64_EPSILON = Fin (1 / 2 ^ 52)"
definition f64_MIN_POSITIVE :: f64 where "f64_MIN_POSITIVE = Fin (1 / 2 ^ 1022)"
definition f64_MAX :: f64 where "f64_MAX = Fin ((2 ^ 53 - 1) * 2 ^ 971)"

text \<open>\<open>iter().sum::<f64>()\<close>: from the left, starting at zero.\<close>

definition fsum :: "f64 list \<Rightarrow> f64" where
  "fsum xs = foldl (+) 0 xs"

subsection \<open>Order\<close>

lemma f64_le_refl [simp]: "(a :: f64) \<le> a \<longleftrightarrow> a \<noteq> NaN"
  by (cases a) auto

lemma f64_le_trans: "(a :: f64) \<le> b \<Longrightarrow> b \<le> c \<Longrightarrow> a \<le> c"
  by (cases a; cases b; cases c) auto

lemma f64_less_le: "(a :: f64) < b \<Longrightarrow> a \<le> b"
  by (cases a; cases b) auto

lemma f64_le_antisym: "(a :: f64) \<le> b \<Longrightarrow> b \<le> a \<Longrightarrow> a = b"
  by (cases a; cases b) auto

lemma f64_not_less: "a \<noteq> NaN \<Longrightarrow> b \<noteq> NaN \<Longrightarrow> \<not> a < b \<longleftrightarrow> (b :: f64) \<le> a"
  by (cases a; cases b) auto

lemma f64_less_irrefl [simp]: "\<not> (a :: f64) < a"
  by (cases a) auto

lemma f64_le_nan [simp]: "\<not> (NaN \<le> a)" "\<not> (a \<le> NaN)" "\<not> (NaN < a)" "\<not> (a < NaN)"
  by (cases a; simp)+

lemma f64_le_less_trans: "(a :: f64) \<le> b \<Longrightarrow> b < c \<Longrightarrow> a < c"
  by (cases a; cases b; cases c) auto

lemma f64_less_le_trans: "(a :: f64) < b \<Longrightarrow> b \<le> c \<Longrightarrow> a < c"
  by (cases a; cases b; cases c) auto

lemma f64_of_rat_not_nan [simp]: "f64_of_rat x \<noteq> NaN"
  by (simp add: f64_of_rat_def Let_def)

lemma f64_of_rat_mono: "x \<le> y \<Longrightarrow> f64_of_rat x \<le> f64_of_rat y"
  using rnd_mono [of x y] by (auto simp: f64_of_rat_def Let_def)

lemma f64_of_rat_nonneg: "0 \<le> x \<Longrightarrow> Fin 0 \<le> f64_of_rat x"
  using f64_of_rat_mono [of 0 x] by (simp add: f64_of_rat_def)

lemma f64_of_int_small: "\<bar>n\<bar> \<le> 2 ^ 53 \<Longrightarrow> f64_of_int n = Fin (of_int n)"
proof -
  assume n: "\<bar>n\<bar> \<le> 2 ^ 53"
  then have "\<bar>of_int n :: rat\<bar> \<le> 2 ^ 53"
    by (metis of_int_abs of_int_le_iff of_int_numeral of_int_power)
  moreover have "(2::rat) ^ 53 < 2 ^ 1024" by (rule power_strict_increasing) auto
  ultimately have "(of_int n :: rat) < 2 ^ 1024" "- (2 ^ 1024) < (of_int n :: rat)" by linarith+
  then show ?thesis
    by (simp only: f64_of_int_def f64_of_rat_def rnd_of_int [OF n] Let_def) simp
qed

lemma fclamp_bounds:
  assumes "fclamp x lo hi = Some y" and "x \<noteq> NaN"
  shows "lo \<le> y" and "y \<le> hi"
proof -
  have le: "lo \<le> hi" and y: "y = (if x < lo then lo else if hi < x then hi else x)"
    using assms(1) by (auto simp: fclamp_def split: if_splits)
  then have "lo \<noteq> NaN" "hi \<noteq> NaN" by auto
  with le y assms(2) show "lo \<le> y" and "y \<le> hi"
    using f64_not_less [of x lo] f64_not_less [of hi x] by (auto split: if_splits)
qed

lemma fclamp_Some: "lo \<le> hi \<Longrightarrow> \<exists>y. fclamp x lo hi = Some y"
  by (simp add: fclamp_def)

lemma fclamp_None: "fclamp x lo hi = None \<longleftrightarrow> \<not> lo \<le> hi"
  by (simp add: fclamp_def)

lemma fclamp_not_nan: "fclamp x lo hi = Some y \<Longrightarrow> x \<noteq> NaN \<Longrightarrow> y \<noteq> NaN"
  using fclamp_bounds(1) [of x lo hi y] by auto

lemma fclamp_id: "lo \<le> x \<Longrightarrow> x \<le> hi \<Longrightarrow> fclamp x lo hi = Some x"
  by (cases lo; cases x; cases hi) (auto simp: fclamp_def)

lemma fmax_not_nan: "a \<noteq> NaN \<or> b \<noteq> NaN \<Longrightarrow> fmax a b \<noteq> NaN"
  by (auto simp: fmax_def)

lemma fmax_ge1: "a \<noteq> NaN \<Longrightarrow> a \<le> fmax a b"
  using f64_less_le [of a b] by (auto simp: fmax_def)

lemma fmax_ge2: "b \<noteq> NaN \<Longrightarrow> b \<le> fmax a b"
  using f64_not_less [of a b] by (auto simp: fmax_def)

text \<open>The casts are monotone on ordered arguments and stay in range.\<close>

lemma rat_trunc_mono: "x \<le> y \<Longrightarrow> rat_trunc x \<le> rat_trunc y"
proof -
  assume le: "x \<le> y"
  have "\<lfloor>- y\<rfloor> \<le> \<lfloor>- x\<rfloor>" "\<lfloor>x\<rfloor> \<le> \<lfloor>y\<rfloor>" using le by (simp_all add: floor_mono)
  moreover have "- \<lfloor>- x\<rfloor> \<le> \<lfloor>y\<rfloor>" if "x < 0" "0 \<le> y"
  proof -
    have "0 \<le> \<lfloor>- x\<rfloor>" "0 \<le> \<lfloor>y\<rfloor>" using that by simp_all
    then show ?thesis by linarith
  qed
  ultimately show ?thesis using le by (auto simp: rat_trunc_def)
qed

lemma f64_to_int_mono: "lo \<le> hi \<Longrightarrow> a \<le> b \<Longrightarrow> f64_to_int lo hi a \<le> f64_to_int lo hi b"
  by (cases a; cases b) (auto dest: rat_trunc_mono simp: min_def max_def)

lemma f64_to_u128_mono: "a \<le> b \<Longrightarrow> f64_to_u128 a \<le> f64_to_u128 b"
  unfolding f64_to_u128_def by (intro nat_mono f64_to_int_mono) auto

lemma f64_to_u128_less: "f64_to_u128 a < 2 ^ 128"
  by (cases a) (auto simp: f64_to_u128_def)

lemma fround_mono: "a \<le> b \<Longrightarrow> fround a \<le> fround b"
proof (cases a; cases b)
  fix x y assume ab: "a \<le> b" "a = Fin x" "b = Fin y"
  then have le: "x \<le> y" by simp
  have nn: "0 \<le> \<lfloor>\<bar>z\<bar> + 1 / 2\<rfloor>" for z :: rat by simp
  have "sgn x * of_int \<lfloor>\<bar>x\<bar> + 1 / 2\<rfloor> \<le> (sgn y * of_int \<lfloor>\<bar>y\<bar> + 1 / 2\<rfloor> :: rat)"
  proof -
    consider "0 \<le> x" | "x < 0" "y \<le> 0" | "x < 0" "0 < y" by linarith
    then show ?thesis
    proof cases
      case 1
      then have "\<lfloor>x + 1 / 2\<rfloor> \<le> \<lfloor>y + 1 / 2\<rfloor>" using le by (intro floor_mono) simp
      with 1 le nn [of y] show ?thesis by (cases "x = 0") (auto simp: sgn_if)
    next
      case 2
      then have "\<lfloor>- y + 1 / 2\<rfloor> \<le> \<lfloor>- x + 1 / 2\<rfloor>" using le by (intro floor_mono) simp
      with 2 nn [of x] show ?thesis by (cases "y = 0") (auto simp: sgn_if)
    next
      case 3
      have "- of_int \<lfloor>\<bar>x\<bar> + 1 / 2\<rfloor> \<le> (of_int \<lfloor>\<bar>y\<bar> + 1 / 2\<rfloor> :: rat)"
        using nn [of x] nn [of y] by (metis (no_types) neg_le_0_iff_le of_int_0_le_iff order_trans)
      with 3 show ?thesis by (simp add: sgn_if)
    qed
  qed
  with ab show "fround a \<le> fround b" by simp
qed auto

lemma f64_mult_right_mono:
  assumes "a \<le> b" and "0 < c"
  shows "a * Fin c \<le> b * Fin c"
proof (cases a; cases b)
  fix x y assume "a = Fin x" "b = Fin y"
  with assms show ?thesis by (simp add: f64_of_rat_mono)
qed (use assms in \<open>auto simp: inf_of_def f64_of_rat_def Let_def\<close>)

lemma f64_to_u128_of_int_small:
  "0 \<le> n \<Longrightarrow> n < 2 ^ 128 \<Longrightarrow> f64_to_u128 (Fin (of_int n)) = nat n"
  by (simp add: f64_to_u128_def rat_trunc_def)

end
