(* ===== verification/Externs.thy ===== *)
theory Externs
  imports RustStd Float64
begin

text \<open>
  What the program calls and this repository does not contain: the crates \<open>sha2\<close>, \<open>hex\<close>,
  \<open>num-bigint\<close> and \<open>bitcoin\<close>, and the floating-point functions of the platform's mathematics
  library, whose precision Rust leaves open. They are one parameter, a record that the
  definitions take as their first argument; the predicates below state the documented behaviour
  that properties may assume of it. The last field is the build profile: \<open>debug_assert!\<close> is checked
  where \<open>debug_assertions\<close> is set, and is no code at all in the release profile, which is the one
  that the README and the Dockerfile build. \<open>ref_externs\<close> is a concrete instance, for the witnesses.
\<close>

text \<open>\<open>bitcoin::Network\<close>.\<close>

datatype network = Bitcoin | Testnet | Signet | Regtest

record externs =
  sha256 :: "bytes \<Rightarrow> bytes"
  hex_decode :: "string \<Rightarrow> bytes result"
  hex_encode :: "bytes \<Rightarrow> string"
  big_to_f64 :: "nat \<Rightarrow> f64 option"
  f64_log2 :: "f64 \<Rightarrow> f64"
  f64_powf :: "f64 \<Rightarrow> f64 \<Rightarrow> f64"
  f64_powi :: "f64 \<Rightarrow> int \<Rightarrow> f64"
  parse_address :: "string \<Rightarrow> bool"
  address_script :: "network \<Rightarrow> string \<Rightarrow> bytes option"
  network_magic :: "network \<Rightarrow> bytes"
  debug_assertions :: bool

text \<open>A SHA-256 digest has 32 bytes.\<close>

definition sha_ok :: "externs \<Rightarrow> bool" where
  "sha_ok X \<longleftrightarrow> (\<forall>bs. length (sha256 X bs) = 32)"

text \<open>
  \<open>hex::encode\<close> writes two lower-case digits per byte and \<open>hex::decode\<close> inverts it; what
  decodes has an even number of characters, all hexadecimal digits.
\<close>

definition hex_ok :: "externs \<Rightarrow> bool" where
  "hex_ok X \<longleftrightarrow>
     (\<forall>bs. hex_decode X (hex_encode X bs) = Inr bs) \<and>
     (\<forall>bs. length (hex_encode X bs) = 2 * length bs) \<and>
     (\<forall>bs. \<forall>c \<in> set (hex_encode X bs). is_hexdigit c \<and> ascii_lower c = c) \<and>
     (\<forall>s bs. hex_decode X s = Inr bs \<longrightarrow> length s = 2 * length bs \<and> (\<forall>c \<in> set s. is_hexdigit c))"

lemma sha_ok_length: "sha_ok X \<Longrightarrow> length (sha256 X bs) = 32"
  by (simp add: sha_ok_def)

lemma hex_ok_roundtrip: "hex_ok X \<Longrightarrow> hex_decode X (hex_encode X bs) = Inr bs"
  by (simp add: hex_ok_def)

lemma hex_ok_length: "hex_ok X \<Longrightarrow> length (hex_encode X bs) = 2 * length bs"
  by (simp add: hex_ok_def)

lemma hex_ok_decode_length: "hex_ok X \<Longrightarrow> hex_decode X s = Inr bs \<Longrightarrow> length s = 2 * length bs"
  by (simp add: hex_ok_def)

lemma hex_ok_decode_digits: "hex_ok X \<Longrightarrow> hex_decode X s = Inr bs \<Longrightarrow> c \<in> set s \<Longrightarrow> is_hexdigit c"
  by (auto simp: hex_ok_def)

lemma hex_ok_encode_digits: "hex_ok X \<Longrightarrow> c \<in> set (hex_encode X bs) \<Longrightarrow> is_hexdigit c"
  by (auto simp: hex_ok_def)

lemma hex_ok_inj:
  assumes "hex_ok X" and "hex_encode X a = hex_encode X b"
  shows "a = b"
proof -
  have "(Inr a :: bytes result) = hex_decode X (hex_encode X a)"
    by (rule hex_ok_roundtrip [OF assms(1), symmetric])
  also have "\<dots> = Inr b" unfolding assms(2) by (rule hex_ok_roundtrip [OF assms(1)])
  finally show ?thesis by simp
qed

lemma not_hexdigit_x [simp]: "\<not> is_hexdigit CHR ''x''"
  by (simp add: is_hexdigit_def hex_digit_def)

lemma trim_0x_digits: "\<forall>c \<in> set s. is_hexdigit c \<Longrightarrow> trim_0x s = s"
  by (cases s rule: trim_0x.cases) auto

lemma trim_0x_hex_encode: "hex_ok X \<Longrightarrow> trim_0x (hex_encode X bs) = hex_encode X bs"
  by (intro trim_0x_digits ballI) (rule hex_ok_encode_digits)

text \<open>
  The logarithm of a value between two neighbouring powers of two lies between the two exponents
  (it may round to either), and \<open>2 powf n\<close> of an integral \<open>n\<close> is that power, infinite beyond the
  largest exponent.
\<close>

definition libm_ok :: "externs \<Rightarrow> bool" where
  "libm_ok X \<longleftrightarrow>
     (\<forall>r n. 2 powi n \<le> r \<and> r \<le> 2 powi (n + 1) \<longrightarrow>
        Fin (of_int n) \<le> f64_log2 X (Fin r) \<and> f64_log2 X (Fin r) \<le> Fin (of_int (n + 1))) \<and>
     (\<forall>n. - 1074 \<le> n \<longrightarrow>
        f64_powf X (Fin 2) (Fin (of_int n)) = (if n < 1024 then Fin (2 powi n) else PInf))"

lemma libm_ok_log2:
  "libm_ok X \<Longrightarrow> 2 powi n \<le> r \<Longrightarrow> r \<le> 2 powi (n + 1) \<Longrightarrow>
   Fin (of_int n) \<le> f64_log2 X (Fin r) \<and> f64_log2 X (Fin r) \<le> Fin (of_int (n + 1))"
  by (simp add: libm_ok_def)

lemma libm_ok_powf:
  "libm_ok X \<Longrightarrow> - 1074 \<le> n \<Longrightarrow>
   f64_powf X (Fin 2) (Fin (of_int n)) = (if n < 1024 then Fin (2 powi n) else PInf)"
  by (simp add: libm_ok_def)

subsection \<open>A concrete instance\<close>

definition ref_sha256 :: "bytes \<Rightarrow> bytes" where
  "ref_sha256 bs = nat_to_le 32 (foldl (\<lambda>h b. (h * 257 + unat b + 1) mod 2 ^ 256) 7 bs)"

definition ref_hex_encode :: "bytes \<Rightarrow> string" where
  "ref_hex_encode bs = concat (map (\<lambda>b. hex_digits 2 (unat b)) bs)"

fun ref_hex_decode :: "string \<Rightarrow> bytes result" where
  "ref_hex_decode [] = Inr []"
| "ref_hex_decode [c] = Inl ''Odd number of digits''"
| "ref_hex_decode (c # d # s) =
     (case (hex_digit c, hex_digit d) of
        (Some a, Some b) \<Rightarrow> rbind (ref_hex_decode s) (\<lambda>bs. Inr (word_of_nat (16 * a + b) # bs))
      | _ \<Rightarrow> Inl ''Invalid character'')"

fun ref_log2 :: "f64 \<Rightarrow> f64" where
  "ref_log2 (Fin r) = (if 0 < r then Fin (of_int (flog2 r)) else NaN)"
| "ref_log2 a = a"

text \<open>Beyond the exponents of \<open>f64\<close> the power is an infinity or rounds.\<close>

fun ref_powf :: "f64 \<Rightarrow> f64 \<Rightarrow> f64" where
  "ref_powf (Fin a) (Fin b) =
     (if a = 2 \<and> 1024 \<le> b then PInf
      else if a = 2 \<and> - 1074 \<le> b then Fin (2 powi \<lfloor>b\<rfloor>)
      else f64_of_rat (a powi \<lfloor>b\<rfloor>))"
| "ref_powf a b = NaN"

fun ref_powi :: "f64 \<Rightarrow> int \<Rightarrow> f64" where
  "ref_powi (Fin a) n = f64_of_rat (a powi n)"
| "ref_powi a n = NaN"

definition ref_externs :: externs where
  "ref_externs =
     \<lparr>sha256 = ref_sha256, hex_decode = ref_hex_decode, hex_encode = ref_hex_encode,
      big_to_f64 = (\<lambda>n. Some (f64_of_int (int n))), f64_log2 = ref_log2, f64_powf = ref_powf,
      f64_powi = ref_powi, parse_address = (\<lambda>s. s \<noteq> []),
      address_script = (\<lambda>n s. if s = [] then None else Some [81]),
      network_magic = (\<lambda>n. [250, 191, 181, 218]), debug_assertions = False\<rparr>"

lemma ref_externs_simps [simp]:
  "sha256 ref_externs = ref_sha256"
  "hex_decode ref_externs = ref_hex_decode"
  "hex_encode ref_externs = ref_hex_encode"
  "big_to_f64 ref_externs n = Some (f64_of_int (int n))"
  "f64_log2 ref_externs = ref_log2"
  "f64_powf ref_externs = ref_powf"
  "f64_powi ref_externs = ref_powi"
  "\<not> debug_assertions ref_externs"
  by (simp_all add: ref_externs_def)

lemma ref_sha_ok: "sha_ok ref_externs"
  by (simp add: sha_ok_def ref_sha256_def)

lemma ref_hex_roundtrip: "ref_hex_decode (ref_hex_encode bs) = Inr bs"
proof (induction bs)
  case Nil
  then show ?case by (simp add: ref_hex_encode_def)
next
  case (Cons b bs)
  have "unat b < 256" using unat_lt [of b] by simp
  then have "16 * (unat b div 16 mod 16) + unat b mod 16 = unat b" by simp
  then have "word_of_nat (16 * (unat b div 16 mod 16) + unat b mod 16) = b"
    by (simp only:) simp
  with Cons show ?case by (simp add: ref_hex_encode_def numeral_2_eq_2)
qed

lemma ref_hex_encode_length: "length (ref_hex_encode bs) = 2 * length bs"
  by (induction bs) (auto simp: ref_hex_encode_def)

lemma hex_char_lower: "d < 16 \<Longrightarrow> ascii_lower (hex_char d) = hex_char d"
  by (auto simp: ascii_lower_def of_char_hex_char Let_def)

lemma hex_digits_lower: "c \<in> set (hex_digits n x) \<Longrightarrow> ascii_lower c = c"
  by (induction n arbitrary: x) (auto simp: hex_char_lower)

lemma ref_hex_decode_valid:
  "ref_hex_decode s = Inr bs \<Longrightarrow> length s = 2 * length bs \<and> (\<forall>c \<in> set s. is_hexdigit c)"
proof (induction s arbitrary: bs rule: ref_hex_decode.induct)
  case (3 c d s)
  then show ?case
    by (auto simp: rbind_Inr_iff is_hexdigit_def split: option.splits)
qed auto

lemma ref_hex_ok: "hex_ok ref_externs"
  unfolding hex_ok_def ref_externs_simps
  using ref_hex_roundtrip ref_hex_encode_length ref_hex_decode_valid
  by (auto simp: ref_hex_encode_def is_hexdigit_hex_digits hex_digits_lower)

lemma ref_libm_ok: "libm_ok ref_externs"
  unfolding libm_ok_def ref_externs_simps
proof (intro conjI allI impI)
  fix r :: rat and n :: int
  assume r: "2 powi n \<le> r \<and> r \<le> 2 powi (n + 1)"
  have "0 < (2::rat) powi n" by simp
  with r have pos: "0 < r" by linarith
  have "n \<le> flog2 r"
  proof (rule ccontr)
    assume "\<not> ?thesis"
    then have "(2::rat) powi (flog2 r + 1) \<le> 2 powi n" by (intro power_int_increasing) auto
    with r flog2_bounds(2) [OF pos] show False by simp
  qed
  moreover have "flog2 r \<le> n + 1"
  proof (rule ccontr)
    assume "\<not> ?thesis"
    then have "(2::rat) powi (n + 1) < 2 powi flog2 r" by (intro power_int_strict_increasing) auto
    with r flog2_bounds(1) [OF pos] show False by simp
  qed
  ultimately show "Fin (of_int n) \<le> ref_log2 (Fin r)" "ref_log2 (Fin r) \<le> Fin (of_int (n + 1))"
    using pos by (simp_all flip: of_int_add [of _ 1, simplified])
next
  fix n :: int
  assume "- 1074 \<le> n"
  then have "(- 1074 :: rat) \<le> of_int n" by linarith
  moreover have "(1024 :: rat) \<le> of_int n \<longleftrightarrow> 1024 \<le> n" by linarith
  ultimately show "ref_powf (Fin 2) (Fin (of_int n)) = (if n < 1024 then Fin (2 powi n) else PInf)"
    by auto
qed

end
