(* ===== verification/Hashing.thy ===== *)
theory Hashing
  imports Externs
begin

text \<open>
  \<open>src/hash.rs\<close>, and the merkle computations of \<open>src/template.rs\<close>: the root of a list of leaves
  (\<open>merkle_root\<close>, the loop of \<open>compute_witness_commitment_script_hex\<close>), the same loop as
  \<open>compute_txid_partial_root\<close> writes it, and the branches that a miner needs
  (\<open>build_merkle_branches\<close>). Arrays \<open>[u8; 32]\<close> are byte lists of length 32.
\<close>

definition double_sha256 :: "externs \<Rightarrow> bytes \<Rightarrow> bytes" where
  "double_sha256 X data = sha256 X (sha256 X data)"

definition merkle_step :: "externs \<Rightarrow> bytes \<Rightarrow> bytes \<Rightarrow> bytes" where
  "merkle_step X left right = double_sha256 X (left @ right)"

lemma length_double_sha256 [simp]: "sha_ok X \<Longrightarrow> length (double_sha256 X d) = 32"
  by (simp add: double_sha256_def sha_ok_length)

lemma length_merkle_step [simp]: "sha_ok X \<Longrightarrow> length (merkle_step X a b) = 32"
  by (simp add: merkle_step_def)

subsection \<open>Levels\<close>

text \<open>The inner loop: pairs from the left, a last unpaired hash is paired with itself.\<close>

fun next_level :: "externs \<Rightarrow> bytes list \<Rightarrow> bytes list" where
  "next_level X [] = []"
| "next_level X [left] = [merkle_step X left left]"
| "next_level X (left # right # level) = merkle_step X left right # next_level X level"

lemma length_next_level: "length (next_level X level) = (length level + 1) div 2"
  by (induction X level rule: next_level.induct) auto

function merkle_root :: "externs \<Rightarrow> bytes list \<Rightarrow> bytes list" where
  "merkle_root X level = (if 1 < length level then merkle_root X (next_level X level) else level)"
  by pat_completeness auto
termination
  by (relation "measure (\<lambda>(X, level). length level)") (auto simp: length_next_level)

declare merkle_root.simps [simp del]

lemma length_merkle_root: "level \<noteq> [] \<Longrightarrow> length (merkle_root X level) = 1"
proof (induction X level rule: merkle_root.induct)
  case (1 X level)
  show ?case
  proof (cases "1 < length level")
    case True
    then have "next_level X level \<noteq> []"
      using length_next_level [of X level] by (metis add_is_0 div_eq_0_iff length_0_conv
        length_greater_0_conv less_2_cases_iff less_add_one less_numeral_extra(1) not_less_iff_gr_or_eq one_add_one)
    with 1 True show ?thesis by (simp add: merkle_root.simps [of X level])
  next
    case False
    with 1(2) have "length level = 1" by (cases level) auto
    with False show ?thesis by (simp add: merkle_root.simps [of X level])
  qed
qed

subsection \<open>\<open>build_merkle_branches\<close>\<close>

function branches_of :: "externs \<Rightarrow> bytes list \<Rightarrow> bytes list \<Rightarrow> bytes list" where
  "branches_of X level branches =
     (if 1 < length level
      then branches_of X (next_level X level) (branches @ [level ! 1])
      else branches)"
  by pat_completeness auto
termination
  by (relation "measure (\<lambda>(X, level, bs). length level)") (auto simp: length_next_level)

declare branches_of.simps [simp del]

definition build_merkle_branches :: "externs \<Rightarrow> bytes \<Rightarrow> bytes list \<Rightarrow> bytes list" where
  "build_merkle_branches X coinbase_hash tx_hashes = branches_of X (coinbase_hash # tx_hashes) []"

text \<open>The loop of \<open>validate_share\<close> that climbs from the coinbase hash to the root.\<close>

definition apply_branches :: "externs \<Rightarrow> bytes \<Rightarrow> bytes list \<Rightarrow> bytes" where
  "apply_branches X coinbase_hash branches = foldl (merkle_step X) coinbase_hash branches"

lemma branches_of_acc: "branches_of X level bs = bs @ branches_of X level []"
proof (induction "length level" arbitrary: level bs rule: less_induct)
  case less
  show ?case
  proof (cases "1 < length level")
    case True
    then have "length (next_level X level) < length level" by (simp add: length_next_level)
    note IH = less [OF this]
    have "branches_of X level cs = cs @ [level ! 1] @ branches_of X (next_level X level) []" for cs
      using True IH [of "cs @ [level ! 1]"] by (simp add: branches_of.simps [of X level cs])
    from this [of bs] this [of "[]"] show ?thesis by simp
  next
    case False
    then show ?thesis by (simp add: branches_of.simps [of X level])
  qed
qed

lemma branches_of_Cons:
  "branches_of X (c # d # level) [] = d # branches_of X (merkle_step X c d # next_level X level) []"
  by (subst branches_of.simps) (simp add: branches_of_acc [of X _ "[d]"])

lemma branches_of_single [simp]: "branches_of X [c] bs = bs"
  by (simp add: branches_of.simps)

lemma merkle_root_single [simp]: "merkle_root X [c] = [c]"
  by (simp add: merkle_root.simps)

lemma merkle_root_Cons:
  "merkle_root X (c # d # level) = merkle_root X (merkle_step X c d # next_level X level)"
  by (subst merkle_root.simps) simp

text \<open>The branches do not depend on the hash they are built around.\<close>

lemma branches_of_any_head: "branches_of X (c # level) [] = branches_of X (c' # level) []"
proof (induction "length level" arbitrary: c c' level rule: less_induct)
  case less
  show ?case
  proof (cases level)
    case Nil
    then show ?thesis by simp
  next
    case (Cons d ds)
    have "length (next_level X ds) < length level"
      by (simp add: Cons length_next_level)
    from less [OF this] show ?thesis by (simp add: Cons branches_of_Cons)
  qed
qed

lemma apply_branches_root: "[apply_branches X c (branches_of X (c # level) [])] = merkle_root X (c # level)"
proof (induction "length level" arbitrary: c level rule: less_induct)
  case less
  show ?case
  proof (cases level)
    case Nil
    then show ?thesis by (simp add: apply_branches_def)
  next
    case (Cons d ds)
    have "length (next_level X ds) < length level"
      by (simp add: Cons length_next_level)
    from less [OF this] show ?thesis
      by (simp add: Cons branches_of_Cons merkle_root_Cons apply_branches_def)
  qed
qed

text \<open>
  Climbing from any coinbase hash along the branches built for another coinbase gives the merkle
  root of the block with that coinbase.
\<close>

lemma branches_give_root:
  "[apply_branches X c (build_merkle_branches X c' txs)] = merkle_root X (c # txs)"
  using apply_branches_root [of X c txs]
  by (simp add: build_merkle_branches_def branches_of_any_head [of X c' txs c])

lemma length_branches_of: "length level \<le> 2 ^ n \<Longrightarrow> length (branches_of X level []) \<le> n"
proof (induction n arbitrary: level)
  case 0
  then show ?case by (cases level) (auto simp: branches_of.simps)
next
  case (Suc n)
  consider "level = []" | c where "level = [c]" | c d ds where "level = c # d # ds"
    by (metis neq_Nil_conv)
  then show ?case
  proof cases
    case 3
    then have "length (merkle_step X c d # next_level X ds) \<le> 2 ^ n"
      using Suc.prems by (simp add: length_next_level)
    from Suc.IH [OF this] 3 show ?thesis by (simp add: branches_of_Cons)
  qed (simp_all add: branches_of.simps)
qed

subsection \<open>\<open>compute_txid_partial_root\<close>\<close>

text \<open>\<open>hashes.chunks(2).map(|pair| merkle_step(&pair[0], &pair[1]))\<close> on an even number of hashes.\<close>

fun pair_chunks :: "externs \<Rightarrow> bytes list \<Rightarrow> bytes list" where
  "pair_chunks X (a # b # hashes) = merkle_step X a b # pair_chunks X hashes"
| "pair_chunks X hashes = []"

definition pad_even :: "bytes list \<Rightarrow> bytes list" where
  "pad_even hashes = (if length hashes mod 2 = 1 then hashes @ [last hashes] else hashes)"

lemma pair_chunks_pad_even: "pair_chunks X (pad_even hashes) = next_level X hashes"
proof (induction X hashes rule: next_level.induct)
  case (3 X a b level)
  show ?case
  proof (cases "level = []")
    case True
    then show ?thesis by (simp add: pad_even_def)
  next
    case False
    with 3 show ?thesis by (auto simp: pad_even_def split: if_splits)
  qed
qed (simp_all add: pad_even_def)

function partial_root :: "externs \<Rightarrow> bytes list \<Rightarrow> bytes list" where
  "partial_root X hashes =
     (if 1 < length hashes then partial_root X (pair_chunks X (pad_even hashes)) else hashes)"
  by pat_completeness auto
termination
  by (relation "measure (\<lambda>(X, hashes). length hashes)")
    (auto simp: pair_chunks_pad_even length_next_level)

declare partial_root.simps [simp del]

text \<open>Padding to an even number and pairing is the level of the merkle tree.\<close>

lemma partial_root_eq_merkle_root: "partial_root X hashes = merkle_root X hashes"
proof (induction X hashes rule: partial_root.induct)
  case (1 X hashes)
  then show ?case
    by (simp add: partial_root.simps [of X hashes] merkle_root.simps [of X hashes]
      pair_chunks_pad_even)
qed

subsection \<open>Properties\<close>

text \<open>C26 (\<open>build_merkle_branches\<close>): the branches that a miner gets for one coinbase give, with the
  hash of any other coinbase, the merkle root of the block that has that coinbase.\<close>

theorem merkle_branches_root:
  "[apply_branches X c (build_merkle_branches X c' txs)] = merkle_root X (c # txs)"
  by (rule branches_give_root)

text \<open>\<open>compute_txid_partial_root\<close>, \<open>build_merkle_branches\<close>: the two ways in which the code
  computes a merkle level (padding to an even number and chunks of two; stepping by two with the
  last hash taken twice) give the same root, and a block of up to \<open>2 ^ n\<close> transactions has at
  most \<open>n\<close> branches.\<close>

theorem merkle_loops_agree:
  "partial_root X hashes = merkle_root X hashes \<and>
   (length (c # txs) \<le> 2 ^ n \<longrightarrow> length (build_merkle_branches X c txs) \<le> n)"
  using length_branches_of [of "c # txs" n X]
  by (simp add: partial_root_eq_merkle_root build_merkle_branches_def)

theorem merkle_loops_agree_witness:
  "length (build_merkle_branches ref_externs [1] [[2], [3]]) \<le> 2"
  using merkle_loops_agree [of ref_externs "[]" "[1]" "[[2], [3]]" 2] by simp

end
