(* ===== verification/Target.thy ===== *)
theory Target
  imports Externs
begin

text \<open>
  The 256-bit thresholds: the comparison and the difficulty conversions of \<open>src/share.rs\<close>
  (\<open>leq_le256\<close>, \<open>share_target_le\<close>, \<open>hash_to_display_diff\<close>) and the compact targets of
  \<open>src/template.rs\<close>. Arrays \<open>[u8; 32]\<close> are byte lists of length 32, a \<open>BigUint\<close> is a \<open>nat\<close>.
\<close>

subsection \<open>Minimal byte strings of numbers\<close>

text \<open>\<open>while v > 0 { out.push(v & 0xff); v >>= 8 }\<close>; reversed, \<open>BigUint::to_bytes_be\<close>.\<close>

fun le_digits :: "nat \<Rightarrow> bytes" where
  "le_digits n = (if n = 0 then [] else word_of_nat (n mod 256) # le_digits (n div 256))"

declare le_digits.simps [simp del]

definition to_bytes_be :: "nat \<Rightarrow> bytes" where
  "to_bytes_be n = (if n = 0 then [0] else rev (le_digits n))"

lemma le_digits_0 [simp]: "le_digits 0 = []"
  by (simp add: le_digits.simps)

lemma le_digits_pos: "0 < n \<Longrightarrow> le_digits n = word_of_nat (n mod 256) # le_digits (n div 256)"
  by (simp add: le_digits.simps [of n])

lemma le_to_nat_digits [simp]: "le_to_nat (le_digits n) = n"
proof (induction n rule: le_digits.induct)
  case (1 n)
  show ?case
  proof (cases "n = 0")
    case False
    with 1 show ?thesis by (simp add: le_digits_pos)
  qed simp
qed

lemma length_le_digits: "length (le_digits n) \<le> k \<longleftrightarrow> n < 256 ^ k"
proof (induction k arbitrary: n)
  case 0
  then show ?case by (cases "n = 0") (simp_all add: le_digits_pos)
next
  case (Suc k)
  then show ?case by (cases "n = 0") (simp_all add: le_digits_pos less_mult_imp_div_less div_less_iff_less_mult mult.commute)
qed

lemma le_digits_last: "0 < n \<Longrightarrow> le_digits n \<noteq> [] \<and> last (le_digits n) \<noteq> 0"
proof (induction n rule: le_digits.induct)
  case (1 n)
  show ?case
  proof (cases "n < 256")
    case True
    with 1(2) have "word_of_nat (n mod 256) \<noteq> (0 :: u8)"
      by (metis mod_less unat_byte_of_nat unsigned_0 neq0_conv)
    moreover have "le_digits n = [word_of_nat (n mod 256)]"
      using True 1(2) by (simp add: le_digits_pos)
    ultimately show ?thesis by simp
  next
    case False
    then have "0 < n div 256" by (simp add: div_greater_zero_iff)
    with 1 show ?thesis by (simp add: le_digits_pos)
  qed
qed

subsection \<open>Comparison\<close>

text \<open>\<open>for idx in (0..32).rev()\<close>: the most significant byte that differs decides.\<close>

fun leq_below :: "nat \<Rightarrow> bytes \<Rightarrow> bytes \<Rightarrow> bool" where
  "leq_below 0 a b = True"
| "leq_below (Suc idx) a b =
     (if a ! idx < b ! idx then True else if b ! idx < a ! idx then False else leq_below idx a b)"

definition leq_le256 :: "bytes \<Rightarrow> bytes \<Rightarrow> bool" where
  "leq_le256 a b = leq_below 32 a b"

lemma le_to_nat_take_Suc:
  "n < length a \<Longrightarrow> le_to_nat (take (Suc n) a) = le_to_nat (take n a) + 256 ^ n * unat (a ! n)"
  by (simp add: take_Suc_conv_app_nth le_to_nat_append)

lemma leq_below_iff:
  "n \<le> length a \<Longrightarrow> n \<le> length b \<Longrightarrow>
   leq_below n a b \<longleftrightarrow> le_to_nat (take n a) \<le> le_to_nat (take n b)"
proof (induction n)
  case 0
  then show ?case by simp
next
  case (Suc n)
  let ?x = "le_to_nat (take n a)" and ?y = "le_to_nat (take n b)"
  let ?p = "unat (a ! n)" and ?q = "unat (b ! n)"
  have lt: "?x < 256 ^ n" "?y < 256 ^ n"
    using le_to_nat_less [of "take n a"] le_to_nat_less [of "take n b"] Suc.prems by simp_all
  have less: "u + 256 ^ n * i < v + 256 ^ n * j" if "i < j" "u < 256 ^ n" for u v i j :: nat
  proof -
    have "u + 256 ^ n * i < 256 ^ n * Suc i" using that(2) by simp
    also have "\<dots> \<le> 256 ^ n * j" using that(1) by (intro mult_le_mono2) simp
    finally show ?thesis by simp
  qed
  consider "?p < ?q" | "?q < ?p" | "?p = ?q" by linarith
  then show ?case
  proof cases
    case 1
    with less [OF 1 lt(1), of ?y] Suc.prems show ?thesis
      by (simp add: le_to_nat_take_Suc word_less_nat_alt)
  next
    case 2
    with less [OF 2 lt(2), of ?x] Suc.prems show ?thesis
      by (simp add: le_to_nat_take_Suc word_less_nat_alt)
  next
    case 3
    with Suc show ?thesis by (simp add: le_to_nat_take_Suc word_less_nat_alt)
  qed
qed

lemma leq_le256_le_to_nat:
  "length a = 32 \<Longrightarrow> length b = 32 \<Longrightarrow> leq_le256 a b \<longleftrightarrow> le_to_nat a \<le> le_to_nat b"
  by (simp add: leq_le256_def leq_below_iff)

lemma leq_le256_trans:
  "length a = 32 \<Longrightarrow> length b = 32 \<Longrightarrow> length c = 32 \<Longrightarrow>
   leq_le256 a b \<Longrightarrow> leq_le256 b c \<Longrightarrow> leq_le256 a c"
  by (simp add: leq_le256_le_to_nat)

subsection \<open>Difficulty to target\<close>

text \<open>The constant \<open>DIFF1_TARGET_HEX\<close> as a number, and \<open>SCALE\<close>.\<close>

definition DIFF1_TARGET :: nat where "DIFF1_TARGET = 0xffff * 2 ^ 208"
definition SCALE :: nat where "SCALE = 1000000000000"

definition diff_scaled :: "f64 \<Rightarrow> nat" where
  "diff_scaled diff = max (f64_to_u128 (fround (diff * f64_of_int (int SCALE)))) 1"

definition share_target_le :: "f64 \<Rightarrow> bytes result" where
  "share_target_le diff =
     (if \<not> is_finite diff \<or> diff \<le> 0 then Inl ''diff must be finite and > 0''
      else
        let target = DIFF1_TARGET * SCALE div diff_scaled diff;
            be = to_bytes_be target
        in if 32 < length be then Inr (replicate 32 0xff)
           else Inr (rev (replicate (32 - length be) 0 @ be)))"

lemma le_to_nat_rev_be:
  "le_to_nat (rev (replicate k 0 @ to_bytes_be n)) = n"
  by (simp add: to_bytes_be_def le_to_nat_append le_to_nat_zeros)

lemma length_to_bytes_be: "32 < length (to_bytes_be n) \<longleftrightarrow> 2 ^ 256 \<le> n"
proof -
  have "length (le_digits n) \<le> 32 \<longleftrightarrow> n < 2 ^ 256"
    using length_le_digits [of n 32] by simp
  then show ?thesis by (auto simp: to_bytes_be_def)
qed

lemma le_to_nat_all_ff: "le_to_nat (replicate n 0xff) = 256 ^ n - 1"
proof (induction n)
  case (Suc n)
  have "0 < (256 :: nat) ^ n" by simp
  with Suc show ?case by (simp add: diff_mult_distrib2)
qed simp

lemma share_target_le_Inr:
  assumes "share_target_le diff = Inr t"
  shows "length t = 32"
    and "le_to_nat t = min (DIFF1_TARGET * SCALE div diff_scaled diff) (2 ^ 256 - 1)"
proof -
  let ?n = "DIFF1_TARGET * SCALE div diff_scaled diff"
  have t: "t = (if 2 ^ 256 \<le> ?n then replicate 32 0xff
      else rev (replicate (32 - length (to_bytes_be ?n)) 0 @ to_bytes_be ?n))"
    using assms by (auto simp: share_target_le_def Let_def length_to_bytes_be split: if_splits)
  then show "length t = 32" using length_to_bytes_be [of ?n] by auto
  show "le_to_nat t = min ?n (2 ^ 256 - 1)"
  proof (cases "2 ^ 256 \<le> ?n")
    case True
    with t have "t = replicate 32 0xff" by simp
    with True show ?thesis using le_to_nat_all_ff [of 32] by simp
  next
    case False
    with t have "t = rev (replicate (32 - length (to_bytes_be ?n)) 0 @ to_bytes_be ?n)" by simp
    then have "le_to_nat t = ?n" by (simp only: le_to_nat_rev_be)
    with False show ?thesis by simp
  qed
qed

lemma share_target_le_ok_iff: "(\<exists>t. share_target_le d = Inr t) \<longleftrightarrow> is_finite d \<and> 0 < d"
  by (cases d) (auto simp: share_target_le_def Let_def zero_f64_def)

text \<open>Whole difficulties are scaled exactly.\<close>

lemma diff_scaled_whole: "0 < n \<Longrightarrow> n \<le> 9007 \<Longrightarrow> diff_scaled (Fin (of_nat n)) = n * SCALE"
proof -
  assume n: "0 < n" "n \<le> 9007"
  have "Fin (of_nat n) * f64_of_int (int SCALE) = f64_of_int (int (n * SCALE))"
    by (simp add: SCALE_def f64_of_int_small [of 1000000000000, simplified]) (simp add: f64_of_int_def)
  also have "\<dots> = Fin (of_int (int (n * SCALE)))"
    by (rule f64_of_int_small) (use n in \<open>simp add: SCALE_def\<close>)
  finally have e: "Fin (of_nat n) * f64_of_int (int SCALE) = Fin (of_int (int (n * SCALE)))" .
  have "fround (Fin (of_int (int m))) = Fin (of_int (int m))" for m
    by (cases "m = 0") (simp_all add: sgn_if floor_eq_iff)
  then have "fround (Fin (of_nat n) * f64_of_int (int SCALE)) = Fin (of_int (int (n * SCALE)))"
    unfolding e by blast
  moreover have "f64_to_u128 (Fin (of_int (int (n * SCALE)))) = nat (int (n * SCALE))"
    by (rule f64_to_u128_of_int_small) (use n in \<open>simp_all add: SCALE_def\<close>)
  ultimately have "diff_scaled (Fin (of_nat n)) = max (n * SCALE) 1"
    by (simp only: diff_scaled_def nat_int)
  then show ?thesis using n by (simp add: SCALE_def)
qed

lemma share_target_le_whole:
  assumes "share_target_le (Fin (of_nat n)) = Inr t" and "n \<le> 9007"
  shows "le_to_nat t = DIFF1_TARGET div n"
proof -
  have n: "0 < n" using assms(1) by (cases n) (auto simp: share_target_le_def zero_f64_def)
  have "DIFF1_TARGET * SCALE div (n * SCALE) = DIFF1_TARGET div n" by (simp add: SCALE_def)
  moreover have "DIFF1_TARGET div n \<le> DIFF1_TARGET" by simp
  moreover have "DIFF1_TARGET \<le> 2 ^ 256 - 1" by (simp add: DIFF1_TARGET_def)
  ultimately show ?thesis
    using share_target_le_Inr(2) [OF assms(1)] diff_scaled_whole [OF n assms(2)]
    by (metis min.absorb1 order_trans)
qed

lemma diff_scaled_pos: "0 < diff_scaled d"
  by (simp add: diff_scaled_def)

lemma diff_scaled_mono: "d \<le> d' \<Longrightarrow> diff_scaled d \<le> diff_scaled d'"
proof -
  assume le: "d \<le> d'"
  have "d * f64_of_int (int SCALE) \<le> d' * f64_of_int (int SCALE)"
    using le by (simp add: SCALE_def f64_of_int_small f64_mult_right_mono)
  then have "f64_to_u128 (fround (d * f64_of_int (int SCALE)))
      \<le> f64_to_u128 (fround (d' * f64_of_int (int SCALE)))"
    by (intro f64_to_u128_mono fround_mono)
  then show ?thesis by (auto simp: diff_scaled_def)
qed

lemma share_target_le_antimono:
  assumes "share_target_le d = Inr t" and "share_target_le d' = Inr t'" and "d \<le> d'"
  shows "leq_le256 t' t"
proof -
  have "DIFF1_TARGET * SCALE div diff_scaled d' \<le> DIFF1_TARGET * SCALE div diff_scaled d"
    by (rule div_le_mono2) (use diff_scaled_pos diff_scaled_mono [OF assms(3)] in auto)
  then show ?thesis
    using share_target_le_Inr [OF assms(1)] share_target_le_Inr [OF assms(2)]
    by (simp add: leq_le256_le_to_nat min_le_iff_disj)
qed

subsection \<open>Hash to difficulty\<close>

definition hash_to_display_diff :: "externs \<Rightarrow> bytes \<Rightarrow> f64" where
  "hash_to_display_diff X hash_le =
     (let hash_val = le_to_nat hash_le in
      if hash_val = 0 then PInf
      else
        let quotient = DIFF1_TARGET div hash_val;
            remainder = DIFF1_TARGET mod hash_val;
            q_f64 = unwrap_or f64_MAX (big_to_f64 X quotient);
            frac = (case (big_to_f64 X remainder, big_to_f64 X hash_val) of
                (Some r, Some h) \<Rightarrow> if 0 < h then r / h else 0
              | _ \<Rightarrow> 0)
        in q_f64 + frac)"

subsection \<open>Compact targets\<close>

text \<open>The stores of the loop \<open>for idx in 0..exponent\<close>.\<close>

definition small_exponent_bytes :: "u32 \<Rightarrow> nat \<Rightarrow> bytes \<Rightarrow> bytes" where
  "small_exponent_bytes reduced exponent target_be =
     fold (\<lambda>idx be. be[32 - exponent + idx :=
         ucast (drop_bit (8 * (exponent - 1 - idx)) reduced AND 0xff)])
       [0..<exponent] target_be"

definition compact_target_to_le :: "u32 \<Rightarrow> bytes option" where
  "compact_target_to_le nbits =
     (let exponent = unat (drop_bit 24 nbits);
          mantissa = nbits AND 0x007fffff in
      if nbits AND 0x00800000 \<noteq> 0 \<or> mantissa = 0 \<or> exponent = 0 \<or> exponent > 32 then None
      else
        let target_be = replicate 32 0 in
        if exponent \<le> 3 then
          (let reduced = drop_bit (8 * (3 - exponent)) mantissa in
           Some (rev (small_exponent_bytes reduced exponent target_be)))
        else
          (let start = 32 - exponent in
           Some (rev (target_be
             [start := ucast (drop_bit 16 mantissa AND 0xff),
              start + 1 := ucast (drop_bit 8 mantissa AND 0xff),
              start + 2 := ucast (mantissa AND 0xff)]))))"

lemma unat_and_mask:
  "n \<le> 32 \<Longrightarrow> unat ((w :: u32) AND mask n) = unat w mod 2 ^ n"
  by (simp add: unsigned_take_bit_eq flip: take_bit_eq_mask) (simp add: take_bit_eq_mod)

lemma unat_and_masks:
  "unat ((w :: u32) AND 0xff) = unat w mod 2 ^ 8"
  "unat (w AND 0x7fffff) = unat w mod 2 ^ 23"
  using unat_and_mask [of 8 w] unat_and_mask [of 23 w] by (simp_all add: mask_eq_exp_minus_1)

lemma unat_drop_bit: "unat (drop_bit n (w :: u32)) = unat w div 2 ^ n"
  using unat_lt [of w]
  by (simp add: unsigned_drop_bit_eq take_bit_nat_eq_self) (simp add: drop_bit_eq_div)

lemma unat_byte_and: "unat (ucast ((w :: u32) AND 0xff) :: u8) = unat w mod 256"
  by (simp add: unat_and_masks unsigned_ucast_eq take_bit_nat_eq_self_iff)

text \<open>The value of a compact target: mantissa times a power of 256, or divided by one.\<close>

definition compact_value :: "u32 \<Rightarrow> nat" where
  "compact_value nbits =
     (let exponent = unat nbits div 2 ^ 24; mantissa = unat nbits mod 2 ^ 23 in
      if exponent \<le> 3 then mantissa div 256 ^ (3 - exponent) else mantissa * 256 ^ (exponent - 3))"


lemma le_to_nat_update:
  "i < length bs \<Longrightarrow> bs ! i = 0 \<Longrightarrow> le_to_nat (bs[i := v]) = le_to_nat bs + 256 ^ i * unat v"
proof (induction bs arbitrary: i)
  case (Cons b bs)
  then show ?case by (cases i) (auto simp: algebra_simps)
qed simp

lemma bytes_of_mantissa:
  "m < 2 ^ 23 \<Longrightarrow> m mod 256 + 256 * (m div 256 mod 256) + 65536 * (m div 65536 mod 256) = (m :: nat)"
proof -
  assume "m < 2 ^ 23"
  then have "m div 65536 < 256" by (simp add: div_less_iff_less_mult)
  moreover have "m div 65536 = m div 256 div 256" by (simp add: div_mult2_eq [of m 256 256, symmetric])
  moreover have "m div 65536 mod 256 = m div 256 div 256" using calculation by simp
  ultimately show ?thesis
    using div_mult_mod_eq [of m 256] div_mult_mod_eq [of "m div 256" 256] by linarith
qed

lemma compact_target_to_le_Some:
  assumes "compact_target_to_le nbits = Some t"
  shows "length t = 32 \<and> le_to_nat t = compact_value nbits"
proof -
  define e where "e = unat nbits div 2 ^ 24"
  define w where "w = nbits AND 0x7fffff"
  define m where "m = unat nbits mod 2 ^ 23"
  have m: "unat w = m" "m < 2 ^ 23" by (simp_all add: w_def m_def unat_and_masks)
  have e: "unat (drop_bit 24 nbits) = e" by (simp only: e_def unat_drop_bit)
  have ran: "0 < e" "e \<le> 32"
    using assms by (auto simp: compact_target_to_le_def Let_def e split: if_splits)
  have val: "compact_value nbits = (if e \<le> 3 then m div 256 ^ (3 - e) else m * 256 ^ (e - 3))"
    by (simp add: compact_value_def e_def m_def Let_def)
  show ?thesis
  proof (cases "e \<le> 3")
    case True
    have "m mod 256 + 256 * (m div 256 mod 256) + 65536 * (m div 65536 mod 256) = m"
      by (rule bytes_of_mantissa [OF m(2)])
    have t: "t = rev (small_exponent_bytes (drop_bit (8 * (3 - e)) w) e (replicate 32 0))"
      using assms True by (simp add: compact_target_to_le_def Let_def e w_def split: if_splits)
    consider "e = 1" | "e = 2" | "e = 3" using ran True by linarith
    then show ?thesis
    proof cases
      case 1
      have "m div 65536 < 256" using m(2) by (simp add: div_less_iff_less_mult)
      with 1 show ?thesis
        by (simp add: t val small_exponent_bytes_def unat_byte_and unat_drop_bit m rev_update
          le_to_nat_update le_to_nat_zeros)
    next
      case 2
      have "[0..<2] = [0, 1 :: nat]" by (simp add: upt_rec)
      moreover have "m div 65536 < 256" using m(2) by (simp add: div_less_iff_less_mult)
      moreover have "m div 65536 = m div 256 div 256" by (simp add: div_mult2_eq [of m 256 256, symmetric])
      ultimately show ?thesis
        using 2 bytes_of_mantissa [OF m(2)]
        by (simp add: t val small_exponent_bytes_def unat_byte_and unat_drop_bit m rev_update
          le_to_nat_update le_to_nat_zeros)
    next
      case 3
      have "[0..<3] = [0, 1, 2 :: nat]" by (simp add: upt_rec)
      moreover have "m div 65536 < 256" using m(2) by (simp add: div_less_iff_less_mult)
      moreover have "m div 65536 = m div 256 div 256" by (simp add: div_mult2_eq [of m 256 256, symmetric])
      ultimately show ?thesis
        using 3 bytes_of_mantissa [OF m(2)]
        by (simp add: t val small_exponent_bytes_def unat_byte_and unat_drop_bit m rev_update
          le_to_nat_update le_to_nat_zeros)
    qed
  next
    case False
    let ?b = "(replicate 32 0)[32 - e := ucast (drop_bit 16 w AND 0xff),
              32 - e + 1 := ucast (drop_bit 8 w AND 0xff), 32 - e + 2 := ucast (w AND 0xff)] :: bytes"
    have t: "t = rev ?b"
      using assms False by (simp add: compact_target_to_le_def Let_def e w_def split: if_splits)
    obtain k where k: "e = k + 3" using False by (metis add.commute le_Suc_ex nat_le_linear)
    have "t = (replicate 32 0)[k + 2 := ucast (drop_bit 16 w AND 0xff),
        k + 1 := ucast (drop_bit 8 w AND 0xff), k := ucast (w AND 0xff)]"
      using ran by (simp add: t rev_update k)
    then have "le_to_nat t = 256 ^ k * (m mod 256)
        + (256 ^ (k + 1) * (m div 256 mod 256) + 256 ^ (k + 2) * (m div 65536 mod 256))"
      using ran
      by (simp add: le_to_nat_update le_to_nat_zeros unat_byte_and unat_drop_bit m k)
    also have "\<dots> = 256 ^ k *
        (m mod 256 + 256 * (m div 256 mod 256) + 65536 * (m div 65536 mod 256))"
      by (simp add: algebra_simps)
    also have "\<dots> = 256 ^ k * m" by (simp only: bytes_of_mantissa [OF m(2)])
    finally have "le_to_nat t = 256 ^ k * m" .
    moreover have "length t = 32" by (simp add: t)
    ultimately show ?thesis using False by (simp add: val k mult.commute)
  qed
qed

subsection \<open>Properties\<close>

text \<open>\<open>leq_le256\<close>: the byte-wise comparison from the most significant byte is the comparison
  of the 256-bit numbers.\<close>

theorem leq_le256_numeric:
  "length a = 32 \<Longrightarrow> length b = 32 \<Longrightarrow> leq_le256 a b \<longleftrightarrow> le_to_nat a \<le> le_to_nat b"
  by (rule leq_le256_le_to_nat)

theorem leq_le256_numeric_witness:
  "leq_le256 (replicate 32 1) (replicate 32 2) \<longleftrightarrow>
     le_to_nat (replicate 32 1) \<le> le_to_nat (replicate 32 2)"
  by (rule leq_le256_numeric) simp_all

text \<open>C25 (\<open>share_target_le\<close>): a difficulty has a target exactly when it is finite and positive; the
  target has 32 bytes and is the difficulty-1 target divided by the scaled difficulty, cut at the
  largest 256-bit number, and for a whole difficulty up to 9007 it is the difficulty-1 target divided
  by the difficulty; a larger difficulty never has an easier target.\<close>

theorem share_target_sound:
  "((\<exists>t. share_target_le d = Inr t) \<longleftrightarrow> is_finite d \<and> 0 < d) \<and>
   (\<forall>t. share_target_le d = Inr t \<longrightarrow> length t = 32 \<and>
     le_to_nat t = min (DIFF1_TARGET * SCALE div diff_scaled d) (2 ^ 256 - 1)) \<and>
   (\<forall>t n. share_target_le d = Inr t \<and> d = Fin (of_nat n) \<and> n \<le> 9007 \<longrightarrow>
     le_to_nat t = DIFF1_TARGET div n) \<and>
   (\<forall>t d' t'. share_target_le d = Inr t \<and> share_target_le d' = Inr t' \<and> d \<le> d' \<longrightarrow> leq_le256 t' t)"
proof (intro conjI allI impI)
  fix t n
  assume "share_target_le d = Inr t \<and> d = Fin (of_nat n) \<and> n \<le> 9007"
  then show "le_to_nat t = DIFF1_TARGET div n" using share_target_le_whole by blast
next
  fix t d' t'
  assume "share_target_le d = Inr t \<and> share_target_le d' = Inr t' \<and> d \<le> d'"
  then show "leq_le256 t' t" using share_target_le_antimono by blast
qed (simp_all only: share_target_le_ok_iff share_target_le_Inr)

theorem share_target_sound_witness:
  "\<exists>t t'. share_target_le (Fin 1) = Inr t \<and> share_target_le (Fin 2) = Inr t' \<and>
     le_to_nat t = DIFF1_TARGET \<and> leq_le256 t' t"
proof -
  obtain t where t: "share_target_le (Fin 1) = Inr t"
    using share_target_sound [of "Fin 1"] by (auto simp: zero_f64_def)
  obtain t' where t': "share_target_le (Fin 2) = Inr t'"
    using share_target_sound [of "Fin 2"] by (auto simp: zero_f64_def)
  have "le_to_nat t = DIFF1_TARGET div 1" "leq_le256 t' t"
    using share_target_sound [of "Fin 1"] t t' by (force simp del: div_by_1)+
  with t t' show ?thesis by simp
qed

text \<open>C34 (\<open>compact_target_to_le\<close>): the bytes of a compact target are 32 and hold the mantissa times
  (or divided by) the power of 256 that the exponent states.\<close>

theorem compact_target_value:
  "compact_target_to_le nbits = Some t \<Longrightarrow> length t = 32 \<and> le_to_nat t = compact_value nbits"
  by (rule compact_target_to_le_Some)

theorem compact_target_value_witness:
  "\<exists>t. compact_target_to_le 0x1d00ffff = Some t \<and> le_to_nat t = 0xffff * 256 ^ 26"
proof -
  obtain t where t: "compact_target_to_le 0x1d00ffff = Some t"
    by (simp add: compact_target_to_le_def Let_def drop_bit_eq_div)
  with compact_target_value [OF t] show ?thesis by (simp add: compact_value_def Let_def)
qed

end
