(* ===== verification/Script.thy ===== *)
theory Script
  imports Interfaces Target
begin

text \<open>
  The script encodings of \<open>src/template.rs\<close> that build the coinbase input: \<open>encode_script_num\<close>,
  \<open>encode_coinbase_height\<close> and \<open>encode_script_pushdata\<close>, with the readers of the Bitcoin script
  language that must understand them (\<open>decode_script_num\<close>, \<open>read_height\<close>, \<open>read_push\<close>: the
  specification, not code of the program).
\<close>

definition encode_script_num :: "int \<Rightarrow> bytes" where
  "encode_script_num v =
     (if v = 0 then []
      else
        let out = le_digits (nat \<bar>v\<bar>); is_negative = v < 0 in
        if last out AND 0x80 \<noteq> 0 then out @ [if is_negative then 0x80 else 0x00]
        else if is_negative then butlast out @ [last out OR 0x80]
        else out)"

definition encode_coinbase_height :: "u64 \<Rightarrow> bytes result" where
  "encode_coinbase_height height =
     (if height > 0x7fffffffffffffff then Inl ''coinbase height exceeds i64 range''
      else if height = 0 then Inr [0x00]
      else if height \<le> 16 then Inr [0x50 + ucast height]
      else
        let height_bytes = encode_script_num (int (unat height)) in
        Inr (word_of_nat (length height_bytes) # height_bytes))"

text \<open>The text of a number in an error message.\<close>

definition encode_script_pushdata :: "bytes \<Rightarrow> bytes \<Rightarrow> bytes result" where
  "encode_script_pushdata data out =
     (if length data \<le> 75 then Inr (out @ [word_of_nat (length data)] @ data)
      else if length data \<le> 0xff then Inr (out @ [0x4c] @ [word_of_nat (length data)] @ data)
      else if length data \<le> 0xffff
        then Inr (out @ [0x4d] @ u16_to_le (word_of_nat (length data)) @ data)
      else Inl (''script pushdata too long: '' @ dec_digits (length data) @ '' bytes''))"

subsection \<open>The readers\<close>

definition decode_script_num :: "bytes \<Rightarrow> int" where
  "decode_script_num bs =
     (if bs = [] then 0
      else if last bs AND 0x80 \<noteq> 0 then - int (le_to_nat (butlast bs @ [last bs AND 0x7f]))
      else int (le_to_nat bs))"

definition read_height :: "bytes \<Rightarrow> (int \<times> bytes) option" where
  "read_height script =
     (case script of
        [] \<Rightarrow> None
      | op # rest \<Rightarrow>
          if 0x51 \<le> op \<and> op \<le> 0x60 then Some (int (unat op) - 0x50, rest)
          else if unat op \<le> 75 \<and> unat op \<le> length rest
            then Some (decode_script_num (take (unat op) rest), drop (unat op) rest)
          else None)"

definition take_push :: "nat \<Rightarrow> bytes \<Rightarrow> (bytes \<times> bytes) option" where
  "take_push n rest = (if n \<le> length rest then Some (take n rest, drop n rest) else None)"

definition read_push :: "bytes \<Rightarrow> (bytes \<times> bytes) option" where
  "read_push script =
     (case script of
        [] \<Rightarrow> None
      | op # rest \<Rightarrow>
          if unat op \<le> 75 then take_push (unat op) rest
          else if op = 0x4c then (case rest of [] \<Rightarrow> None | n # rest' \<Rightarrow> take_push (unat n) rest')
          else if op = 0x4d then
            (if length rest < 2 then None else take_push (le_to_nat (take 2 rest)) (drop 2 rest))
          else None)"

subsection \<open>Round trips\<close>

lemma sign_bit_cleared: "(w :: u8) AND 0x80 = 0 \<Longrightarrow> (w OR 0x80) AND 0x7f = w"
proof -
  assume w: "w AND 0x80 = 0"
  have all: "(0x7f OR 0x80 :: u8) = - 1" by simp
  have "w = w AND (0x7f OR 0x80)" unfolding all by simp
  also have "\<dots> = w AND 0x7f" by (simp only: bit.conj_disj_distrib w bit.disj_zero_right)
  finally show ?thesis by (simp add: bit.conj_disj_distrib2)
qed

lemma decode_encode_script_num: "decode_script_num (encode_script_num v) = v"
proof (cases "v = 0")
  case True
  then show ?thesis by (simp add: encode_script_num_def decode_script_num_def)
next
  case False
  define out where "out = le_digits (nat \<bar>v\<bar>)"
  have ne: "out \<noteq> []" and val: "le_to_nat out = nat \<bar>v\<bar>"
    using False le_digits_last [of "nat \<bar>v\<bar>"] by (auto simp: out_def)
  have enc: "encode_script_num v =
      (if last out AND 0x80 \<noteq> 0 then out @ [if v < 0 then 0x80 else 0]
       else if v < 0 then butlast out @ [last out OR 0x80] else out)"
    using False by (simp add: encode_script_num_def out_def Let_def)
  show ?thesis
  proof (cases "last out AND 0x80 = 0")
    case True
    have "(last out OR 0x80) AND 0x80 \<noteq> 0" by (simp add: bit.conj_disj_distrib2)
    with True ne val False show ?thesis
      by (auto simp: enc decode_script_num_def sign_bit_cleared)
  next
    case False
    with ne val show ?thesis
      by (auto simp: enc decode_script_num_def le_to_nat_append)
  qed
qed

lemma length_encode_script_num:
  "length (encode_script_num v) \<le> k + 1" if "nat \<bar>v\<bar> < 256 ^ k"
proof (cases "v = 0")
  case False
  then have "le_digits (nat \<bar>v\<bar>) \<noteq> []" using le_digits_last [of "nat \<bar>v\<bar>"] by simp
  moreover have "length (le_digits (nat \<bar>v\<bar>)) \<le> k" using that by (simp add: length_le_digits)
  ultimately show ?thesis by (auto simp: encode_script_num_def Let_def)
qed (simp add: encode_script_num_def)

lemma encode_script_num_nonempty: "v \<noteq> 0 \<Longrightarrow> encode_script_num v \<noteq> []"
  using le_digits_last [of "nat \<bar>v\<bar>"] by (auto simp: encode_script_num_def Let_def)

text \<open>The height that a block's coinbase must start with is read back, whatever follows it.\<close>

lemma read_encode_height:
  assumes "encode_coinbase_height h = Inr script"
  shows "read_height (script @ rest) = Some (int (unat h), rest)"
proof -
  have hi: "unat h < 256 ^ 8" using unat_lt [of h] by simp
  consider "h = 0" | "0 < unat h" "unat h \<le> 16" | "16 < unat h" by (metis neq0_conv not_less unat_0_iff)
  then show ?thesis
  proof cases
    case 1
    with assms show ?thesis
      by (auto simp: encode_coinbase_height_def read_height_def decode_script_num_def word_le_nat_alt)
  next
    case 2
    then have "unat (ucast h :: u8) = unat h" by (simp add: unsigned_ucast_eq take_bit_nat_eq_self)
    with 2 have op: "unat (0x50 + ucast h :: u8) = 0x50 + unat h" by (simp add: unat_word_ariths)
    have "script = [0x50 + ucast h]"
      using assms 2 by (auto simp: encode_coinbase_height_def word_less_nat_alt word_le_nat_alt split: if_splits)
    with 2 op show ?thesis by (simp add: read_height_def word_le_nat_alt)
  next
    case 3
    define num where "num = encode_script_num (int (unat h))"
    have len: "length num \<le> 9"
      using length_encode_script_num [of "int (unat h)" 8] hi by (simp add: num_def)
    have ne: "num \<noteq> []"
      unfolding num_def by (rule encode_script_num_nonempty) (use 3 in linarith)
    have "script = word_of_nat (length num) # num"
      using assms 3 by (auto simp: encode_coinbase_height_def word_less_nat_alt word_le_nat_alt num_def
        Let_def split: if_splits)
    with len ne decode_encode_script_num [of "int (unat h)"] show ?thesis
      by (simp add: read_height_def word_le_nat_alt num_def)
  qed
qed

lemma encode_coinbase_height_ok: "unat h < 2 ^ 63 \<longleftrightarrow> (\<exists>s. encode_coinbase_height h = Inr s)"
  by (auto simp: encode_coinbase_height_def word_less_nat_alt Let_def)

lemma encode_coinbase_height_length:
  "encode_coinbase_height h = Inr s \<Longrightarrow> unat h < 256 ^ k \<Longrightarrow> 0 < k \<Longrightarrow> length s \<le> k + 2"
  using length_encode_script_num [of "int (unat h)" k]
  by (auto simp: encode_coinbase_height_def Let_def split: if_splits)

lemma encode_script_pushdata_append:
  "encode_script_pushdata data out = rbind (encode_script_pushdata data []) (\<lambda>s. Inr (out @ s))"
  by (simp add: encode_script_pushdata_def)

definition push_script :: "bytes \<Rightarrow> bytes" where
  "push_script data = (case encode_script_pushdata data [] of Inl e \<Rightarrow> [] | Inr s \<Rightarrow> s)"

lemma take_push_append [simp]: "take_push (length data) (data @ rest) = Some (data, rest)"
  by (simp add: take_push_def)

lemma read_push_encode:
  assumes "encode_script_pushdata data [] = Inr s"
  shows "read_push (s @ rest) = Some (data, rest)"
proof -
  have len: "length data \<le> 0xffff" using assms by (auto simp: encode_script_pushdata_def split: if_splits)
  then have w: "unat (word_of_nat (length data) :: u16) = length data"
    by (simp add: unat_of_nat)
  consider "length data \<le> 75" | "75 < length data" "length data \<le> 0xff" | "0xff < length data" by linarith
  then show ?thesis
  proof cases
    case 1
    with assms show ?thesis by (auto simp: encode_script_pushdata_def read_push_def word_le_nat_alt)
  next
    case 2
    with assms show ?thesis by (auto simp: encode_script_pushdata_def read_push_def)
  next
    case 3
    with assms len have "s = 0x4d # u16_to_le (word_of_nat (length data)) @ data"
      by (simp add: encode_script_pushdata_def split: if_splits)
    then show ?thesis by (simp add: read_push_def w)
  qed
qed

interpretation script_push: byte_codec push_script read_push "\<lambda>data. length data \<le> 0xffff"
proof
  fix data rest :: bytes
  assume "length data \<le> 0xffff"
  then obtain s where "encode_script_pushdata data [] = Inr s"
    by (cases "encode_script_pushdata data []") (auto simp: encode_script_pushdata_def split: if_splits)
  with read_push_encode [OF this] show "read_push (push_script data @ rest) = Some (data, rest)"
    by (simp add: push_script_def)
qed

subsection \<open>Properties\<close>

text \<open>\<open>encode_coinbase_height\<close>, \<open>encode_script_num\<close>: a height below \<open>2 ^ 63\<close> has an encoding, no
  other has one, the reader of the script language gets the height back from it whatever follows,
  and every signed number is read back from its script number.\<close>

theorem coinbase_height_roundtrip:
  "(unat h < 2 ^ 63 \<longleftrightarrow> (\<exists>s. encode_coinbase_height h = Inr s)) \<and>
   (\<forall>s. encode_coinbase_height h = Inr s \<longrightarrow> read_height (s @ rest) = Some (int (unat h), rest)) \<and>
   decode_script_num (encode_script_num v) = v"
  using encode_coinbase_height_ok [of h] read_encode_height [of h] decode_encode_script_num [of v] by blast

theorem coinbase_height_roundtrip_witness:
  "read_height ([0x03, 0x40, 0xd1, 0x0c] @ [7]) = Some (840000, [7])"
proof -
  have "encode_coinbase_height 840000 = Inr [0x03, 0x40, 0xd1, 0x0c]"
    by (simp add: encode_coinbase_height_def encode_script_num_def le_digits.simps Let_def)
  then show ?thesis using coinbase_height_roundtrip [of 840000 "[7]" 0] by simp
qed

text \<open>\<open>encode_script_pushdata\<close>: data of up to 65535 bytes has a push, its bytes are appended to
  the script that is there, and the reader of the script language gets the data back; longer data
  is refused.\<close>

theorem pushdata_roundtrip:
  "(length data \<le> 0xffff \<longleftrightarrow> (\<exists>s. encode_script_pushdata data out = Inr s)) \<and>
   (\<forall>s. encode_script_pushdata data out = Inr s \<longrightarrow>
      (\<exists>p. s = out @ p \<and> read_push (p @ rest) = Some (data, rest)))"
proof -
  have "length data \<le> 0xffff \<longleftrightarrow> (\<exists>s. encode_script_pushdata data out = Inr s)"
    by (auto simp: encode_script_pushdata_def)
  moreover have "\<exists>p. s = out @ p \<and> read_push (p @ rest) = Some (data, rest)"
    if "encode_script_pushdata data out = Inr s" for s
    using that read_push_encode [of data] unfolding encode_script_pushdata_append [of data out]
    by (auto elim!: rbind_InrE)
  ultimately show ?thesis by blast
qed

theorem pushdata_roundtrip_witness:
  "read_push ([0x02, 7, 8] @ [9]) = Some ([7, 8], [9])"
proof -
  have "encode_script_pushdata [7, 8] [1] = Inr [1, 0x02, 7, 8]"
    by (simp add: encode_script_pushdata_def)
  then show ?thesis using pushdata_roundtrip [of "[7, 8]" "[1]" "[9]"] by auto
qed

end
