(* ===== verification/Config.thy ===== *)
theory Config
  imports Externs
begin

text \<open>
  \<open>src/config.rs\<close>: the sections of the configuration file with their defaults, the
  configuration the program runs with, \<open>Config::load\<close> with its environment overrides, and
  \<open>Config::validate\<close>. The TOML parser is the crate \<open>toml\<close>: loading starts from the
  sections it returns. The environment is a function from variable names. The outer \<open>None\<close> of
  \<open>load\<close> is the panic of \<open>f64::clamp\<close>.
\<close>

record bitcoin_section =
  bs_network :: string
  bs_rpc_url :: string
  bs_rpc_user :: string
  bs_rpc_pass :: string
  bs_zmq_block_urls :: "string list"
  bs_p2p_fast_peer :: "string option"

definition bitcoin_section_default :: bitcoin_section where
  "bitcoin_section_default =
     \<lparr>bs_network = ''mainnet'', bs_rpc_url = [], bs_rpc_user = [], bs_rpc_pass = [],
      bs_zmq_block_urls = [], bs_p2p_fast_peer = None\<rparr>"

record stratum_section =
  ss_bind :: string
  ss_port :: u16
  ss_extranonce1_size :: nat
  ss_extranonce2_size :: nat
  ss_min_difficulty :: f64
  ss_max_difficulty :: f64
  ss_start_difficulty :: f64
  ss_target_share_time_secs :: f64
  ss_vardiff_retarget_time_secs :: f64
  ss_vardiff_enabled :: bool
  ss_auth_token :: "string option"
  ss_max_line_bytes :: nat
  ss_idle_timeout_secs :: nat

definition stratum_section_default :: stratum_section where
  "stratum_section_default =
     \<lparr>ss_bind = ''0.0.0.0'', ss_port = 3333, ss_extranonce1_size = 4, ss_extranonce2_size = 4,
      ss_min_difficulty = Fin 16384, ss_max_difficulty = Fin 4194304,
      ss_start_difficulty = Fin 16384, ss_target_share_time_secs = Fin 15,
      ss_vardiff_retarget_time_secs = Fin 90, ss_vardiff_enabled = True, ss_auth_token = None,
      ss_max_line_bytes = 65536, ss_idle_timeout_secs = 300\<rparr>"

record api_section =
  as_bind :: string
  as_port :: u16
  as_enabled :: bool

definition api_section_default :: api_section where
  "api_section_default = \<lparr>as_bind = ''127.0.0.1'', as_port = 8080, as_enabled = True\<rparr>"

record mining_section =
  ms_payout_address :: string
  ms_payout_script_hex :: "string option"
  ms_pool_tag :: string
  ms_coinbase_message :: string

definition mining_section_default :: mining_section where
  "mining_section_default =
     \<lparr>ms_payout_address = [], ms_payout_script_hex = None, ms_pool_tag = ''StratumBee'',
      ms_coinbase_message = ''Solo''\<rparr>"

record runtime_section =
  rs_notify_bucket_capacity :: f64
  rs_notify_bucket_refill_ms :: f64
  rs_miner_inactive_timeout_secs :: nat
  rs_max_recent_events :: nat
  rs_max_block_history :: nat

definition runtime_section_default :: runtime_section where
  "runtime_section_default =
     \<lparr>rs_notify_bucket_capacity = Fin 2, rs_notify_bucket_refill_ms = Fin 500,
      rs_miner_inactive_timeout_secs = 1800, rs_max_recent_events = 1024,
      rs_max_block_history = 32\<rparr>"

record sv2_section =
  s2_enabled :: bool
  s2_bind :: string
  s2_port :: u16
  s2_max_connections :: nat
  s2_max_connections_per_ip :: nat
  s2_max_handshakes :: nat
  s2_handshake_timeout_secs :: nat
  s2_idle_timeout_secs :: nat
  s2_frame_max_bytes :: nat
  s2_authority_public_key_path :: "string option"
  s2_authority_secret_key_path :: "string option"
  s2_cert_validity_secs :: nat

definition sv2_section_default :: sv2_section where
  "sv2_section_default =
     \<lparr>s2_enabled = False, s2_bind = ''0.0.0.0'', s2_port = 3334, s2_max_connections = 256,
      s2_max_connections_per_ip = 16, s2_max_handshakes = 32, s2_handshake_timeout_secs = 5,
      s2_idle_timeout_secs = 600, s2_frame_max_bytes = 65536,
      s2_authority_public_key_path = None, s2_authority_secret_key_path = None,
      s2_cert_validity_secs = 86400\<rparr>"

record file_config =
  fc_bitcoin :: bitcoin_section
  fc_stratum :: stratum_section
  fc_api :: api_section
  fc_mining :: mining_section
  fc_runtime :: runtime_section
  fc_sv2 :: sv2_section

definition file_config_default :: file_config where
  "file_config_default =
     \<lparr>fc_bitcoin = bitcoin_section_default, fc_stratum = stratum_section_default,
      fc_api = api_section_default, fc_mining = mining_section_default,
      fc_runtime = runtime_section_default, fc_sv2 = sv2_section_default\<rparr>"

record config =
  network :: network
  stratum_bind :: string
  stratum_port :: u16
  api_bind :: string
  api_port :: u16
  api_enabled :: bool
  rpc_url :: string
  rpc_user :: string
  rpc_pass :: string
  zmq_block_urls :: "string list"
  p2p_fast_peer :: "string option"
  payout_address :: string
  payout_script_hex :: "string option"
  pool_tag :: string
  coinbase_message :: string
  extranonce1_size :: nat
  extranonce2_size :: nat
  min_difficulty :: f64
  max_difficulty :: f64
  start_difficulty :: f64
  target_share_time_secs :: f64
  vardiff_retarget_time_secs :: f64
  vardiff_enabled :: bool
  notify_bucket_capacity :: f64
  notify_bucket_refill_ms :: f64
  auth_token :: "string option"
  max_line_bytes :: nat
  idle_timeout_secs :: nat
  miner_inactive_timeout_secs :: nat
  max_recent_events :: nat
  max_block_history :: nat
  sv2_enabled :: bool
  sv2_bind :: string
  sv2_port :: u16
  sv2_max_connections :: nat
  sv2_max_connections_per_ip :: nat
  sv2_max_handshakes :: nat
  sv2_handshake_timeout_secs :: nat
  sv2_idle_timeout_secs :: nat
  sv2_frame_max_bytes :: nat
  sv2_authority_public_key_path :: "string option"
  sv2_authority_secret_key_path :: "string option"
  sv2_cert_validity_secs :: nat

subsection \<open>Helpers\<close>

definition bind_overlaps :: "string \<Rightarrow> string \<Rightarrow> bool" where
  "bind_overlaps a b \<longleftrightarrow>
     (if a = b then True
      else a = ''0.0.0.0'' \<or> b = ''0.0.0.0'' \<or> a = ''::'' \<or> b = ''::'')"

definition parse_network :: "string \<Rightarrow> network result" where
  "parse_network raw =
     (let s = to_ascii_lowercase (trim raw) in
      if s = ''mainnet'' \<or> s = ''bitcoin'' then Inr Bitcoin
      else if s = ''testnet'' then Inr Testnet
      else if s = ''regtest'' then Inr Regtest
      else if s = ''signet'' then Inr Signet
      else Inl (''unsupported network: '' @ s))"

definition env_or :: "(string \<Rightarrow> string option) \<Rightarrow> string \<Rightarrow> string \<Rightarrow> string" where
  "env_or env var fallback =
     (case map_option trim (env var) of
        None \<Rightarrow> trim fallback
      | Some v \<Rightarrow> if v = [] then trim fallback else v)"

definition required_env_or ::
  "(string \<Rightarrow> string option) \<Rightarrow> string \<Rightarrow> string \<Rightarrow> string \<Rightarrow> string result" where
  "required_env_or env var fallback label =
     (let v = env_or env var fallback in
      if v = [] then Inl (label @ '' is required'') else Inr v)"

definition trim_non_empty :: "string \<Rightarrow> string option" where
  "trim_non_empty v = (let trimmed = trim v in if trimmed = [] then None else Some trimmed)"

definition normalize_opt :: "string option \<Rightarrow> string option \<Rightarrow> string option" where
  "normalize_opt primary fallback =
     (case Option.bind primary trim_non_empty of
        Some v \<Rightarrow> Some v
      | None \<Rightarrow> Option.bind fallback trim_non_empty)"

subsection \<open>\<open>Config::validate\<close>\<close>

text \<open>
  The checks in the order of the code; each returns its message. The payout script or address is
  the one check that calls other crates, and the checks of the SV2 listener apply when it is
  enabled.
\<close>

definition validate_payout :: "externs \<Rightarrow> config \<Rightarrow> unit result" where
  "validate_payout X cfg =
     (if payout_script_hex cfg = None \<and> trim (payout_address cfg) = [] then
        Inl ''mining.payout_address is required when payout_script_hex is empty''
      else case payout_script_hex cfg of
          Some script_hex \<Rightarrow>
            rbind (with_context ''decode mining.payout_script_hex'' (hex_decode X script_hex))
              (\<lambda>script. if script = []
                 then Inl ''mining.payout_script_hex must not decode to an empty script''
                 else Inr ())
        | None \<Rightarrow>
            if \<not> parse_address X (payout_address cfg) then Inl ''parse mining.payout_address''
            else if address_script X (network cfg) (payout_address cfg) = None
              then Inl ''mining.payout_address network mismatch''
            else Inr ())"

definition validate_sv2 :: "config \<Rightarrow> unit result" where
  "validate_sv2 cfg =
     (if sv2_enabled cfg then
        (if sv2_port cfg = 0 then Inl ''sv2.port must be > 0 when sv2.enabled = true''
         else if sv2_port cfg = stratum_port cfg \<and> bind_overlaps (sv2_bind cfg) (stratum_bind cfg)
           then Inl ''sv2.port conflicts with stratum.port on overlapping bind addresses''
         else if api_enabled cfg \<and> sv2_port cfg = api_port cfg
             \<and> bind_overlaps (sv2_bind cfg) (api_bind cfg)
           then Inl ''sv2.port conflicts with api.port on overlapping bind addresses''
         else if sv2_frame_max_bytes cfg > 16 * 1024 * 1024
           then Inl ''sv2.frame_max_bytes must be <= 16 MiB''
         else if sv2_handshake_timeout_secs cfg > 60
           then Inl ''sv2.handshake_timeout_secs must be <= 60''
         else if sv2_cert_validity_secs cfg > 31536000
           then Inl ''sv2.cert_validity_secs must be <= 31536000''
         else if sv2_authority_public_key_path cfg = None
           then Inl ''sv2.authority_public_key_path is required when sv2.enabled = true''
         else if sv2_authority_secret_key_path cfg = None
           then Inl ''sv2.authority_secret_key_path is required when sv2.enabled = true''
         else Inr ())
      else Inr ())"

definition validate :: "externs \<Rightarrow> config \<Rightarrow> unit result" where
  "validate X cfg =
     (if extranonce1_size cfg = 0 \<or> extranonce1_size cfg > 4
        then Inl ''extranonce1_size must be between 1 and 4''
      else if extranonce2_size cfg = 0 \<or> extranonce2_size cfg > 16
        then Inl ''extranonce2_size must be between 1 and 16''
      else if \<not> is_finite (min_difficulty cfg) \<or> min_difficulty cfg \<le> 0
        then Inl ''stratum.min_difficulty must be finite and > 0''
      else if \<not> is_finite (max_difficulty cfg) \<or> max_difficulty cfg < min_difficulty cfg
        then Inl ''stratum.max_difficulty must be finite and >= min_difficulty''
      else if \<not> is_finite (start_difficulty cfg) \<or> start_difficulty cfg < min_difficulty cfg
          \<or> max_difficulty cfg < start_difficulty cfg
        then Inl ''stratum.start_difficulty must be finite and within min/max difficulty''
      else if stratum_port cfg = 0 then Inl ''stratum.port must be > 0''
      else if api_enabled cfg \<and> api_port cfg = 0
        then Inl ''api.port must be > 0 when api.enabled = true''
      else rbind (validate_payout X cfg) (\<lambda>_.
        if length (pool_tag cfg) > 32 then Inl ''mining.pool_tag is too long; keep it under 32 bytes''
        else if length (coinbase_message cfg) > 32
          then Inl ''mining.coinbase_message is too long; keep it under 32 bytes''
        else if trim (rpc_url cfg) = [] then Inl ''bitcoin.rpc_url is required''
        else if trim (rpc_user cfg) = [] then Inl ''bitcoin.rpc_user is required''
        else if trim (rpc_pass cfg) = [] then Inl ''bitcoin.rpc_pass is required''
        else validate_sv2 cfg))"

subsection \<open>\<open>Config::load\<close>\<close>

definition build_config ::
  "(string \<Rightarrow> string option) \<Rightarrow> file_config \<Rightarrow> network \<Rightarrow> string \<Rightarrow> string \<Rightarrow> string \<Rightarrow>
   string option \<Rightarrow> string \<Rightarrow> f64 \<Rightarrow> f64 \<Rightarrow> f64 \<Rightarrow> config" where
  "build_config env fc net url user pass script address lo hi start =
     \<lparr>network = net,
      stratum_bind = ss_bind (fc_stratum fc),
      stratum_port = ss_port (fc_stratum fc),
      api_bind = as_bind (fc_api fc),
      api_port = as_port (fc_api fc),
      api_enabled = as_enabled (fc_api fc),
      rpc_url = url,
      rpc_user = user,
      rpc_pass = pass,
      zmq_block_urls = bs_zmq_block_urls (fc_bitcoin fc),
      p2p_fast_peer = normalize_opt (env ''STRATUMBEE_P2P_FAST_PEER'') (bs_p2p_fast_peer (fc_bitcoin fc)),
      payout_address = address,
      payout_script_hex = script,
      pool_tag = ms_pool_tag (fc_mining fc),
      coinbase_message = ms_coinbase_message (fc_mining fc),
      extranonce1_size = ss_extranonce1_size (fc_stratum fc),
      extranonce2_size = ss_extranonce2_size (fc_stratum fc),
      min_difficulty = lo,
      max_difficulty = hi,
      start_difficulty = start,
      target_share_time_secs = fmax (ss_target_share_time_secs (fc_stratum fc)) 1,
      vardiff_retarget_time_secs = fmax (ss_vardiff_retarget_time_secs (fc_stratum fc)) (Fin 5),
      vardiff_enabled = ss_vardiff_enabled (fc_stratum fc),
      notify_bucket_capacity = fmax (rs_notify_bucket_capacity (fc_runtime fc)) 1,
      notify_bucket_refill_ms = fmax (rs_notify_bucket_refill_ms (fc_runtime fc)) (Fin 10),
      auth_token = normalize_opt (env ''STRATUMBEE_AUTH_TOKEN'') (ss_auth_token (fc_stratum fc)),
      max_line_bytes = max (ss_max_line_bytes (fc_stratum fc)) 1024,
      idle_timeout_secs = max (ss_idle_timeout_secs (fc_stratum fc)) 30,
      miner_inactive_timeout_secs = max (rs_miner_inactive_timeout_secs (fc_runtime fc)) 30,
      max_recent_events = max (rs_max_recent_events (fc_runtime fc)) 128,
      max_block_history = max (rs_max_block_history (fc_runtime fc)) 8,
      sv2_enabled = s2_enabled (fc_sv2 fc),
      sv2_bind = s2_bind (fc_sv2 fc),
      sv2_port = s2_port (fc_sv2 fc),
      sv2_max_connections = max (s2_max_connections (fc_sv2 fc)) 1,
      sv2_max_connections_per_ip = max (s2_max_connections_per_ip (fc_sv2 fc)) 1,
      sv2_max_handshakes = max (s2_max_handshakes (fc_sv2 fc)) 1,
      sv2_handshake_timeout_secs = max (s2_handshake_timeout_secs (fc_sv2 fc)) 1,
      sv2_idle_timeout_secs = max (s2_idle_timeout_secs (fc_sv2 fc)) 30,
      sv2_frame_max_bytes = max (s2_frame_max_bytes (fc_sv2 fc)) 1024,
      sv2_authority_public_key_path = s2_authority_public_key_path (fc_sv2 fc),
      sv2_authority_secret_key_path = s2_authority_secret_key_path (fc_sv2 fc),
      sv2_cert_validity_secs = max (s2_cert_validity_secs (fc_sv2 fc)) 60\<rparr>"

text \<open>The fields that come from the environment or the file and can be missing.\<close>

definition config_strings ::
  "(string \<Rightarrow> string option) \<Rightarrow> file_config \<Rightarrow>
   (network \<times> string \<times> string \<times> string \<times> string option \<times> string) result" where
  "config_strings env fc =
     rbind (parse_network (env_or env ''STRATUMBEE_NETWORK'' (bs_network (fc_bitcoin fc)))) (\<lambda>net.
     rbind (required_env_or env ''STRATUMBEE_RPC_URL'' (bs_rpc_url (fc_bitcoin fc)) ''rpc_url'') (\<lambda>url.
     rbind (required_env_or env ''STRATUMBEE_RPC_USER'' (bs_rpc_user (fc_bitcoin fc)) ''rpc_user'') (\<lambda>user.
     rbind (required_env_or env ''STRATUMBEE_RPC_PASS'' (bs_rpc_pass (fc_bitcoin fc)) ''rpc_pass'') (\<lambda>pass.
     let script = normalize_opt (env ''STRATUMBEE_PAYOUT_SCRIPT_HEX'') (ms_payout_script_hex (fc_mining fc)) in
     rbind (if script \<noteq> None
            then Inr (env_or env ''STRATUMBEE_PAYOUT_ADDRESS'' (ms_payout_address (fc_mining fc)))
            else required_env_or env ''STRATUMBEE_PAYOUT_ADDRESS'' (ms_payout_address (fc_mining fc)) ''payout_address'')
       (\<lambda>address. Inr (net, url, user, pass, script, address))))))"

definition load_config ::
  "externs \<Rightarrow> (string \<Rightarrow> string option) \<Rightarrow> file_config \<Rightarrow> config result option" where
  "load_config X env fc =
     (case config_strings env fc of
        Inl e \<Rightarrow> Some (Inl e)
      | Inr (net, url, user, pass, script, address) \<Rightarrow>
          (let lo = ss_min_difficulty (fc_stratum fc);
               hi = fmax (ss_max_difficulty (fc_stratum fc)) lo in
           Option.bind (fclamp (ss_start_difficulty (fc_stratum fc)) lo hi) (\<lambda>start.
             let cfg = build_config env fc net url user pass script address lo hi start in
             Some (rbind (validate X cfg) (\<lambda>_. Inr cfg)))))"

subsection \<open>What a valid configuration promises\<close>

definition difficulty_ok :: "config \<Rightarrow> bool" where
  "difficulty_ok cfg \<longleftrightarrow>
     is_finite (min_difficulty cfg) \<and> is_finite (max_difficulty cfg) \<and> 0 < min_difficulty cfg \<and>
     min_difficulty cfg \<le> start_difficulty cfg \<and> start_difficulty cfg \<le> max_difficulty cfg"

definition payout_ok :: "externs \<Rightarrow> config \<Rightarrow> bool" where
  "payout_ok X cfg \<longleftrightarrow>
     (case payout_script_hex cfg of
        Some h \<Rightarrow> (\<exists>script. hex_decode X h = Inr script \<and> script \<noteq> [])
      | None \<Rightarrow> parse_address X (payout_address cfg) \<and>
          address_script X (network cfg) (payout_address cfg) \<noteq> None)"

text \<open>No two listeners that are switched on can be told to bind the same address and port.\<close>

definition sv2_listener_ok :: "config \<Rightarrow> bool" where
  "sv2_listener_ok cfg \<longleftrightarrow>
     sv2_enabled cfg \<longrightarrow> sv2_port cfg \<noteq> 0 \<and>
       \<not> (sv2_port cfg = stratum_port cfg \<and> bind_overlaps (sv2_bind cfg) (stratum_bind cfg)) \<and>
       \<not> (api_enabled cfg \<and> sv2_port cfg = api_port cfg \<and> bind_overlaps (sv2_bind cfg) (api_bind cfg)) \<and>
       sv2_frame_max_bytes cfg \<le> 16777216 \<and> sv2_handshake_timeout_secs cfg \<le> 60 \<and>
       sv2_authority_public_key_path cfg \<noteq> None \<and> sv2_authority_secret_key_path cfg \<noteq> None"

definition config_ok :: "externs \<Rightarrow> config \<Rightarrow> bool" where
  "config_ok X cfg \<longleftrightarrow>
     1 \<le> extranonce1_size cfg \<and> extranonce1_size cfg \<le> 4 \<and>
     1 \<le> extranonce2_size cfg \<and> extranonce2_size cfg \<le> 16 \<and>
     difficulty_ok cfg \<and> payout_ok X cfg \<and> stratum_port cfg \<noteq> 0 \<and>
     (api_enabled cfg \<longrightarrow> api_port cfg \<noteq> 0) \<and>
     length (pool_tag cfg) \<le> 32 \<and> length (coinbase_message cfg) \<le> 32 \<and>
     sv2_listener_ok cfg"

lemma f64_not_le_0: "is_finite a \<Longrightarrow> \<not> a \<le> 0 \<Longrightarrow> 0 < a"
  by (cases a) (auto simp: zero_f64_def)

lemma f64_not_less_finite: "is_finite a \<Longrightarrow> is_finite b \<Longrightarrow> \<not> a < b \<Longrightarrow> b \<le> a"
  by (cases a; cases b) auto

lemma validate_payout_ok: "validate_payout X cfg = Inr () \<Longrightarrow> payout_ok X cfg"
  by (auto simp: validate_payout_def payout_ok_def rbind_Inr_iff split: if_splits option.splits)

lemma validate_sv2_ok: "validate_sv2 cfg = Inr () \<Longrightarrow> sv2_listener_ok cfg"
  by (auto simp: validate_sv2_def sv2_listener_ok_def split: if_splits)

lemma validate_ok: "validate X cfg = Inr () \<Longrightarrow> config_ok X cfg"
  by (auto simp: validate_def config_ok_def difficulty_ok_def validate_payout_ok validate_sv2_ok
    f64_not_le_0 f64_not_less_finite rbind_Inr_iff split: if_splits)

lemma load_config_Some:
  assumes "load_config X env fc = Some (Inr cfg)"
  shows "validate X cfg = Inr () \<and> (\<exists>net url user pass script address lo hi start.
    cfg = build_config env fc net url user pass script address lo hi start)"
proof -
  obtain net url user pass script address where
    s: "config_strings env fc = Inr (net, url, user, pass, script, address)"
    using assms by (cases "config_strings env fc") (auto simp: load_config_def)
  show ?thesis using assms
    by (auto simp: load_config_def s Let_def bind_eq_Some_conv rbind_Inr_iff) (intro exI, rule refl)
qed

lemma load_config_None_iff:
  "load_config X env fc = None \<longleftrightarrow>
     (\<exists>strings. config_strings env fc = Inr strings) \<and> ss_min_difficulty (fc_stratum fc) = NaN"
proof (cases "config_strings env fc")
  case (Inl e)
  then show ?thesis by (simp add: load_config_def)
next
  case (Inr t)
  let ?lo = "ss_min_difficulty (fc_stratum fc)"
  have "?lo \<le> fmax x ?lo \<longleftrightarrow> ?lo \<noteq> NaN" for x
    using fmax_ge2 [of ?lo x] by auto
  with Inr show ?thesis
    by (cases t) (auto simp: load_config_def Let_def bind_eq_None_conv fclamp_None)
qed

lemma build_config_floors:
  "max_recent_events (build_config env fc net url user pass script address lo hi start) \<ge> 128"
  "max_block_history (build_config env fc net url user pass script address lo hi start) \<ge> 8"
  "max_line_bytes (build_config env fc net url user pass script address lo hi start) \<ge> 1024"
  "idle_timeout_secs (build_config env fc net url user pass script address lo hi start) \<ge> 30"
  "sv2_max_connections (build_config env fc net url user pass script address lo hi start) \<ge> 1"
  "sv2_max_connections_per_ip (build_config env fc net url user pass script address lo hi start) \<ge> 1"
  "sv2_max_handshakes (build_config env fc net url user pass script address lo hi start) \<ge> 1"
  by (simp_all add: build_config_def)

subsection \<open>A sample\<close>

text \<open>A file with every mandatory field, for the concrete instances below.\<close>

definition sample_file :: file_config where
  "sample_file = file_config_default
     \<lparr>fc_bitcoin := bitcoin_section_default
        \<lparr>bs_network := ''mainnet'', bs_rpc_url := ''u'', bs_rpc_user := ''n'', bs_rpc_pass := ''p''\<rparr>,
      fc_mining := mining_section_default\<lparr>ms_payout_script_hex := Some ''51''\<rparr>\<rparr>"

definition sample_config :: config where
  "sample_config =
     build_config (\<lambda>_. None) sample_file Bitcoin ''u'' ''n'' ''p'' (Some ''51'') [] (Fin 16384)
       (Fin 4194304) (Fin 16384)"

lemma sample_trims [simp]:
  "trim ''u'' = ''u''" "trim ''n'' = ''n''" "trim ''p'' = ''p''" "trim ''51'' = ''51''"
  "trim ''mainnet'' = ''mainnet''"
  by (simp_all add: trim_visible visible_def)

lemma sample_network [simp]: "parse_network ''mainnet'' = Inr Bitcoin"
  by (simp add: parse_network_def to_ascii_lowercase_def ascii_lower_def Let_def)

lemma sample_clamp:
  "fmax (Fin 4194304) (Fin 16384) = Fin 4194304"
  "fclamp (Fin 16384) (Fin 16384) (Fin 4194304) = Some (Fin 16384)"
  by (simp_all add: fmax_def fclamp_def)

lemma sample_config_simps [simp]:
  "network sample_config = Bitcoin" "stratum_port sample_config = 3333"
  "api_port sample_config = 8080" "api_enabled sample_config"
  "rpc_url sample_config = ''u''" "rpc_user sample_config = ''n''" "rpc_pass sample_config = ''p''"
  "payout_address sample_config = []" "payout_script_hex sample_config = Some ''51''"
  "pool_tag sample_config = ''StratumBee''" "coinbase_message sample_config = ''Solo''"
  "extranonce1_size sample_config = 4" "extranonce2_size sample_config = 4"
  "min_difficulty sample_config = Fin 16384" "max_difficulty sample_config = Fin 4194304"
  "start_difficulty sample_config = Fin 16384" "\<not> sv2_enabled sample_config"
  by (simp_all add: sample_config_def build_config_def sample_file_def file_config_default_def
    stratum_section_default_def api_section_default_def mining_section_default_def
    sv2_section_default_def)

lemma sample_valid: "validate ref_externs sample_config = Inr ()"
  by (simp add: validate_def validate_payout_def validate_sv2_def zero_f64_def hex_digit_def Let_def)

lemma sample_loads: "load_config ref_externs (\<lambda>_. None) sample_file = Some (Inr sample_config)"
proof -
  have "config_strings (\<lambda>_. None) sample_file =
      Inr (Bitcoin, ''u'', ''n'', ''p'', Some ''51'', [])"
    by (simp add: config_strings_def env_or_def required_env_or_def normalize_opt_def trim_non_empty_def
      sample_file_def file_config_default_def mining_section_default_def Let_def)
  moreover have "ss_min_difficulty (fc_stratum sample_file) = Fin 16384"
    "ss_max_difficulty (fc_stratum sample_file) = Fin 4194304"
    "ss_start_difficulty (fc_stratum sample_file) = Fin 16384"
    by (simp_all add: sample_file_def file_config_default_def stratum_section_default_def)
  ultimately show ?thesis
    by (simp add: load_config_def sample_clamp sample_valid Let_def flip: sample_config_def)
qed

subsection \<open>Properties\<close>

text \<open>C31 (\<open>Config::load\<close>, \<open>Config::validate\<close>): a configuration that loads has extranonce sizes, ports
  and difficulties in range, a payout script, and no SV2 listener on the address and port of
  another one; the limits of the runtime are at least their floors.\<close>

theorem loaded_config_valid:
  "load_config X env fc = Some (Inr cfg) \<Longrightarrow>
   config_ok X cfg \<and> max_recent_events cfg \<ge> 128 \<and> max_block_history cfg \<ge> 8 \<and>
   max_line_bytes cfg \<ge> 1024 \<and> idle_timeout_secs cfg \<ge> 30 \<and> sv2_max_connections cfg \<ge> 1 \<and>
   sv2_max_connections_per_ip cfg \<ge> 1 \<and> sv2_max_handshakes cfg \<ge> 1"
  using load_config_Some [of X env fc cfg] validate_ok [of X cfg] build_config_floors by auto

theorem loaded_config_valid_witness: "config_ok ref_externs sample_config"
  using loaded_config_valid [OF sample_loads] by simp

text \<open>C33 (\<open>Config::load\<close>): loading panics instead of reporting an error exactly when the file's
  minimum difficulty is not a number and the text fields are there: the range of \<open>clamp\<close> is then
  empty, before \<open>validate\<close> can reject the value.\<close>

theorem load_panics_on_nan:
  "load_config X env fc = None \<longleftrightarrow>
     (\<exists>strings. config_strings env fc = Inr strings) \<and> ss_min_difficulty (fc_stratum fc) = NaN"
  by (rule load_config_None_iff)

end
