(* ===== verification/Template.thy ===== *)
theory Template
  imports Bitcoin_Encoding Hashing Script Config
begin

text \<open>
  The data and the pure functions of \<open>src/template.rs\<close>: template sources, jobs, the response of
  \<open>getblocktemplate\<close>, the coinbase transaction and the construction of jobs. The engine around
  them is in \<open>Template_Engine\<close>. Every function that the code calls with \<open>?\<close> returns a
  \<open>result\<close>; the wall clock is an argument.
\<close>

subsection \<open>Data\<close>

datatype template_source =
  Startup | Longpoll | LongpollTimeoutFallback | LongpollErrorFallback
  | ZmqHashblock | ZmqRawblock | P2pCmpctFast

fun as_str :: "template_source \<Rightarrow> string" where
  "as_str Startup = ''startup''"
| "as_str Longpoll = ''longpoll''"
| "as_str LongpollTimeoutFallback = ''longpoll_timeout_fallback''"
| "as_str LongpollErrorFallback = ''longpoll_error_fallback''"
| "as_str ZmqHashblock = ''zmq_hashblock''"
| "as_str ZmqRawblock = ''zmq_rawblock''"
| "as_str P2pCmpctFast = ''p2p_cmpct_fast''"

fun pending_slot :: "template_source \<Rightarrow> u8" where
  "pending_slot Startup = 1"
| "pending_slot Longpoll = 2"
| "pending_slot LongpollTimeoutFallback = 3"
| "pending_slot LongpollErrorFallback = 4"
| "pending_slot ZmqHashblock = 5"
| "pending_slot ZmqRawblock = 6"
| "pending_slot P2pCmpctFast = 7"

definition from_pending_slot :: "u8 \<Rightarrow> template_source option" where
  "from_pending_slot v =
     (if v = 1 then Some Startup
      else if v = 2 then Some Longpoll
      else if v = 3 then Some LongpollTimeoutFallback
      else if v = 4 then Some LongpollErrorFallback
      else if v = 5 then Some ZmqHashblock
      else if v = 6 then Some ZmqRawblock
      else if v = 7 then Some P2pCmpctFast
      else None)"

record job_template =
  jt_ready :: bool
  jt_job_id :: string
  jt_submit_old :: bool
  jt_prevhash :: string
  jt_prevhash_le :: string
  jt_coinbase1 :: string
  jt_coinbase2 :: string
  jt_merkle_branches :: "string list"
  jt_version :: string
  jt_nbits :: string
  jt_ntime :: string
  jt_height :: u64
  jt_transactions :: "string list"
  jt_has_witness_commitment :: bool
  jt_coinbase_value :: u64
  jt_created_at :: instant
  jt_prevhash_le_bytes :: bytes
  jt_target_le :: bytes
  jt_coinbase1_bytes :: bytes
  jt_coinbase2_bytes :: bytes
  jt_merkle_branches_le :: "bytes list"
  jt_version_u32 :: u32
  jt_nbits_u32 :: u32
  jt_vbrequired :: u32
  jt_mintime_u32 :: u32
  jt_network_difficulty :: f64
  jt_template_key :: string
  jt_template_source :: template_source
  jt_txid_partial_root :: string
  jt_witness_commitment_script :: "string option"

definition empty_template :: "instant \<Rightarrow> job_template" where
  "empty_template now =
     \<lparr>jt_ready = False, jt_job_id = ''0'', jt_submit_old = True, jt_prevhash = [],
      jt_prevhash_le = [], jt_coinbase1 = [], jt_coinbase2 = [], jt_merkle_branches = [],
      jt_version = [], jt_nbits = [], jt_ntime = [], jt_height = 0, jt_transactions = [],
      jt_has_witness_commitment = False, jt_coinbase_value = 0, jt_created_at = now,
      jt_prevhash_le_bytes = replicate 32 0, jt_target_le = replicate 32 0,
      jt_coinbase1_bytes = [], jt_coinbase2_bytes = [], jt_merkle_branches_le = [],
      jt_version_u32 = 0, jt_nbits_u32 = 0, jt_vbrequired = 0, jt_mintime_u32 = 0,
      jt_network_difficulty = 0, jt_template_key = [], jt_template_source = Startup,
      jt_txid_partial_root = [], jt_witness_commitment_script = None\<rparr>"

record gbt_tx =
  tx_data :: string
  tx_txid :: "string option"
  tx_hash :: "string option"

record gbt_coinbase_aux =
  aux_flags :: "string option"

record gbt_response =
  gbt_rules :: "string list"
  gbt_longpollid :: "string option"
  gbt_submitold :: "bool option"
  gbt_vbrequired :: u32
  gbt_version :: u32
  gbt_previousblockhash :: string
  gbt_transactions :: "gbt_tx list"
  gbt_coinbasevalue :: u64
  gbt_bits :: string
  gbt_curtime :: u64
  gbt_mintime :: "u64 option"
  gbt_height :: u64
  gbt_target :: string
  gbt_coinbaseaux :: "gbt_coinbase_aux option"
  gbt_default_witness_commitment :: "string option"

record chain_tip_state =
  tip_hash_hex :: string
  tip_height :: u64
  tip_median_time_past :: u32
  tip_nbits :: string
  tip_nbits_u32 :: u32
  tip_target_le :: bytes
  tip_version_u32 :: u32
  tip_vbrequired :: u32
  tip_network_difficulty :: f64

subsection \<open>Small functions\<close>

definition swap_words :: "externs \<Rightarrow> bytes \<Rightarrow> string result" where
  "swap_words X bs =
     (if length bs \<noteq> 32 then Inl ''prevhash must be 32 bytes''
      else Inr (hex_encode X (concat (map (\<lambda>idx. take 4 (drop (28 - idx * 4) bs)) [0..<8]))))"

definition to_little_endian :: "externs \<Rightarrow> bytes \<Rightarrow> string result" where
  "to_little_endian X bs =
     (if length bs \<noteq> 32 then Inl ''prevhash must be 32 bytes'' else Inr (hex_encode X (rev bs)))"

definition categorise_reject_reason :: "string \<Rightarrow> string" where
  "categorise_reject_reason reason =
     (if str_contains ''mrklroot'' reason \<or> str_contains ''merkle'' reason then ''merkle''
      else if str_contains ''witness'' reason then ''witness''
      else if str_contains ''cb-'' reason then ''coinbase''
      else if str_contains ''time'' reason then ''time''
      else if str_contains ''prevblk'' reason then ''stale''
      else if str_contains ''diffbits'' reason then ''difficulty''
      else ''unknown'')"

definition block_subsidy_sat :: "u64 \<Rightarrow> u64" where
  "block_subsidy_sat height =
     (let halvings = height div 210000 in
      if halvings \<ge> 64 then 0 else drop_bit (unat halvings) (50 * 100000000))"

definition supported_gbt_rules :: "network \<Rightarrow> string list" where
  "supported_gbt_rules net = [''segwit''] @ (if net = Signet then [''signet''] else [])"

text \<open>The request object of \<open>getblocktemplate\<close>: its rules and its \<open>longpollid\<close>, if any.\<close>

definition gbt_request_params :: "network \<Rightarrow> string option \<Rightarrow> string list \<times> string option" where
  "gbt_request_params net longpollid =
     (supported_gbt_rules net,
      case longpollid of None \<Rightarrow> None | Some i \<Rightarrow> if i = [] then None else Some i)"

definition is_supported_forced_rule :: "string \<Rightarrow> network \<Rightarrow> bool" where
  "is_supported_forced_rule rule net \<longleftrightarrow> rule = ''segwit'' \<or> (rule = ''signet'' \<and> net = Signet)"

fun validate_template_rules :: "string list \<Rightarrow> network \<Rightarrow> unit result" where
  "validate_template_rules [] net = Inr ()"
| "validate_template_rules (rule # rules) net =
     (case strip_prefix ''!'' rule of
        None \<Rightarrow> validate_template_rules rules net
      | Some forced_rule \<Rightarrow>
          if forced_rule = [] then Inl ''getblocktemplate returned empty forced rule''
          else if \<not> is_supported_forced_rule forced_rule net
            then Inl (''unsupported forced rule: '' @ forced_rule)
          else validate_template_rules rules net)"

definition is_gbt_older_than_current :: "u64 \<Rightarrow> job_template \<Rightarrow> bool" where
  "is_gbt_older_than_current height current \<longleftrightarrow> jt_ready current \<and> height < jt_height current"

definition should_publish_fast_empty_job_for_network :: "network \<Rightarrow> u64 \<Rightarrow> bool" where
  "should_publish_fast_empty_job_for_network net next_height \<longleftrightarrow>
     net = Bitcoin \<and> next_height mod 2016 \<noteq> 0"

definition block_hash_meets_compact_target :: "externs \<Rightarrow> string \<Rightarrow> u32 \<Rightarrow> bool result" where
  "block_hash_meets_compact_target X block_hash_hex nbits =
     rbind (with_context ''decode fast block hash'' (hex_decode X block_hash_hex)) (\<lambda>hash_be.
       if length hash_be \<noteq> 32 then Inl ''fast block hash must be 32 bytes''
       else
         rbind (ok_or (''invalid compact target '' @ fmt_08x nbits) (compact_target_to_le nbits))
           (\<lambda>target_le. Inr (leq_le256 (rev hash_be) target_le)))"

subsection \<open>Transaction hashes\<close>

text \<open>The reversed bytes of a transaction id, if it decodes to 32 of them.\<close>

definition txid_bytes :: "externs \<Rightarrow> gbt_tx \<Rightarrow> bytes option" where
  "txid_bytes X tx =
     Option.bind (tx_txid tx) (\<lambda>txid.
     Option.bind (result_ok (hex_decode X txid)) (\<lambda>bs.
       if length bs = 32 then Some (rev bs) else None))"

definition compute_txid_partial_root :: "externs \<Rightarrow> gbt_tx list \<Rightarrow> string" where
  "compute_txid_partial_root X transactions =
     (if transactions = [] then replicate 64 (CHR ''0'')
      else
        let hashes = List.map_filter (txid_bytes X) transactions in
        if hashes = [] then replicate 64 (CHR ''0'')
        else hex_encode X (rev (hd (partial_root X hashes))))"

definition wtxid_bytes :: "externs \<Rightarrow> gbt_tx \<Rightarrow> bytes result" where
  "wtxid_bytes X tx =
     rbind (ok_or ''getblocktemplate transaction missing wtxid hash'' (tx_hash tx)) (\<lambda>wtxid_hex.
     rbind (with_context ''decode wtxid'' (hex_decode X wtxid_hex)) (\<lambda>bs.
       if length bs \<noteq> 32 then Inl ''invalid wtxid length'' else Inr (rev bs)))"

definition compute_witness_commitment_script_hex :: "externs \<Rightarrow> gbt_tx list \<Rightarrow> string result" where
  "compute_witness_commitment_script_hex X txs =
     rbind (map_result (wtxid_bytes X) txs) (\<lambda>wtxids.
       let leaves = replicate 32 0 # wtxids;
           witness_merkle_root = hd (merkle_root X leaves);
           commitment = double_sha256 X (witness_merkle_root @ replicate 32 0)
       in Inr (hex_encode X ([0x6a, 0x24] @ [0xaa, 0x21, 0xa9, 0xed] @ commitment)))"

subsection \<open>\<open>build_coinbase_parts\<close>\<close>

definition payout_script_pubkey :: "externs \<Rightarrow> config \<Rightarrow> bytes result" where
  "payout_script_pubkey X cfg =
     (case payout_script_hex cfg of
        Some script_hex \<Rightarrow> with_context ''decode payout script'' (hex_decode X script_hex)
      | None \<Rightarrow>
          if \<not> parse_address X (payout_address cfg) then Inl ''parse payout address''
          else ok_or ''payout address network mismatch''
            (address_script X (network cfg) (payout_address cfg)))"

definition coinbase_tag :: "config \<Rightarrow> bytes" where
  "coinbase_tag cfg =
     map of_char (pool_tag cfg @ (if coinbase_message cfg = [] then [] else ''/'' @ coinbase_message cfg))"

definition coinbase_script_sig :: "externs \<Rightarrow> config \<Rightarrow> u64 \<Rightarrow> string option \<Rightarrow> bytes result" where
  "coinbase_script_sig X cfg height coinbase_flags =
     rbind (encode_coinbase_height height) (\<lambda>script_sig.
     rbind (case coinbase_flags of
              None \<Rightarrow> Inr script_sig
            | Some flags_hex \<Rightarrow>
                rbind (with_context ''decode coinbaseaux flags'' (hex_decode X flags_hex)) (\<lambda>flags.
                  if flags = [] then Inr script_sig else encode_script_pushdata flags script_sig))
       (\<lambda>script_sig.
     rbind (if coinbase_tag cfg = [] then Inr script_sig
            else encode_script_pushdata (coinbase_tag cfg) script_sig) (\<lambda>script_sig.
       let total_script_sig = length script_sig + extranonce1_size cfg + extranonce2_size cfg in
       if total_script_sig > 100
       then Inl (''coinbase scriptSig too long: '' @ dec_digits total_script_sig @
         '' bytes; shorten pool_tag or coinbase_message'')
       else Inr script_sig)))"

text \<open>The bytes of the transaction for a whole \<open>scriptSig\<close>.\<close>

definition coinbase_head :: "nat \<Rightarrow> bytes" where
  "coinbase_head script_len =
     encode_varint (word_of_nat script_len)
       (encode_varint 1 (u32_to_le 2) @ replicate 32 0 @ u32_to_le 0xffffffff)"

definition coinbase_outputs :: "u64 \<Rightarrow> bytes \<Rightarrow> bytes option \<Rightarrow> u64 \<Rightarrow> bytes" where
  "coinbase_outputs coinbase_value script_pubkey witness_commitment height =
     u32_to_le 0xffffffff
     @ encode_varint (if witness_commitment = None then 1 else 2) []
     @ encode_varint (word_of_nat (length script_pubkey)) (u64_to_le coinbase_value)
     @ script_pubkey
     @ (case witness_commitment of
          None \<Rightarrow> []
        | Some commitment \<Rightarrow>
            encode_varint (word_of_nat (length commitment)) (u64_to_le 0) @ commitment)
     @ u32_to_le (ucast (min (sat_sub height 1) 0xffffffff))"

definition build_coinbase_parts ::
  "externs \<Rightarrow> config \<Rightarrow> u64 \<Rightarrow> u64 \<Rightarrow> string option \<Rightarrow> string option \<Rightarrow>
   (string \<times> string \<times> bytes \<times> bool) result" where
  "build_coinbase_parts X cfg coinbase_value height coinbase_flags witness_commitment_hex =
     rbind (payout_script_pubkey X cfg) (\<lambda>script_pubkey.
     rbind (coinbase_script_sig X cfg height coinbase_flags) (\<lambda>script_sig.
     rbind (case witness_commitment_hex of
              None \<Rightarrow> Inr None
            | Some v \<Rightarrow> rbind (with_context ''decode witness commitment'' (hex_decode X v)) (\<lambda>c. Inr (Some c)))
       (\<lambda>witness_commitment.
       let has_witness_commitment = witness_commitment \<noteq> None;
           script_sig_full =
             script_sig @ replicate (extranonce1_size cfg) 0 @ replicate (extranonce2_size cfg) 0;
           coinbase_tx = coinbase_head (length script_sig_full) @ script_sig_full
             @ coinbase_outputs coinbase_value script_pubkey witness_commitment height;
           extra_start = length script_sig;
           extra_end = extra_start + extranonce1_size cfg + extranonce2_size cfg;
           script_start = 4 + varint_len 1 + (32 + 4) + varint_len (word_of_nat (length script_sig_full));
           prefix_end = script_start + extra_start;
           suffix_start = script_start + extra_end
       in Inr (hex_encode X (take prefix_end coinbase_tx), hex_encode X (drop suffix_start coinbase_tx),
               coinbase_tx, has_witness_commitment))))"

subsection \<open>\<open>build_job\<close> and \<open>build_empty_job\<close>\<close>

definition network_difficulty_of :: "externs \<Rightarrow> u32 \<Rightarrow> f64" where
  "network_difficulty_of X nbits =
     (let mantissa = f64_of_int (uint (nbits AND 0x007fffff));
          exponent = uint (drop_bit 24 nbits AND 0xff);
          target_value = mantissa * f64_powi X (Fin 256) (exponent - 3);
          diff1 = Fin 65535 * f64_powi X (Fin 2) 208
      in if 0 < target_value then diff1 / target_value else 0)"

definition gbt_tx_hash :: "externs \<Rightarrow> gbt_tx \<Rightarrow> bytes result" where
  "gbt_tx_hash X tx =
     rbind (ok_or ''getblocktemplate transaction missing txid'' (tx_txid tx)) (\<lambda>txid.
     rbind (hex_decode X txid) (\<lambda>hash.
       if length hash = 32 then Inr (rev hash) else Inl ''invalid txid length''))"

text \<open>The target is cut to its last 32 bytes, padded in front, and reversed.\<close>

definition gbt_target_le :: "externs \<Rightarrow> string \<Rightarrow> bytes result" where
  "gbt_target_le X target =
     rbind (with_context ''decode target'' (hex_decode X target)) (\<lambda>target_be.
       let target_be = (if length target_be > 32 then drop (length target_be - 32) target_be else target_be)
       in Inr (rev (replicate (32 - length target_be) 0 @ target_be)))"

definition job_witness_commitment :: "externs \<Rightarrow> gbt_response \<Rightarrow> string option result" where
  "job_witness_commitment X gbt =
     (case gbt_default_witness_commitment gbt of
        None \<Rightarrow> Inr None
      | Some core_commitment \<Rightarrow>
          rbind (compute_witness_commitment_script_hex X (gbt_transactions gbt)) (\<lambda>ours.
            if ours \<noteq> core_commitment then Inr (Some core_commitment) else Inr (Some ours)))"

text \<open>The counter of job identifiers is read when the job is complete, and then advanced.\<close>

definition build_job ::
  "externs \<Rightarrow> config \<Rightarrow> gbt_response \<Rightarrow> string \<Rightarrow> template_source \<Rightarrow> string \<Rightarrow> u64 \<Rightarrow> instant \<Rightarrow>
   job_template result" where
  "build_job X cfg gbt template_key template_source txid_partial_root job_counter now =
     rbind (job_witness_commitment X gbt) (\<lambda>computed_witness_commitment.
     rbind (build_coinbase_parts X cfg (gbt_coinbasevalue gbt) (gbt_height gbt)
         (Option.bind (gbt_coinbaseaux gbt) aux_flags) computed_witness_commitment)
       (\<lambda>(coinbase1, coinbase2, coinbase_tx, has_witness_commitment).
     rbind (map_result (gbt_tx_hash X) (gbt_transactions gbt)) (\<lambda>tx_hashes.
     rbind (hex_decode X (gbt_previousblockhash gbt)) (\<lambda>prevhash_bytes.
     rbind (swap_words X prevhash_bytes) (\<lambda>prevhash.
     rbind (to_little_endian X prevhash_bytes) (\<lambda>prevhash_le.
     rbind (gbt_target_le X (gbt_target gbt)) (\<lambda>target_le.
     rbind (with_context ''decode coinbase1'' (hex_decode X coinbase1)) (\<lambda>coinbase1_bytes.
     rbind (with_context ''decode coinbase2'' (hex_decode X coinbase2)) (\<lambda>coinbase2_bytes.
     rbind (ok_or ''parse nbits'' (u32_from_hex (gbt_bits gbt))) (\<lambda>nbits_u32.
       let branches = build_merkle_branches X (double_sha256 X coinbase_tx) tx_hashes in
       Inr \<lparr>jt_ready = True,
         jt_job_id = dec_digits (unat job_counter),
         jt_submit_old = unwrap_or True (gbt_submitold gbt),
         jt_prevhash = prevhash,
         jt_prevhash_le = prevhash_le,
         jt_coinbase1 = coinbase1,
         jt_coinbase2 = coinbase2,
         jt_merkle_branches = map (hex_encode X) branches,
         jt_version = fmt_08x (gbt_version gbt),
         jt_nbits = gbt_bits gbt,
         jt_ntime = fmt_08x (ucast (gbt_curtime gbt)),
         jt_height = gbt_height gbt,
         jt_transactions = map tx_data (gbt_transactions gbt),
         jt_has_witness_commitment = has_witness_commitment,
         jt_coinbase_value = gbt_coinbasevalue gbt,
         jt_created_at = now,
         jt_prevhash_le_bytes = rev prevhash_bytes,
         jt_target_le = target_le,
         jt_coinbase1_bytes = coinbase1_bytes,
         jt_coinbase2_bytes = coinbase2_bytes,
         jt_merkle_branches_le = branches,
         jt_version_u32 = gbt_version gbt,
         jt_nbits_u32 = nbits_u32,
         jt_vbrequired = gbt_vbrequired gbt,
         jt_mintime_u32 = ucast (unwrap_or (gbt_curtime gbt) (gbt_mintime gbt)),
         jt_network_difficulty = network_difficulty_of X nbits_u32,
         jt_template_key = template_key,
         jt_template_source = template_source,
         jt_txid_partial_root = txid_partial_root,
         jt_witness_commitment_script = computed_witness_commitment\<rparr>))))))))))"

text \<open>\<open>unix_secs\<close> is the wall clock in seconds since the epoch, cut to 32 bits by the code.\<close>

definition build_empty_job ::
  "externs \<Rightarrow> config \<Rightarrow> chain_tip_state \<Rightarrow> string \<Rightarrow> u64 \<Rightarrow> u32 \<Rightarrow> string \<Rightarrow> u64 \<Rightarrow> u64 \<Rightarrow> instant \<Rightarrow>
   job_template result" where
  "build_empty_job X cfg tip block_hash_hex next_height estimated_mtp template_key job_counter
     unix_secs now =
     (let subsidy = block_subsidy_sat next_height in
     rbind (build_coinbase_parts X cfg subsidy next_height None None)
       (\<lambda>(coinbase1, coinbase2, coinbase_tx, has_witness_commitment).
     rbind (with_context ''decode fast block announcement hash'' (hex_decode X block_hash_hex))
       (\<lambda>block_hash_bytes.
     rbind (swap_words X block_hash_bytes) (\<lambda>prevhash.
     rbind (to_little_endian X block_hash_bytes) (\<lambda>prevhash_le.
     rbind (with_context ''decode coinbase1'' (hex_decode X coinbase1)) (\<lambda>coinbase1_bytes.
     rbind (with_context ''decode coinbase2'' (hex_decode X coinbase2)) (\<lambda>coinbase2_bytes.
       let mintime_u32 = sat_add estimated_mtp 1;
           ntime_u32 = max (ucast unix_secs) mintime_u32
       in Inr \<lparr>jt_ready = True,
         jt_job_id = dec_digits (unat job_counter),
         jt_submit_old = False,
         jt_prevhash = prevhash,
         jt_prevhash_le = prevhash_le,
         jt_coinbase1 = coinbase1,
         jt_coinbase2 = coinbase2,
         jt_merkle_branches = [],
         jt_version = fmt_08x (tip_version_u32 tip),
         jt_nbits = tip_nbits tip,
         jt_ntime = fmt_08x ntime_u32,
         jt_height = next_height,
         jt_transactions = [],
         jt_has_witness_commitment = has_witness_commitment,
         jt_coinbase_value = subsidy,
         jt_created_at = now,
         jt_prevhash_le_bytes = rev block_hash_bytes,
         jt_target_le = tip_target_le tip,
         jt_coinbase1_bytes = coinbase1_bytes,
         jt_coinbase2_bytes = coinbase2_bytes,
         jt_merkle_branches_le = [],
         jt_version_u32 = tip_version_u32 tip,
         jt_nbits_u32 = tip_nbits_u32 tip,
         jt_vbrequired = tip_vbrequired tip,
         jt_mintime_u32 = mintime_u32,
         jt_network_difficulty = tip_network_difficulty tip,
         jt_template_key = template_key,
         jt_template_source = P2pCmpctFast,
         jt_txid_partial_root = replicate 64 (CHR ''0''),
         jt_witness_commitment_script = None\<rparr>)))))))"

subsection \<open>Specification: a coinbase transaction and its reader\<close>

text \<open>
  \<open>read_coinbase\<close> is the specification the bytes are checked against: the legacy serialization
  of a transaction with one input that spends nothing. It returns the \<open>scriptSig\<close>, the outputs
  (value and script) and the locktime.
\<close>

fun read_outputs :: "nat \<Rightarrow> bytes \<Rightarrow> ((nat \<times> bytes) list \<times> bytes) option" where
  "read_outputs 0 bs = Some ([], bs)"
| "read_outputs (Suc n) bs =
     Option.bind (take_push 8 bs) (\<lambda>(amount, bs).
     Option.bind (varint_dec bs) (\<lambda>(len, bs).
     Option.bind (take_push (unat len) bs) (\<lambda>(script, bs).
     Option.bind (read_outputs n bs) (\<lambda>(outs, bs).
       Some ((le_to_nat amount, script) # outs, bs)))))"

definition read_coinbase :: "bytes \<Rightarrow> (bytes \<times> (nat \<times> bytes) list \<times> nat) option" where
  "read_coinbase bs =
     Option.bind (take_push 4 bs) (\<lambda>(version, bs).
     Option.bind (varint_dec bs) (\<lambda>(inputs, bs).
     Option.bind (take_push 36 bs) (\<lambda>(outpoint, bs).
     Option.bind (varint_dec bs) (\<lambda>(len, bs).
     Option.bind (take_push (unat len) bs) (\<lambda>(script_sig, bs).
     Option.bind (take_push 4 bs) (\<lambda>(sequence, bs).
     Option.bind (varint_dec bs) (\<lambda>(n, bs).
     Option.bind (read_outputs (unat n) bs) (\<lambda>(outs, bs).
     if le_to_nat version = 2 \<and> inputs = 1 \<and> outpoint = replicate 32 0 @ replicate 4 0xff
        \<and> sequence = replicate 4 0xff \<and> length bs = 4
     then Some (script_sig, outs, le_to_nat bs) else None))))))))"

definition coinbase_tx_of :: "bytes \<Rightarrow> u64 \<Rightarrow> bytes \<Rightarrow> bytes option \<Rightarrow> u64 \<Rightarrow> bytes" where
  "coinbase_tx_of script_sig coinbase_value script_pubkey witness_commitment height =
     coinbase_head (length script_sig) @ script_sig
     @ coinbase_outputs coinbase_value script_pubkey witness_commitment height"

definition coinbase_locktime :: "u64 \<Rightarrow> nat" where
  "coinbase_locktime height = min (unat height - 1) 0xffffffff"

lemma take_push_n: "length a = n \<Longrightarrow> take_push n (a @ b) = Some (a, b)"
  by (simp add: take_push_def)

lemma varint_dec_enc: "varint_dec (encode_varint v [] @ rest) = Some (v, rest)"
  by (rule varint.dec_enc) simp

lemma varint_dec_acc:
  "varint_dec (encode_varint v out @ rest) = varint_dec (out @ encode_varint v [] @ rest)"
  by (subst encode_varint_append) simp

lemma unat_u64_length: "length xs < 2 ^ 64 \<Longrightarrow> unat (word_of_nat (length xs) :: u64) = length xs"
  by (simp add: unat_of_nat)

lemma all_ones_le: "u32_to_le 0xffffffff = replicate 4 0xff"
  by (rule le_to_nat_inj) (simp_all add: le_to_nat_all_ff)

lemma coinbase_locktime_bytes:
  "unat (ucast (min (sat_sub height 1) 0xffffffff :: u64) :: u32) = coinbase_locktime height"
proof -
  have "unat (min (sat_sub height 1) 0xffffffff :: u64) = coinbase_locktime height"
    using unat_sat_sub [of height 1] by (auto simp: coinbase_locktime_def min_def word_le_nat_alt)
  moreover have "coinbase_locktime height < 2 ^ 32" by (simp add: coinbase_locktime_def)
  ultimately show ?thesis by (simp add: unat_ucast_small)
qed

lemma read_outputs_one:
  assumes "length script < 2 ^ 64"
  shows "read_outputs (Suc n)
      (u64_to_le amount @ encode_varint (word_of_nat (length script)) [] @ script @ rest) =
    Option.bind (read_outputs n rest) (\<lambda>(outs, bs). Some ((unat amount, script) # outs, bs))"
  using assms by (simp add: take_push_n varint_dec_enc unat_u64_length del: u64_to_le_def)

definition witness_outputs :: "bytes option \<Rightarrow> (nat \<times> bytes) list" where
  "witness_outputs witness_commitment =
     (case witness_commitment of None \<Rightarrow> [] | Some commitment \<Rightarrow> [(0, commitment)])"

text \<open>Reading the transaction that the code writes returns what went into it.\<close>

lemma read_coinbase_tx_of:
  assumes "length script_sig < 2 ^ 64" and "length script_pubkey < 2 ^ 64"
    and "\<forall>c. witness_commitment = Some c \<longrightarrow> length c < 2 ^ 64"
  shows "read_coinbase (coinbase_tx_of script_sig amount script_pubkey witness_commitment height) =
    Some (script_sig, (unat amount, script_pubkey) # witness_outputs witness_commitment,
      coinbase_locktime height)"
proof -
  let ?lock = "u32_to_le (ucast (min (sat_sub height 1) 0xffffffff :: u64))"
  let ?outs = "case witness_commitment of None \<Rightarrow> []
    | Some c \<Rightarrow> encode_varint (word_of_nat (length c)) (u64_to_le 0) @ c"
  let ?pay = "u64_to_le amount @ encode_varint (word_of_nat (length script_pubkey)) [] @ script_pubkey"
  let ?n = "if witness_commitment = None then 1 else 2 :: u64"
  have tx: "coinbase_tx_of script_sig amount script_pubkey witness_commitment height =
      u32_to_le 2 @ encode_varint 1 [] @ (replicate 32 0 @ replicate 4 0xff)
      @ encode_varint (word_of_nat (length script_sig)) [] @ script_sig @ replicate 4 0xff
      @ encode_varint ?n [] @ ?pay @ ?outs @ ?lock"
    by (simp add: coinbase_tx_of_def coinbase_head_def coinbase_outputs_def all_ones_le
      encode_varint_append [of _ "u32_to_le 2 @ encode_varint 1 [] @ replicate 32 0 @ replicate 4 0xff"]
      encode_varint_append [of _ "u32_to_le 2"]
      encode_varint_append [of _ "u64_to_le amount"])
  have outs: "read_outputs (unat ?n) (?pay @ ?outs @ ?lock) =
      Some ((unat amount, script_pubkey) # witness_outputs witness_commitment, ?lock)"
  proof (cases witness_commitment)
    case None
    then show ?thesis using read_outputs_one [OF assms(2), of 0 amount ?lock]
      by (simp add: witness_outputs_def del: read_outputs.simps(2))
  next
    case (Some c)
    have two: "read_outputs 2 = read_outputs (Suc (Suc 0))"
      by (simp only: numeral_2_eq_2)
    have "encode_varint (word_of_nat (length c)) (u64_to_le 0) =
        u64_to_le 0 @ encode_varint (word_of_nat (length c)) []" by (rule encode_varint_append)
    then show ?thesis
      using read_outputs_one [OF assms(2), of 1 amount "?outs @ ?lock"]
        read_outputs_one [of c 0 0 ?lock] assms(3) Some
      by (simp add: witness_outputs_def two del: read_outputs.simps(2))
  qed
  define op :: bytes where "op = replicate 32 0 @ replicate 4 0xff"
  define seq :: bytes where "seq = replicate 4 0xff"
  define n where "n = ?n"
  define tail where "tail = ?pay @ ?outs @ ?lock"
  have len: "length op = 36" "length seq = 4" by (simp_all add: op_def seq_def)
  show ?thesis
    unfolding tx read_coinbase_def
    unfolding op_def [symmetric] n_def [symmetric] tail_def [symmetric]
    unfolding seq_def [symmetric]
    using outs [folded n_def tail_def]
    by (simp add: take_push_n varint_dec_enc unat_u64_length [OF assms(1)] len
      coinbase_locktime_bytes del: read_outputs.simps)
qed

subsection \<open>What \<open>build_coinbase_parts\<close> returns\<close>

lemma length_coinbase_head: "length (coinbase_head n) = 4 + varint_len 1 + 36 + varint_len (word_of_nat n)"
  by (simp add: coinbase_head_def length_encode_varint)

definition zeros_of :: "config \<Rightarrow> bytes" where
  "zeros_of cfg = replicate (extranonce1_size cfg + extranonce2_size cfg) 0"

definition parts_ok ::
  "externs \<Rightarrow> config \<Rightarrow> u64 \<Rightarrow> u64 \<Rightarrow> string option \<Rightarrow> (string \<times> string \<times> bytes \<times> bool) \<Rightarrow>
   bytes \<Rightarrow> bytes \<Rightarrow> bytes option \<Rightarrow> bool" where
  "parts_ok X cfg coinbase_value height flags parts script_sig script_pubkey commitment \<longleftrightarrow>
     payout_script_pubkey X cfg = Inr script_pubkey \<and>
     coinbase_script_sig X cfg height flags = Inr script_sig \<and>
     length script_sig + extranonce1_size cfg + extranonce2_size cfg \<le> 100 \<and>
     (let len = length script_sig + extranonce1_size cfg + extranonce2_size cfg;
          outs = coinbase_outputs coinbase_value script_pubkey commitment height
      in parts = (hex_encode X (coinbase_head len @ script_sig), hex_encode X outs,
           coinbase_head len @ script_sig @ zeros_of cfg @ outs, commitment \<noteq> None))"

lemma coinbase_script_sig_length:
  "coinbase_script_sig X cfg height flags = Inr s \<Longrightarrow>
   length s + extranonce1_size cfg + extranonce2_size cfg \<le> 100"
  by (auto simp: coinbase_script_sig_def rbind_Inr_iff Let_def split: if_splits)

lemma build_coinbase_parts_Inr:
  assumes "build_coinbase_parts X cfg amount height flags witness_hex = Inr parts"
  obtains script_sig script_pubkey commitment
  where "parts_ok X cfg amount height flags parts script_sig script_pubkey commitment"
    and "commitment = None \<longleftrightarrow> witness_hex = None"
    and "\<forall>w. witness_hex = Some w \<longrightarrow> (\<exists>c. commitment = Some c \<and> hex_decode X w = Inr c)"
proof -
  define cr where "cr = (case witness_hex of None \<Rightarrow> Inr None
    | Some v \<Rightarrow> rbind (with_context ''decode witness commitment'' (hex_decode X v)) (\<lambda>c. Inr (Some c)))"
  obtain spk sig commitment where
    spk: "payout_script_pubkey X cfg = Inr spk" and
    sig: "coinbase_script_sig X cfg height flags = Inr sig" and
    cm: "cr = Inr commitment"
    using assms by (auto simp: build_coinbase_parts_def rbind_Inr_iff cr_def)
  let ?len = "length sig + extranonce1_size cfg + extranonce2_size cfg"
  let ?head = "coinbase_head ?len"
  let ?outs = "coinbase_outputs amount spk commitment height"
  have z: "replicate (extranonce1_size cfg) 0 @ replicate (extranonce2_size cfg) 0 = zeros_of cfg"
    by (simp add: zeros_of_def replicate_add)
  have "parts = (hex_encode X (?head @ sig), hex_encode X ?outs, ?head @ sig @ zeros_of cfg @ ?outs,
      commitment \<noteq> None)"
    using assms spk sig cm
    by (auto simp: build_coinbase_parts_def cr_def [symmetric] Let_def z length_coinbase_head add.assoc
      zeros_of_def)
  then have "parts_ok X cfg amount height flags parts sig spk commitment"
    using spk sig coinbase_script_sig_length [OF sig] by (simp add: parts_ok_def Let_def)
  moreover have "commitment = None \<longleftrightarrow> witness_hex = None"
    and "\<forall>w. witness_hex = Some w \<longrightarrow> (\<exists>c. commitment = Some c \<and> hex_decode X w = Inr c)"
    using cm by (auto simp: cr_def rbind_Inr_iff split: option.splits)
  ultimately show thesis by (rule that)
qed

text \<open>The input script starts with the push of the block height.\<close>

lemma pushdata_prefix:
  "encode_script_pushdata data out = Inr s \<Longrightarrow> \<exists>rest. s = out @ rest"
  by (auto simp: encode_script_pushdata_def split: if_splits)

lemma coinbase_script_sig_height:
  assumes "coinbase_script_sig X cfg height flags = Inr s"
  shows "\<exists>rest. read_height (s @ r) = Some (int (unat height), rest @ r)"
proof -
  obtain h s1 s2 where h: "encode_coinbase_height height = Inr h"
    and s1: "(case flags of None \<Rightarrow> Inr h
            | Some flags_hex \<Rightarrow>
                rbind (with_context ''decode coinbaseaux flags'' (hex_decode X flags_hex)) (\<lambda>flags.
                  if flags = [] then Inr h else encode_script_pushdata flags h)) = Inr s1"
    and s2: "(if coinbase_tag cfg = [] then Inr s1
            else encode_script_pushdata (coinbase_tag cfg) s1) = Inr s2" and "s = s2"
    using assms by (auto simp: coinbase_script_sig_def rbind_Inr_iff Let_def split: if_splits)
  moreover have "\<exists>r1. s1 = h @ r1"
    using s1 by (auto simp: rbind_Inr_iff split: option.splits if_splits dest: pushdata_prefix)
  moreover have "\<exists>r2. s2 = s1 @ r2"
    using s2 by (auto split: if_splits dest: pushdata_prefix)
  ultimately obtain rest where "s = h @ rest" by auto
  with read_encode_height [OF h, of "rest @ r"] show ?thesis by auto
qed

subsection \<open>Job templates are well formed\<close>

text \<open>
  The text fields that go to miners and the binary fields that shares are checked with agree, and
  the binary fields have their sizes.
\<close>

definition jt_ok :: "externs \<Rightarrow> job_template \<Rightarrow> bool" where
  "jt_ok X job \<longleftrightarrow>
     length (jt_prevhash_le_bytes job) = 32 \<and> length (jt_target_le job) = 32 \<and>
     (jt_ready job \<longrightarrow>
        jt_version job = fmt_08x (jt_version_u32 job) \<and>
        jt_prevhash_le job = hex_encode X (jt_prevhash_le_bytes job) \<and>
        jt_coinbase1 job = hex_encode X (jt_coinbase1_bytes job) \<and>
        jt_coinbase2 job = hex_encode X (jt_coinbase2_bytes job) \<and>
        jt_merkle_branches job = map (hex_encode X) (jt_merkle_branches_le job))"

lemma empty_template_ok: "jt_ok X (empty_template now)"
  by (simp add: jt_ok_def empty_template_def)

lemma swap_words_ok: "swap_words X bs = Inr s \<Longrightarrow> length bs = 32"
  by (simp add: swap_words_def split: if_splits)

lemma gbt_target_le_length: "gbt_target_le X s = Inr t \<Longrightarrow> length t = 32"
proof -
  assume "gbt_target_le X s = Inr t"
  then obtain bs :: bytes where "t = rev (replicate (32 - length bs) 0 @ bs)" "length bs \<le> 32"
    by (auto simp: gbt_target_le_def Let_def elim!: rbind_InrE)
  then show ?thesis by simp
qed

text \<open>The halves of a coinbase, in both forms.\<close>

lemma parts_hex:
  assumes "hex_ok X" and "build_coinbase_parts X cfg v h f w = Inr (c1, c2, tx, b)"
    and "hex_decode X c1 = Inr b1" and "hex_decode X c2 = Inr b2"
  shows "c1 = hex_encode X b1 \<and> c2 = hex_encode X b2"
proof -
  obtain sig spk c where "parts_ok X cfg v h f (c1, c2, tx, b) sig spk c"
    by (rule build_coinbase_parts_Inr [OF assms(2)])
  then obtain x y where "c1 = hex_encode X x" "c2 = hex_encode X y"
    by (auto simp: parts_ok_def Let_def)
  with assms(3,4) hex_ok_roundtrip [OF assms(1), of x] hex_ok_roundtrip [OF assms(1), of y]
  show ?thesis by simp
qed

text \<open>What a job built from a template holds, as far as the other components rely on it.\<close>

definition built_from ::
  "externs \<Rightarrow> config \<Rightarrow> gbt_response \<Rightarrow> string \<Rightarrow> u64 \<Rightarrow> job_template \<Rightarrow> bool" where
  "built_from X cfg gbt key n job \<longleftrightarrow>
     (\<exists>tx_hashes prevhash_bytes coinbase_tx witness_hex.
        job_witness_commitment X gbt = Inr witness_hex \<and>
        build_coinbase_parts X cfg (gbt_coinbasevalue gbt) (gbt_height gbt)
          (Option.bind (gbt_coinbaseaux gbt) aux_flags) witness_hex =
          Inr (jt_coinbase1 job, jt_coinbase2 job, coinbase_tx, jt_has_witness_commitment job) \<and>
        map_result (gbt_tx_hash X) (gbt_transactions gbt) = Inr tx_hashes \<and>
        hex_decode X (gbt_previousblockhash gbt) = Inr prevhash_bytes \<and>
        length prevhash_bytes = 32 \<and>
        jt_prevhash_le_bytes job = rev prevhash_bytes \<and>
        jt_prevhash_le job = hex_encode X (rev prevhash_bytes) \<and>
        gbt_target_le X (gbt_target gbt) = Inr (jt_target_le job) \<and>
        hex_decode X (jt_coinbase1 job) = Inr (jt_coinbase1_bytes job) \<and>
        hex_decode X (jt_coinbase2 job) = Inr (jt_coinbase2_bytes job) \<and>
        u32_from_hex (gbt_bits gbt) = Some (jt_nbits_u32 job) \<and>
        jt_merkle_branches_le job = build_merkle_branches X (double_sha256 X coinbase_tx) tx_hashes) \<and>
     jt_ready job \<and> jt_job_id job = dec_digits (unat n) \<and> jt_height job = gbt_height gbt \<and>
     jt_version job = fmt_08x (gbt_version gbt) \<and> jt_version_u32 job = gbt_version gbt \<and>
     jt_vbrequired job = gbt_vbrequired gbt \<and> jt_nbits job = gbt_bits gbt \<and>
     jt_coinbase_value job = gbt_coinbasevalue gbt \<and> jt_template_key job = key \<and>
     jt_transactions job = map tx_data (gbt_transactions gbt) \<and>
     jt_mintime_u32 job = ucast (unwrap_or (gbt_curtime gbt) (gbt_mintime gbt)) \<and>
     jt_merkle_branches job = map (hex_encode X) (jt_merkle_branches_le job)"

lemma ok_or_Inr: "ok_or e v = Inr x \<longleftrightarrow> v = Some x"
  by (cases v) auto

lemma build_job_built_from:
  assumes "build_job X cfg gbt key src txroot n now = Inr job"
  shows "built_from X cfg gbt key n job"
proof -
  obtain wit parts where wit: "job_witness_commitment X gbt = Inr wit"
    and parts: "build_coinbase_parts X cfg (gbt_coinbasevalue gbt) (gbt_height gbt)
      (Option.bind (gbt_coinbaseaux gbt) aux_flags) wit = Inr parts"
    using assms unfolding build_job_def by (elim rbind_InrE)
  obtain c1 c2 tx b where p: "parts = (c1, c2, tx, b)" by (cases parts) auto
  note step = assms [unfolded build_job_def wit parts p rbind_simps prod.case with_context_Inr]
  from step show ?thesis
    unfolding built_from_def
    by (elim rbind_InrE)
      (auto simp: Let_def ok_or_Inr to_little_endian_def wit parts p dest: swap_words_ok split: if_splits)
qed

lemma built_from_ok:
  assumes "hex_ok X" and "built_from X cfg gbt key n job"
  shows "jt_ok X job"
  using assms(2) parts_hex [OF assms(1)]
  by (auto simp: built_from_def jt_ok_def dest: gbt_target_le_length)

text \<open>An empty job takes everything but the previous block from the chain tip.\<close>

definition built_empty ::
  "externs \<Rightarrow> config \<Rightarrow> chain_tip_state \<Rightarrow> string \<Rightarrow> u64 \<Rightarrow> u32 \<Rightarrow> string \<Rightarrow> u64 \<Rightarrow> job_template \<Rightarrow> bool" where
  "built_empty X cfg tip hash height mtp key n job \<longleftrightarrow>
     (\<exists>hash_bytes coinbase_tx.
        build_coinbase_parts X cfg (block_subsidy_sat height) height None None =
          Inr (jt_coinbase1 job, jt_coinbase2 job, coinbase_tx, jt_has_witness_commitment job) \<and>
        hex_decode X hash = Inr hash_bytes \<and> length hash_bytes = 32 \<and>
        jt_prevhash_le_bytes job = rev hash_bytes \<and>
        jt_prevhash_le job = hex_encode X (rev hash_bytes) \<and>
        hex_decode X (jt_coinbase1 job) = Inr (jt_coinbase1_bytes job) \<and>
        hex_decode X (jt_coinbase2 job) = Inr (jt_coinbase2_bytes job)) \<and>
     jt_ready job \<and> jt_job_id job = dec_digits (unat n) \<and> jt_height job = height \<and>
     jt_version job = fmt_08x (tip_version_u32 tip) \<and> jt_version_u32 job = tip_version_u32 tip \<and>
     jt_vbrequired job = tip_vbrequired tip \<and> jt_nbits job = tip_nbits tip \<and>
     jt_nbits_u32 job = tip_nbits_u32 tip \<and> jt_target_le job = tip_target_le tip \<and>
     jt_coinbase_value job = block_subsidy_sat height \<and> jt_template_key job = key \<and>
     jt_transactions job = [] \<and> jt_merkle_branches_le job = [] \<and> jt_merkle_branches job = [] \<and>
     jt_mintime_u32 job = sat_add mtp 1 \<and> \<not> jt_submit_old job"

lemma build_empty_job_built:
  assumes "build_empty_job X cfg tip hash h mtp key n secs now = Inr job"
  shows "built_empty X cfg tip hash h mtp key n job"
proof -
  obtain parts where parts: "build_coinbase_parts X cfg (block_subsidy_sat h) h None None = Inr parts"
    using assms unfolding build_empty_job_def Let_def by (elim rbind_InrE)
  obtain c1 c2 tx b where p: "parts = (c1, c2, tx, b)" by (cases parts) auto
  note step = assms [unfolded build_empty_job_def Let_def parts p rbind_simps prod.case with_context_Inr]
  from step show ?thesis
    unfolding built_empty_def
    by (elim rbind_InrE)
      (auto simp: to_little_endian_def parts p dest: swap_words_ok split: if_splits)
qed

lemma built_empty_ok:
  assumes "hex_ok X" and "length (tip_target_le tip) = 32"
    and "built_empty X cfg tip hash h mtp key n job"
  shows "jt_ok X job"
  using assms(2,3) parts_hex [OF assms(1)]
  by (auto simp: built_empty_def jt_ok_def)

text \<open>Any extranonce of the right size between the halves completes the coinbase transaction.\<close>

lemma coinbase_halves:
  assumes "hex_ok X" and "build_coinbase_parts X cfg v h f w = Inr (c1, c2, tx, b)"
    and "hex_decode X c1 = Inr b1" and "hex_decode X c2 = Inr b2"
    and "length e = extranonce1_size cfg + extranonce2_size cfg"
  obtains sig spk c where "payout_script_pubkey X cfg = Inr spk"
    and "coinbase_script_sig X cfg h f = Inr sig"
    and "b1 @ e @ b2 = coinbase_tx_of (sig @ e) v spk c h"
    and "length (sig @ e) \<le> 100" and "(c = None) = (w = None)" and "b = (c \<noteq> None)"
    and "tx = coinbase_tx_of (sig @ zeros_of cfg) v spk c h"
    and "\<forall>x. w = Some x \<longrightarrow> (\<exists>y. c = Some y \<and> hex_decode X x = Inr y)"
proof -
  obtain sig spk c where ok: "parts_ok X cfg v h f (c1, c2, tx, b) sig spk c"
    and c: "(c = None) = (w = None)" and d: "\<forall>x. w = Some x \<longrightarrow> (\<exists>y. c = Some y \<and> hex_decode X x = Inr y)"
    by (rule build_coinbase_parts_Inr [OF assms(2)])
  let ?len = "length sig + extranonce1_size cfg + extranonce2_size cfg"
  from ok have "c1 = hex_encode X (coinbase_head ?len @ sig)" "c2 = hex_encode X (coinbase_outputs v spk c h)"
    by (simp_all add: parts_ok_def Let_def)
  with assms(3,4) have "b1 = coinbase_head ?len @ sig" "b2 = coinbase_outputs v spk c h"
    by (simp_all add: hex_ok_roundtrip [OF assms(1)])
  then have "b1 @ e @ b2 = coinbase_tx_of (sig @ e) v spk c h"
    using assms(5) by (simp add: coinbase_tx_of_def add.assoc)
  moreover have "tx = coinbase_tx_of (sig @ zeros_of cfg) v spk c h"
    using ok by (simp add: parts_ok_def coinbase_tx_of_def zeros_of_def Let_def add.assoc)
  ultimately show thesis
    using that ok c d assms(5) by (simp add: parts_ok_def Let_def)
qed

lemma built_from_root:
  assumes "built_from X cfg gbt key n job" and "map_result (gbt_tx_hash X) (gbt_transactions gbt) = Inr hashes"
  shows "[apply_branches X c (jt_merkle_branches_le job)] = merkle_root X (c # hashes)"
  using assms by (auto simp: built_from_def branches_give_root)

subsection \<open>Other lemmas\<close>

lemma from_pending_slot_slot [simp]: "from_pending_slot (pending_slot src) = Some src"
  by (cases src) (simp_all add: from_pending_slot_def)

lemma pending_slot_nonzero [simp]: "pending_slot src \<noteq> 0"
  by (cases src) simp_all

lemma from_pending_slot_0 [simp]: "from_pending_slot 0 = None"
  by (simp add: from_pending_slot_def)

lemma validate_template_rules_iff:
  "validate_template_rules rules net = Inr () \<longleftrightarrow>
     (\<forall>r \<in> set rules. \<forall>f. r = CHR ''!'' # f \<longrightarrow> is_supported_forced_rule f net)"
proof (induction rules)
  case (Cons r rules)
  show ?case
  proof (cases "\<exists>f. r = CHR ''!'' # f")
    case True
    then obtain f where r: "r = CHR ''!'' # f" by blast
    then have "strip_prefix ''!'' r = Some f" by (simp add: strip_prefix_def)
    with Cons r show ?thesis by (auto simp: is_supported_forced_rule_def)
  next
    case False
    then have "strip_prefix ''!'' r = None"
      by (cases r) (auto simp: strip_prefix_def)
    with Cons False show ?thesis by auto
  qed
qed simp

text \<open>The subsidy halves every 210000 blocks, from 50 coins.\<close>

lemma unat_block_subsidy: "unat (block_subsidy_sat h) = 5000000000 div 2 ^ (unat h div 210000)"
proof (cases "64 \<le> unat h div 210000")
  case True
  then have "(2 :: nat) ^ 64 \<le> 2 ^ (unat h div 210000)" by (intro power_increasing) auto
  then have "5000000000 div (2 :: nat) ^ (unat h div 210000) = 0"
    by (intro div_less) (simp add: less_le_trans [of _ "2 ^ 64"])
  with True show ?thesis
    by (simp add: block_subsidy_sat_def Let_def word_le_nat_alt unat_div)
next
  case False
  have "unat (drop_bit k (5000000000 :: u64)) = 5000000000 div 2 ^ k" for k
    by (simp add: unsigned_drop_bit_eq) (simp add: drop_bit_eq_div)
  with False show ?thesis
    by (simp add: block_subsidy_sat_def Let_def word_le_nat_alt unat_div)
qed

subsection \<open>A valid configuration builds coinbases\<close>

lemma coinbase_tag_length:
  "config_ok X cfg \<Longrightarrow> length (coinbase_tag cfg) \<le> 65"
  by (simp add: config_ok_def coinbase_tag_def)

text \<open>Coinbase flags that say nothing: absent, or no bytes.\<close>

definition no_flags :: "externs \<Rightarrow> string option \<Rightarrow> bool" where
  "no_flags X flags \<longleftrightarrow> (\<forall>f. flags = Some f \<longrightarrow> hex_decode X f = Inr [])"

lemma coinbase_script_sig_fits:
  assumes "config_ok X cfg" and "unat h < 2 ^ 63" and "no_flags X flags"
  shows "\<exists>sig. coinbase_script_sig X cfg h flags = Inr sig"
proof -
  obtain hs where hs: "encode_coinbase_height h = Inr hs" using assms(2) encode_coinbase_height_ok by blast
  have "unat h < 256 ^ 8" using assms(2) by simp
  then have len: "length hs \<le> 10" using encode_coinbase_height_length [OF hs, of 8] by simp
  have tag: "length (coinbase_tag cfg) \<le> 65" by (rule coinbase_tag_length [OF assms(1)])
  then obtain s where s: "(if coinbase_tag cfg = [] then Inr hs
      else encode_script_pushdata (coinbase_tag cfg) hs) = Inr s" and "length s \<le> 76"
    using len by (cases "coinbase_tag cfg = []") (auto simp: encode_script_pushdata_def)
  then have "length s + extranonce1_size cfg + extranonce2_size cfg \<le> 100"
    using assms(1) by (simp add: config_ok_def)
  with hs s assms(3) show ?thesis
    by (cases flags) (simp_all add: coinbase_script_sig_def no_flags_def Let_def)
qed

lemma coinbase_script_sig_height_range:
  "coinbase_script_sig X cfg h flags = Inr sig \<Longrightarrow> unat h < 2 ^ 63"
  unfolding encode_coinbase_height_ok by (auto simp: coinbase_script_sig_def rbind_Inr_iff)

lemma payout_ok_script: "payout_ok X cfg \<Longrightarrow> \<exists>spk. payout_script_pubkey X cfg = Inr spk"
  by (auto simp: payout_ok_def payout_script_pubkey_def split: option.splits)

lemma coinbase_parts_exist_iff:
  assumes "config_ok X cfg" and "no_flags X flags"
  shows "(\<exists>parts. build_coinbase_parts X cfg v h flags w = Inr parts) \<longleftrightarrow>
    unat h < 2 ^ 63 \<and> (\<forall>x. w = Some x \<longrightarrow> (\<exists>c. hex_decode X x = Inr c))"
proof -
  obtain spk where "payout_script_pubkey X cfg = Inr spk"
    using payout_ok_script assms(1) by (auto simp: config_ok_def)
  moreover have "(\<exists>sig. coinbase_script_sig X cfg h flags = Inr sig) \<longleftrightarrow> unat h < 2 ^ 63"
    using coinbase_script_sig_fits [OF assms(1) _ assms(2)] coinbase_script_sig_height_range by blast
  ultimately show ?thesis
    by (cases w) (auto simp: build_coinbase_parts_def Let_def rbind_Inr_iff)
qed

lemma coinbase_parts_exist:
  "config_ok X cfg \<Longrightarrow> unat h < 2 ^ 63 \<Longrightarrow>
   \<exists>parts. build_coinbase_parts X cfg v h None None = Inr parts"
  using coinbase_parts_exist_iff [of X cfg None v h None] by (simp add: no_flags_def)

text \<open>Both halves decode, and the sample configuration has them.\<close>

lemma coinbase_parts_decode:
  assumes "hex_ok X" and "build_coinbase_parts X cfg v h f w = Inr (c1, c2, tx, b)"
  shows "\<exists>b1 b2. hex_decode X c1 = Inr b1 \<and> hex_decode X c2 = Inr b2"
proof -
  obtain sig spk c where "parts_ok X cfg v h f (c1, c2, tx, b) sig spk c"
    by (rule build_coinbase_parts_Inr [OF assms(2)])
  then show ?thesis by (auto simp: parts_ok_def Let_def hex_ok_roundtrip [OF assms(1)])
qed

lemma sample_parts:
  "\<exists>c1 c2 tx b b1 b2. build_coinbase_parts ref_externs sample_config 312500000 840000 None None = Inr (c1, c2, tx, b)
     \<and> hex_decode ref_externs c1 = Inr b1 \<and> hex_decode ref_externs c2 = Inr b2"
proof -
  obtain c1 c2 tx b where p: "build_coinbase_parts ref_externs sample_config 312500000 840000 None None = Inr (c1, c2, tx, b)"
    using coinbase_parts_exist [OF validate_ok [OF sample_valid], of 840000 312500000] by auto
  with coinbase_parts_decode [OF ref_hex_ok p] show ?thesis by blast
qed

lemma sample_payout: "payout_script_pubkey ref_externs sample_config = Inr [0x51]"
  by (simp add: payout_script_pubkey_def hex_digit_def Let_def)

subsection \<open>Properties\<close>

text \<open>C23 (\<open>build_coinbase_parts\<close>): whatever extranonces of the configured sizes a miner puts between
  the two halves it is sent, the bytes are a coinbase transaction: its input script starts with the
  push of the block height and has at most 100 bytes, its first output pays the whole value of the
  block to the configured script, the commitment of the template is its second output, and its
  locktime is the height minus one.\<close>

theorem coinbase_split_reads_back:
  assumes "hex_ok X"
    and "build_coinbase_parts X cfg amount height flags witness_hex = Inr (c1, c2, tx, has_witness)"
    and "hex_decode X c1 = Inr b1" and "hex_decode X c2 = Inr b2"
    and "length e1 = extranonce1_size cfg" and "length e2 = extranonce2_size cfg"
    and "payout_script_pubkey X cfg = Inr script_pubkey" and "length script_pubkey < 2 ^ 64"
    and "\<forall>w c. witness_hex = Some w \<and> hex_decode X w = Inr c \<longrightarrow> length c < 2 ^ 64"
  shows "\<exists>sig commitment. read_coinbase (b1 @ e1 @ e2 @ b2) =
      Some (sig @ e1 @ e2, (unat amount, script_pubkey) # witness_outputs commitment, coinbase_locktime height)
    \<and> (\<exists>rest. read_height sig = Some (int (unat height), rest)) \<and> length (sig @ e1 @ e2) \<le> 100
    \<and> (case witness_hex of None \<Rightarrow> commitment = None
         | Some w \<Rightarrow> \<exists>c. commitment = Some c \<and> hex_decode X w = Inr c)
    \<and> (has_witness \<longleftrightarrow> commitment \<noteq> None)"
proof -
  have len: "length (e1 @ e2) = extranonce1_size cfg + extranonce2_size cfg" using assms(5,6) by simp
  obtain sig spk c where spk: "payout_script_pubkey X cfg = Inr spk"
    and sig: "coinbase_script_sig X cfg height flags = Inr sig"
    and tx: "b1 @ (e1 @ e2) @ b2 = coinbase_tx_of (sig @ e1 @ e2) amount spk c height"
    and l: "length (sig @ e1 @ e2) \<le> 100" and c: "(c = None) = (witness_hex = None)" "has_witness = (c \<noteq> None)"
    and w: "\<forall>x. witness_hex = Some x \<longrightarrow> (\<exists>y. c = Some y \<and> hex_decode X x = Inr y)"
    by (rule coinbase_halves [OF assms(1-4) len])
  have "\<forall>y. c = Some y \<longrightarrow> length y < 2 ^ 64"
    using w c(1) assms(9) by (cases witness_hex) auto
  from read_coinbase_tx_of [of "sig @ e1 @ e2" spk c amount height, OF _ _ this]
  have "read_coinbase (b1 @ e1 @ e2 @ b2) =
      Some (sig @ e1 @ e2, (unat amount, script_pubkey) # witness_outputs c, coinbase_locktime height)"
    using l spk assms(7,8) tx by simp
  moreover have "\<exists>rest. read_height sig = Some (int (unat height), rest)"
    using coinbase_script_sig_height [OF sig, of "[]"] by auto
  moreover have "case witness_hex of None \<Rightarrow> c = None | Some w \<Rightarrow> \<exists>y. c = Some y \<and> hex_decode X w = Inr y"
    using w c(1) by (simp split: option.split)
  ultimately show ?thesis using l c(2) by blast
qed

theorem coinbase_split_reads_back_witness:
  "\<exists>b1 b2 sig. read_coinbase (b1 @ [1, 2, 3, 4] @ [5, 6, 7, 8] @ b2) =
      Some (sig @ [1, 2, 3, 4] @ [5, 6, 7, 8], [(312500000, [0x51])], 839999)"
proof -
  obtain c1 c2 tx b b1 b2 where p:
    "build_coinbase_parts ref_externs sample_config 312500000 840000 None None = Inr (c1, c2, tx, b)"
    "hex_decode ref_externs c1 = Inr b1" "hex_decode ref_externs c2 = Inr b2"
    using sample_parts by blast
  from coinbase_split_reads_back [OF ref_hex_ok p, of "[1, 2, 3, 4]" "[5, 6, 7, 8]" "[0x51]"]
  show ?thesis
    by (auto simp: sample_payout witness_outputs_def coinbase_locktime_def)
qed

text \<open>C32 (\<open>Config::load\<close>, \<open>build_coinbase_parts\<close>): with a configuration that loads, the coinbase of
  a template without coinbase flags (none, or no bytes) can be built exactly when its height is below
  \<open>2 ^ 63\<close> and its witness commitment, if it has one, is hexadecimal: the tag, the height and the
  extranonces never exceed the 100 bytes of an input script, and the payout script is known.\<close>

theorem loaded_config_builds_coinbase:
  "load_config X env fc = Some (Inr cfg) \<Longrightarrow> no_flags X flags \<Longrightarrow>
   (\<exists>parts. build_coinbase_parts X cfg amount height flags commitment = Inr parts) \<longleftrightarrow>
     unat height < 2 ^ 63 \<and> (\<forall>w. commitment = Some w \<longrightarrow> (\<exists>c. hex_decode X w = Inr c))"
  using load_config_Some validate_ok coinbase_parts_exist_iff by blast

theorem loaded_config_builds_coinbase_witness:
  "\<exists>parts. build_coinbase_parts ref_externs sample_config 312500000 840000 (Some '''') (Some ''6a24aa21a9ed'')
     = Inr parts"
  using loaded_config_builds_coinbase [OF sample_loads, of "Some ''''" 312500000 840000 "Some ''6a24aa21a9ed''"]
  by (simp add: no_flags_def hex_digit_def Let_def)

text \<open>\<open>block_subsidy_sat\<close>: the subsidy of a block is 50 coins halved once for every 210000
  blocks, and nothing from the 64th halving on.\<close>

theorem subsidy_halves:
  "unat (block_subsidy_sat h) = 5000000000 div 2 ^ (unat h div 210000)"
  by (rule unat_block_subsidy)

end
