(* ===== verification/Metrics.thy ===== *)
theory Metrics
  imports Interfaces Externs "HOL-Library.AList" "HOL-Library.Multiset"
begin

text \<open>
  \<open>src/metrics.rs\<close>: the counters, the statistics of the miners, the log of share events and the
  history of found blocks. The atomics of \<open>PoolCounters\<close> are 64-bit words that wrap; a
  \<open>HashMap\<close> is an association list with distinct keys, and where the code iterates over one the
  order is an argument. Every operation holds the lock from its first access to its last, so it
  is one step; the wall clock \<open>Utc::now()\<close> is the argument \<open>now\<close>.
\<close>

subsection \<open>\<open>PoolCounters\<close>\<close>

record pool_counters =
  pc_jobs_sent :: u64
  pc_clean_jobs_sent :: u64
  pc_notify_deduped :: u64
  pc_notify_rate_limited :: u64
  pc_duplicate_shares :: u64
  pc_reconnects_total :: u64
  pc_submitblock_accepted :: u64
  pc_submitblock_rejected :: u64
  pc_submitblock_rpc_fail :: u64
  pc_version_rolling_violations :: u64
  pc_stales_new_block :: u64
  pc_stales_expired :: u64
  pc_stales_reconnect :: u64
  pc_zmq_block_received :: u64
  pc_zmq_blocks_detected :: u64
  pc_sv2_connections_total :: u64
  pc_sv2_connections_active :: u64
  pc_sv2_connections_closed :: u64
  pc_sv2_rejected_max_connections :: u64
  pc_sv2_rejected_per_ip :: u64
  pc_sv2_handshake_success :: u64
  pc_sv2_handshake_failures :: u64
  pc_sv2_setup_accepted :: u64
  pc_sv2_setup_rejected :: u64
  pc_sv2_channels_opened :: u64
  pc_sv2_channel_open_errors :: u64
  pc_sv2_channels_closed :: u64
  pc_sv2_unsupported_messages :: u64
  pc_sv2_submit_accepted :: u64
  pc_sv2_submit_rejected :: u64
  pc_sv2_blocks_found :: u64

definition pool_counters_default :: pool_counters where
  "pool_counters_default =
     \<lparr>pc_jobs_sent = 0, pc_clean_jobs_sent = 0, pc_notify_deduped = 0,
      pc_notify_rate_limited = 0, pc_duplicate_shares = 0, pc_reconnects_total = 0,
      pc_submitblock_accepted = 0, pc_submitblock_rejected = 0,
      pc_submitblock_rpc_fail = 0, pc_version_rolling_violations = 0,
      pc_stales_new_block = 0, pc_stales_expired = 0, pc_stales_reconnect = 0,
      pc_zmq_block_received = 0, pc_zmq_blocks_detected = 0, pc_sv2_connections_total = 0,
      pc_sv2_connections_active = 0, pc_sv2_connections_closed = 0,
      pc_sv2_rejected_max_connections = 0, pc_sv2_rejected_per_ip = 0,
      pc_sv2_handshake_success = 0, pc_sv2_handshake_failures = 0,
      pc_sv2_setup_accepted = 0, pc_sv2_setup_rejected = 0, pc_sv2_channels_opened = 0,
      pc_sv2_channel_open_errors = 0, pc_sv2_channels_closed = 0,
      pc_sv2_unsupported_messages = 0, pc_sv2_submit_accepted = 0,
      pc_sv2_submit_rejected = 0, pc_sv2_blocks_found = 0\<rparr>"

definition inc_jobs_sent :: "bool \<Rightarrow> pool_counters \<Rightarrow> pool_counters" where
  "inc_jobs_sent clean c =
     (let c = c\<lparr>pc_jobs_sent := pc_jobs_sent c + 1\<rparr> in
      if clean then c\<lparr>pc_clean_jobs_sent := pc_clean_jobs_sent c + 1\<rparr> else c)"

definition inc_notify_deduped :: "pool_counters \<Rightarrow> pool_counters" where
  "inc_notify_deduped c = c\<lparr>pc_notify_deduped := pc_notify_deduped c + 1\<rparr>"

definition inc_notify_rate_limited :: "pool_counters \<Rightarrow> pool_counters" where
  "inc_notify_rate_limited c = c\<lparr>pc_notify_rate_limited := pc_notify_rate_limited c + 1\<rparr>"

definition inc_duplicate_share :: "pool_counters \<Rightarrow> pool_counters" where
  "inc_duplicate_share c = c\<lparr>pc_duplicate_shares := pc_duplicate_shares c + 1\<rparr>"

definition inc_reconnect :: "pool_counters \<Rightarrow> pool_counters" where
  "inc_reconnect c = c\<lparr>pc_reconnects_total := pc_reconnects_total c + 1\<rparr>"

definition inc_submitblock_accepted :: "pool_counters \<Rightarrow> pool_counters" where
  "inc_submitblock_accepted c = c\<lparr>pc_submitblock_accepted := pc_submitblock_accepted c + 1\<rparr>"

definition inc_submitblock_rejected :: "pool_counters \<Rightarrow> pool_counters" where
  "inc_submitblock_rejected c = c\<lparr>pc_submitblock_rejected := pc_submitblock_rejected c + 1\<rparr>"

definition inc_submitblock_rpc_fail :: "pool_counters \<Rightarrow> pool_counters" where
  "inc_submitblock_rpc_fail c = c\<lparr>pc_submitblock_rpc_fail := pc_submitblock_rpc_fail c + 1\<rparr>"

definition inc_version_rolling_violation :: "pool_counters \<Rightarrow> pool_counters" where
  "inc_version_rolling_violation c = c\<lparr>pc_version_rolling_violations := pc_version_rolling_violations c + 1\<rparr>"

definition inc_zmq_block_received :: "pool_counters \<Rightarrow> pool_counters" where
  "inc_zmq_block_received c = c\<lparr>pc_zmq_block_received := pc_zmq_block_received c + 1\<rparr>"

definition inc_zmq_blocks_detected :: "pool_counters \<Rightarrow> pool_counters" where
  "inc_zmq_blocks_detected c = c\<lparr>pc_zmq_blocks_detected := pc_zmq_blocks_detected c + 1\<rparr>"

datatype stale_reason = NewBlock | Expired | Reconnect

fun inc_stale :: "stale_reason \<Rightarrow> pool_counters \<Rightarrow> pool_counters" where
  "inc_stale NewBlock c = c\<lparr>pc_stales_new_block := pc_stales_new_block c + 1\<rparr>"
| "inc_stale Expired c = c\<lparr>pc_stales_expired := pc_stales_expired c + 1\<rparr>"
| "inc_stale Reconnect c = c\<lparr>pc_stales_reconnect := pc_stales_reconnect c + 1\<rparr>"

definition inc_sv2_connection_opened :: "pool_counters \<Rightarrow> pool_counters" where
  "inc_sv2_connection_opened c =
     c\<lparr>pc_sv2_connections_total := pc_sv2_connections_total c + 1,
       pc_sv2_connections_active := pc_sv2_connections_active c + 1\<rparr>"

definition dec_sv2_connection_active :: "pool_counters \<Rightarrow> pool_counters" where
  "dec_sv2_connection_active c =
     c\<lparr>pc_sv2_connections_active := sat_sub (pc_sv2_connections_active c) 1\<rparr>"

definition inc_sv2_connection_closed :: "pool_counters \<Rightarrow> pool_counters" where
  "inc_sv2_connection_closed c = c\<lparr>pc_sv2_connections_closed := pc_sv2_connections_closed c + 1\<rparr>"

definition inc_sv2_rejected_max_connections :: "pool_counters \<Rightarrow> pool_counters" where
  "inc_sv2_rejected_max_connections c = c\<lparr>pc_sv2_rejected_max_connections := pc_sv2_rejected_max_connections c + 1\<rparr>"

definition inc_sv2_rejected_per_ip :: "pool_counters \<Rightarrow> pool_counters" where
  "inc_sv2_rejected_per_ip c = c\<lparr>pc_sv2_rejected_per_ip := pc_sv2_rejected_per_ip c + 1\<rparr>"

definition inc_sv2_handshake_success :: "pool_counters \<Rightarrow> pool_counters" where
  "inc_sv2_handshake_success c = c\<lparr>pc_sv2_handshake_success := pc_sv2_handshake_success c + 1\<rparr>"

definition inc_sv2_handshake_failure :: "pool_counters \<Rightarrow> pool_counters" where
  "inc_sv2_handshake_failure c = c\<lparr>pc_sv2_handshake_failures := pc_sv2_handshake_failures c + 1\<rparr>"

definition inc_sv2_setup_accepted :: "pool_counters \<Rightarrow> pool_counters" where
  "inc_sv2_setup_accepted c = c\<lparr>pc_sv2_setup_accepted := pc_sv2_setup_accepted c + 1\<rparr>"

definition inc_sv2_setup_rejected :: "pool_counters \<Rightarrow> pool_counters" where
  "inc_sv2_setup_rejected c = c\<lparr>pc_sv2_setup_rejected := pc_sv2_setup_rejected c + 1\<rparr>"

definition inc_sv2_channel_opened :: "pool_counters \<Rightarrow> pool_counters" where
  "inc_sv2_channel_opened c = c\<lparr>pc_sv2_channels_opened := pc_sv2_channels_opened c + 1\<rparr>"

definition inc_sv2_channel_open_error :: "pool_counters \<Rightarrow> pool_counters" where
  "inc_sv2_channel_open_error c = c\<lparr>pc_sv2_channel_open_errors := pc_sv2_channel_open_errors c + 1\<rparr>"

definition inc_sv2_channel_closed :: "pool_counters \<Rightarrow> pool_counters" where
  "inc_sv2_channel_closed c = c\<lparr>pc_sv2_channels_closed := pc_sv2_channels_closed c + 1\<rparr>"

definition inc_sv2_unsupported_message :: "pool_counters \<Rightarrow> pool_counters" where
  "inc_sv2_unsupported_message c = c\<lparr>pc_sv2_unsupported_messages := pc_sv2_unsupported_messages c + 1\<rparr>"

definition inc_sv2_submit_accepted :: "pool_counters \<Rightarrow> pool_counters" where
  "inc_sv2_submit_accepted c = c\<lparr>pc_sv2_submit_accepted := pc_sv2_submit_accepted c + 1\<rparr>"

definition inc_sv2_submit_rejected :: "pool_counters \<Rightarrow> pool_counters" where
  "inc_sv2_submit_rejected c = c\<lparr>pc_sv2_submit_rejected := pc_sv2_submit_rejected c + 1\<rparr>"

definition inc_sv2_block_found :: "pool_counters \<Rightarrow> pool_counters" where
  "inc_sv2_block_found c = c\<lparr>pc_sv2_blocks_found := pc_sv2_blocks_found c + 1\<rparr>"

subsection \<open>The store\<close>

definition HASHES_PER_DIFF :: f64 where "HASHES_PER_DIFF = Fin 4294967296"
definition SHARE_CACHE_SIZE :: nat where "SHARE_CACHE_SIZE = 40"
definition COINBASE_MATURITY_CONFIRMATIONS :: int where "COINBASE_MATURITY_CONFIRMATIONS = 100"

record miner_stats =
  mi_worker :: string
  mi_difficulty :: f64
  mi_best_difficulty :: f64
  mi_best_submitted_difficulty :: f64
  mi_shares :: u64
  mi_rejected :: u64
  mi_stale :: u64
  mi_hashrate_gh :: f64
  mi_last_seen :: instant
  mi_notify_to_submit_ms :: f64
  mi_submit_rtt_ms :: f64
  mi_last_share_time :: "instant option"
  mi_user_agent :: "string option"
  mi_protocol :: "string option"
  mi_session_id :: "string option"

record share_event =
  se_worker :: string
  se_user_agent :: "string option"
  se_protocol :: "string option"
  se_session_id :: "string option"
  se_difficulty :: f64
  se_accepted :: bool
  se_is_block :: bool
  se_created_at :: instant
  se_job_age_secs :: u64
  se_notify_delay_ms :: u64
  se_reconnect_recent :: bool

record block_event =
  be_height :: u64
  be_hash :: string
  be_worker :: string
  be_difficulty :: f64
  be_status :: string
  be_reason :: "string option"
  be_confirmations :: "int option"
  be_in_active_chain :: "bool option"
  be_reward_status :: string
  be_created_at :: instant

record metrics_snapshot =
  sn_miners :: "miner_stats list"
  sn_total_hashrate_gh :: f64
  sn_total_blocks :: nat
  sn_accepted_blocks :: nat
  sn_confirmed_blocks :: nat
  sn_matured_blocks :: nat
  sn_global_best_difficulty :: f64
  sn_global_best_worker :: "string option"

record share_sample =
  sa_time :: instant
  sa_difficulty :: f64

record metrics_state =
  ms_miners :: "(string \<times> miner_stats) list"
  ms_events :: "share_event list"
  ms_blocks :: "block_event list"
  ms_share_samples :: "(string \<times> share_sample list) list"
  ms_global_best_difficulty :: f64
  ms_global_best_worker :: "string option"
  ms_max_events :: nat
  ms_max_blocks :: nat

record metrics_store =
  st_inner :: metrics_state
  st_miner_inactive_timeout :: int
  st_counters :: pool_counters
  st_started_at :: instant

text \<open>
  \<open>Duration::seconds(miner_inactive_timeout_secs as i64)\<close> in nanoseconds: the cast to \<open>i64\<close>
  wraps and \<open>chrono\<close> panics on a number of seconds whose milliseconds do not fit (\<open>None\<close>).
\<close>

definition duration_seconds :: "u64 \<Rightarrow> int option" where
  "duration_seconds secs =
     (let s = sint secs in
      if 9223372036854775 < s \<or> s < - 9223372036854775 then None else Some (s * 1000000000))"

definition metrics_store_new :: "nat \<Rightarrow> nat \<Rightarrow> u64 \<Rightarrow> instant \<Rightarrow> metrics_store option" where
  "metrics_store_new max_events max_blocks miner_inactive_timeout_secs now =
     map_option (\<lambda>timeout.
       \<lparr>st_inner =
          \<lparr>ms_miners = [], ms_events = [], ms_blocks = [], ms_share_samples = [],
           ms_global_best_difficulty = 0, ms_global_best_worker = None,
           ms_max_events = max_events, ms_max_blocks = max_blocks\<rparr>,
        st_miner_inactive_timeout = timeout,
        st_counters = pool_counters_default, st_started_at = now\<rparr>)
     (duration_seconds miner_inactive_timeout_secs)"

definition prune_inactive :: "int \<Rightarrow> instant \<Rightarrow> metrics_state \<Rightarrow> metrics_state" where
  "prune_inactive timeout now s =
     (let stale_workers = map fst (filter (\<lambda>(w, stats). now - mi_last_seen stats > timeout) (ms_miners s))
      in s\<lparr>ms_miners := fold AList.delete stale_workers (ms_miners s),
           ms_share_samples := fold AList.delete stale_workers (ms_share_samples s)\<rparr>)"

definition push_sample :: "share_sample \<Rightarrow> share_sample list \<Rightarrow> share_sample list" where
  "push_sample x q = (let q = q @ [x] in if length q > SHARE_CACHE_SIZE then tl q else q)"

text \<open>The estimate of a miner's rate, from two samples on.\<close>

definition hashrate_of :: "share_sample list \<Rightarrow> f64 option" where
  "hashrate_of samples =
     (if length samples \<ge> 2 then
        let window_ms = f64_of_int (max (num_milliseconds (sa_time (last samples) - sa_time (hd samples))) 1);
            sum_diff = fsum (map sa_difficulty (tl samples));
            window_sec = window_ms / Fin 1000
        in Some (sum_diff * HASHES_PER_DIFF / window_sec / Fin 1000000000)
      else None)"

definition miner_new :: "string \<Rightarrow> f64 \<Rightarrow> instant \<Rightarrow> f64 \<Rightarrow> f64 \<Rightarrow> miner_stats" where
  "miner_new worker difficulty now notify_to_submit_ms submit_rtt_ms =
     \<lparr>mi_worker = worker, mi_difficulty = difficulty, mi_best_difficulty = 0,
      mi_best_submitted_difficulty = 0, mi_shares = 0, mi_rejected = 0, mi_stale = 0,
      mi_hashrate_gh = 0, mi_last_seen = now, mi_notify_to_submit_ms = notify_to_submit_ms,
      mi_submit_rtt_ms = submit_rtt_ms, mi_last_share_time = None, mi_user_agent = None,
      mi_protocol = None, mi_session_id = None\<rparr>"

text \<open>\<open>map.entry(k).or_insert_with(|| d)\<close>: the value that is there, or the new one.\<close>

definition entry_or :: "string \<Rightarrow> 'a \<Rightarrow> (string \<times> 'a) list \<Rightarrow> 'a" where
  "entry_or k d m = (case map_of m k of None \<Rightarrow> d | Some v \<Rightarrow> v)"

definition push_event :: "share_event \<Rightarrow> metrics_state \<Rightarrow> metrics_state" where
  "push_event e s = s\<lparr>ms_events := drop_to (ms_max_events s) (ms_events s @ [e])\<rparr>"

text \<open>The change of one miner's statistics by a share.\<close>

definition stats_share ::
  "f64 \<Rightarrow> f64 \<Rightarrow> bool \<Rightarrow> int \<Rightarrow> f64 \<Rightarrow> f64 option \<Rightarrow> instant \<Rightarrow> miner_stats \<Rightarrow> miner_stats" where
  "stats_share target_difficulty share_difficulty accepted notify_to_submit_ms submit_rtt_ms
     hashrate_update now stats =
     (let stats = stats\<lparr>mi_difficulty := target_difficulty, mi_last_seen := now\<rparr>;
          stats = (if mi_best_submitted_difficulty stats < share_difficulty
                   then stats\<lparr>mi_best_submitted_difficulty := share_difficulty\<rparr> else stats);
          stats =
            (if accepted then
               (let stats = stats\<lparr>mi_shares := mi_shares stats + 1\<rparr>;
                    stats = (if mi_best_difficulty stats < share_difficulty
                             then stats\<lparr>mi_best_difficulty := share_difficulty\<rparr> else stats);
                    stats = (case hashrate_update of None \<Rightarrow> stats
                             | Some hashrate \<Rightarrow> stats\<lparr>mi_hashrate_gh := hashrate\<rparr>)
                in stats\<lparr>mi_last_share_time := Some now\<rparr>)
             else stats\<lparr>mi_rejected := mi_rejected stats + 1\<rparr>)
      in stats\<lparr>mi_notify_to_submit_ms :=
             mi_notify_to_submit_ms stats * f64_of_rat (8 / 10)
               + f64_of_int notify_to_submit_ms * f64_of_rat (2 / 10),
           mi_submit_rtt_ms :=
             mi_submit_rtt_ms stats * f64_of_rat (8 / 10) + submit_rtt_ms * f64_of_rat (2 / 10)\<rparr>)"

definition record_share ::
  "string \<Rightarrow> f64 \<Rightarrow> f64 \<Rightarrow> bool \<Rightarrow> bool \<Rightarrow> int \<Rightarrow> f64 \<Rightarrow> u64 \<Rightarrow> u64 \<Rightarrow> bool \<Rightarrow> instant \<Rightarrow>
   metrics_store \<Rightarrow> metrics_store" where
  "record_share worker target_difficulty share_difficulty accepted is_block notify_to_submit_ms
     submit_rtt_ms job_age_secs notify_delay_ms reconnect_recent now self =
     (let guard = prune_inactive (st_miner_inactive_timeout self) now (st_inner self);
          should_update_global_best = (accepted \<and> ms_global_best_difficulty guard < share_difficulty);
          samples = push_sample \<lparr>sa_time = now, sa_difficulty = target_difficulty\<rparr>
            (entry_or worker [] (ms_share_samples guard));
          (guard, hashrate_update) =
            (if accepted
             then (guard\<lparr>ms_share_samples := AList.update worker samples (ms_share_samples guard)\<rparr>,
                   hashrate_of samples)
             else (guard, None));
          stats = stats_share target_difficulty share_difficulty accepted notify_to_submit_ms
            submit_rtt_ms hashrate_update now
            (entry_or worker
              (miner_new worker target_difficulty now (f64_of_int notify_to_submit_ms) submit_rtt_ms)
              (ms_miners guard));
          guard = guard\<lparr>ms_miners := AList.update worker stats (ms_miners guard)\<rparr>;
          guard = push_event
            \<lparr>se_worker = worker, se_user_agent = mi_user_agent stats, se_protocol = mi_protocol stats,
             se_session_id = mi_session_id stats, se_difficulty = share_difficulty,
             se_accepted = accepted, se_is_block = is_block, se_created_at = now,
             se_job_age_secs = job_age_secs, se_notify_delay_ms = notify_delay_ms,
             se_reconnect_recent = reconnect_recent\<rparr> guard;
          guard = (if should_update_global_best
                   then guard\<lparr>ms_global_best_difficulty := share_difficulty,
                     ms_global_best_worker := Some worker\<rparr>
                   else guard)
      in self\<lparr>st_inner := guard\<rparr>)"

definition record_stale :: "string \<Rightarrow> stale_reason \<Rightarrow> instant \<Rightarrow> metrics_store \<Rightarrow> metrics_store" where
  "record_stale worker reason now self =
     (let self = self\<lparr>st_counters := inc_stale reason (st_counters self)\<rparr>;
          guard = prune_inactive (st_miner_inactive_timeout self) now (st_inner self);
          stats = entry_or worker (miner_new worker 0 now 0 0) (ms_miners guard);
          stats = stats\<lparr>mi_stale := mi_stale stats + 1, mi_last_seen := now\<rparr>
      in self\<lparr>st_inner := guard\<lparr>ms_miners := AList.update worker stats (ms_miners guard)\<rparr>\<rparr>)"

definition stats_seen ::
  "f64 \<Rightarrow> string option \<Rightarrow> string option \<Rightarrow> string option \<Rightarrow> instant \<Rightarrow> miner_stats \<Rightarrow> miner_stats" where
  "stats_seen difficulty user_agent session_id protocol now stats =
     (let stats = stats\<lparr>mi_last_seen := now, mi_difficulty := difficulty\<rparr>;
          stats = (if user_agent \<noteq> None then stats\<lparr>mi_user_agent := user_agent\<rparr> else stats);
          stats = (if session_id \<noteq> None then stats\<lparr>mi_session_id := session_id\<rparr> else stats)
      in if protocol \<noteq> None then stats\<lparr>mi_protocol := protocol\<rparr> else stats)"

definition record_miner_seen ::
  "string \<Rightarrow> f64 \<Rightarrow> string option \<Rightarrow> string option \<Rightarrow> string option \<Rightarrow> instant \<Rightarrow>
   metrics_store \<Rightarrow> metrics_store" where
  "record_miner_seen worker difficulty user_agent session_id protocol now self =
     (let guard = prune_inactive (st_miner_inactive_timeout self) now (st_inner self);
          stats = stats_seen difficulty user_agent session_id protocol now
            (entry_or worker (miner_new worker difficulty now 0 0) (ms_miners guard))
      in self\<lparr>st_inner := guard\<lparr>ms_miners := AList.update worker stats (ms_miners guard)\<rparr>\<rparr>)"

subsection \<open>Blocks\<close>

text \<open>\<open>iter_mut().find(p)\<close> and an update of what it found.\<close>

fun update_first :: "('a \<Rightarrow> bool) \<Rightarrow> ('a \<Rightarrow> 'a) \<Rightarrow> 'a list \<Rightarrow> 'a list option" where
  "update_first p f [] = None"
| "update_first p f (x # xs) =
     (if p x then Some (f x # xs) else map_option ((#) x) (update_first p f xs))"

definition upsert_block :: "block_event \<Rightarrow> metrics_store \<Rightarrow> metrics_store" where
  "upsert_block event self =
     (let guard = st_inner self in
      case update_first (\<lambda>item. be_hash item = be_hash event)
          (\<lambda>existing. event\<lparr>be_created_at := be_created_at existing\<rparr>) (ms_blocks guard) of
        Some blocks \<Rightarrow> self\<lparr>st_inner := guard\<lparr>ms_blocks := blocks\<rparr>\<rparr>
      | None \<Rightarrow> self\<lparr>st_inner :=
          guard\<lparr>ms_blocks := drop_to (ms_max_blocks guard) (ms_blocks guard @ [event])\<rparr>\<rparr>)"

text \<open>
  \<open>sort_by\<close> is a stable sort; an element is placed behind those that the comparison puts before
  it. \<open>gt\<close> is the comparison, largest first.
\<close>

fun insert_desc :: "('a \<Rightarrow> 'a \<Rightarrow> bool) \<Rightarrow> 'a \<Rightarrow> 'a list \<Rightarrow> 'a list" where
  "insert_desc gt x [] = [x]"
| "insert_desc gt x (y # ys) = (if gt y x then y # insert_desc gt x ys else x # y # ys)"

definition sort_desc :: "('a \<Rightarrow> 'a \<Rightarrow> bool) \<Rightarrow> 'a list \<Rightarrow> 'a list" where
  "sort_desc gt xs = foldr (insert_desc gt) xs []"

definition is_accepted_block :: "block_event \<Rightarrow> bool" where
  "is_accepted_block b \<longleftrightarrow> be_status b = ''submitted'' \<or> be_status b = ''duplicate''"

text \<open>\<open>order\<close> is the order in which the map of miners is iterated.\<close>

definition snapshot ::
  "(miner_stats list \<Rightarrow> miner_stats list) \<Rightarrow> instant \<Rightarrow> metrics_store \<Rightarrow> metrics_snapshot \<times> metrics_store" where
  "snapshot order now self =
     (let guard = prune_inactive (st_miner_inactive_timeout self) now (st_inner self);
          miners = sort_desc (\<lambda>a b. mi_hashrate_gh b < mi_hashrate_gh a) (order (map snd (ms_miners guard)));
          total_hashrate_gh = fsum (map mi_hashrate_gh miners);
          accepted_blocks = length (filter is_accepted_block (ms_blocks guard));
          confirmed_blocks = length (filter (\<lambda>b. be_in_active_chain b = Some True) (ms_blocks guard));
          matured_blocks = length (filter (\<lambda>b. be_reward_status b = ''matured'') (ms_blocks guard))
      in (\<lparr>sn_miners = miners, sn_total_hashrate_gh = total_hashrate_gh,
           sn_total_blocks = matured_blocks, sn_accepted_blocks = accepted_blocks,
           sn_confirmed_blocks = confirmed_blocks, sn_matured_blocks = matured_blocks,
           sn_global_best_difficulty = ms_global_best_difficulty guard,
           sn_global_best_worker = ms_global_best_worker guard\<rparr>,
          self\<lparr>st_inner := guard\<rparr>))"

definition recent_events :: "int \<Rightarrow> instant \<Rightarrow> metrics_store \<Rightarrow> share_event list" where
  "recent_events window now self =
     (let cutoff = now - window in
      filter (\<lambda>event. cutoff \<le> se_created_at event) (ms_events (st_inner self)))"

definition recent_blocks :: "metrics_store \<Rightarrow> block_event list" where
  "recent_blocks self =
     sort_desc (\<lambda>a b. be_created_at b < be_created_at a) (ms_blocks (st_inner self))"

definition blocks_for_confirmation :: "metrics_store \<Rightarrow> string list" where
  "blocks_for_confirmation self = map be_hash (filter is_accepted_block (ms_blocks (st_inner self)))"

definition set_chain_state :: "int \<Rightarrow> block_event \<Rightarrow> block_event" where
  "set_chain_state confirmations block =
     (let block = block\<lparr>be_confirmations := Some confirmations\<rparr> in
      if confirmations < 0 then
        block\<lparr>be_in_active_chain := Some False, be_reward_status := ''orphaned''\<rparr>
      else if confirmations \<ge> COINBASE_MATURITY_CONFIRMATIONS then
        block\<lparr>be_in_active_chain := Some True, be_reward_status := ''matured''\<rparr>
      else if confirmations > 0 then
        block\<lparr>be_in_active_chain := Some True, be_reward_status := ''confirming''\<rparr>
      else block\<lparr>be_in_active_chain := None, be_reward_status := ''pending_confirmation''\<rparr>)"

definition update_block_chain_state :: "string \<Rightarrow> int \<Rightarrow> metrics_store \<Rightarrow> metrics_store" where
  "update_block_chain_state hash confirmations self =
     (let guard = st_inner self in
      case update_first (\<lambda>block. be_hash block = hash) (set_chain_state confirmations) (ms_blocks guard) of
        None \<Rightarrow> self
      | Some blocks \<Rightarrow> self\<lparr>st_inner := guard\<lparr>ms_blocks := blocks\<rparr>\<rparr>)"

subsection \<open>\<open>BlockMonitor\<close>\<close>

text \<open>
  \<open>src/block_monitor.rs\<close>: one pass of \<open>refresh\<close>. \<open>getblockheader\<close> is the answer of the node to
  each call, in order: the confirmations, or an error that the pass only logs.
\<close>

fun monitor_refresh :: "(string \<times> int result) list \<Rightarrow> metrics_store \<Rightarrow> metrics_store" where
  "monitor_refresh [] self = self"
| "monitor_refresh ((hash, answer) # rest) self =
     monitor_refresh rest
       (case answer of
          Inr confirmations \<Rightarrow> update_block_chain_state hash confirmations self
        | Inl e \<Rightarrow> self)"

text \<open>The pass runs over the hashes that were accepted when it started.\<close>

definition block_monitor_refresh :: "(string \<Rightarrow> int result) \<Rightarrow> metrics_store \<Rightarrow> metrics_store" where
  "block_monitor_refresh getblockheader self =
     monitor_refresh (map (\<lambda>hash. (hash, getblockheader hash)) (blocks_for_confirmation self)) self"

subsection \<open>The logs\<close>

interpretation event_log: fifo_log ms_events push_event ms_max_events
  by unfold_locales (simp_all add: push_event_def drop_to_eq)

interpretation sample_log: fifo_log "\<lambda>q. q" push_sample "\<lambda>_. SHARE_CACHE_SIZE"
proof
  fix q :: "share_sample list" and x
  assume "length q \<le> SHARE_CACHE_SIZE"
  from push_pop_last_n [OF this, of x]
  show "push_sample x q = last_n SHARE_CACHE_SIZE (q @ [x])" by (simp add: push_sample_def Let_def)
qed simp

subsection \<open>Association lists\<close>

lemma set_alist_update: "set (AList.update k v m) \<subseteq> insert (k, v) (set m)"
proof (induction m)
  case (Cons p m)
  then show ?case by (cases p) (auto split: if_splits)
qed simp

lemma alist_update_ball:
  "P (k, v) \<Longrightarrow> \<forall>p \<in> set m. P p \<Longrightarrow> \<forall>p \<in> set (AList.update k v m). P p"
  using set_alist_update [of k v m] by blast

lemma alist_update_key: "map_of m k = Some w \<or> map_of m k = None \<Longrightarrow> map_of (AList.update k v m) k = Some v"
  by (simp add: update_conv')

lemma distinct_alist_update: "distinct (map fst m) \<Longrightarrow> distinct (map fst (AList.update k v m))"
  by (rule distinct_update)

lemma fold_delete_eq: "fold AList.delete ks m = filter (\<lambda>p. fst p \<notin> set ks) m"
  by (induction ks arbitrary: m) (auto simp: AList.delete_eq intro: filter_cong)

lemma entry_or_cases: "entry_or k d m = d \<or> (k, entry_or k d m) \<in> set m"
  by (auto simp: entry_or_def dest: map_of_SomeD split: option.splits)

subsection \<open>Invariant\<close>

definition miner_ok :: "f64 \<Rightarrow> string \<times> miner_stats \<Rightarrow> bool" where
  "miner_ok best p \<longleftrightarrow>
     (case p of (w, m) \<Rightarrow> mi_worker m = w \<and> mi_best_difficulty m \<le> mi_best_submitted_difficulty m
        \<and> mi_best_difficulty m \<le> best \<and> 0 \<le> mi_best_difficulty m)"

definition samples_ok :: "string \<times> share_sample list \<Rightarrow> bool" where
  "samples_ok p \<longleftrightarrow> snd p \<noteq> [] \<and> length (snd p) \<le> SHARE_CACHE_SIZE"

definition metrics_ok :: "metrics_state \<Rightarrow> bool" where
  "metrics_ok s \<longleftrightarrow>
     length (ms_events s) \<le> ms_max_events s \<and>
     length (ms_blocks s) \<le> ms_max_blocks s \<and>
     distinct (map fst (ms_miners s)) \<and> distinct (map fst (ms_share_samples s)) \<and>
     distinct (map be_hash (ms_blocks s)) \<and>
     (\<forall>p \<in> set (ms_miners s). miner_ok (ms_global_best_difficulty s) p) \<and>
     (\<forall>p \<in> set (ms_share_samples s). samples_ok p) \<and>
     0 \<le> ms_global_best_difficulty s"

lemma metrics_ok_new: "metrics_store_new e b secs now = Some st \<Longrightarrow> metrics_ok (st_inner st)"
  by (auto simp: metrics_store_new_def metrics_ok_def zero_f64_def)

lemma distinct_map_filter: "distinct (map f xs) \<Longrightarrow> distinct (map f (filter P xs))"
  by (simp add: distinct_map inj_on_def)

lemma prune_inactive_ok [bee_inv]: "metrics_ok s \<Longrightarrow> metrics_ok (prune_inactive t now s)"
  by (auto simp: metrics_ok_def prune_inactive_def Let_def fold_delete_eq distinct_map_filter)

lemma prune_inactive_frame [simp]:
  "ms_events (prune_inactive t now s) = ms_events s"
  "ms_blocks (prune_inactive t now s) = ms_blocks s"
  "ms_max_events (prune_inactive t now s) = ms_max_events s"
  "ms_max_blocks (prune_inactive t now s) = ms_max_blocks s"
  "ms_global_best_difficulty (prune_inactive t now s) = ms_global_best_difficulty s"
  "ms_global_best_worker (prune_inactive t now s) = ms_global_best_worker s"
  by (simp_all add: prune_inactive_def Let_def)

text \<open>Exactly the miners that were not heard of for longer than the timeout are dropped.\<close>

lemma prune_inactive_miners:
  assumes "distinct (map fst (ms_miners s))"
  shows "ms_miners (prune_inactive t now s) =
    filter (\<lambda>(w, m). now - mi_last_seen m \<le> t) (ms_miners s)"
proof -
  let ?stale = "\<lambda>p :: string \<times> miner_stats. now - mi_last_seen (snd p) > t"
  have "fst p \<in> fst ` {q \<in> set (ms_miners s). ?stale q} \<longleftrightarrow> ?stale p" if "p \<in> set (ms_miners s)" for p
    using assms that by (auto simp: distinct_map inj_on_def)
  then have "filter (\<lambda>p. fst p \<notin> fst ` {q \<in> set (ms_miners s). ?stale q}) (ms_miners s) =
      filter (\<lambda>p. \<not> ?stale p) (ms_miners s)"
    by (intro filter_cong) auto
  then show ?thesis
    by (simp add: prune_inactive_def Let_def fold_delete_eq case_prod_unfold not_less)
qed

text \<open>The larger of two difficulties, as the code takes it.\<close>

definition best_of :: "f64 \<Rightarrow> f64 \<Rightarrow> f64" where
  "best_of a x = (if a < x then x else a)"

lemma best_of_mono: "a \<le> b \<Longrightarrow> best_of a x \<le> best_of b x"
  by (cases a; cases b; cases x) (auto simp: best_of_def)

lemma best_of_ge: "(a :: f64) \<le> b \<Longrightarrow> a \<le> best_of b x"
  by (cases a; cases b; cases x) (auto simp: best_of_def)

lemma stats_share_best:
  "mi_best_difficulty (stats_share td sd acc nts rtt hr now m) =
     (if acc then best_of (mi_best_difficulty m) sd else mi_best_difficulty m)"
  "mi_best_submitted_difficulty (stats_share td sd acc nts rtt hr now m) =
     best_of (mi_best_submitted_difficulty m) sd"
  "mi_worker (stats_share td sd acc nts rtt hr now m) = mi_worker m"
  "mi_shares (stats_share td sd acc nts rtt hr now m) = mi_shares m + (if acc then 1 else 0)"
  "mi_rejected (stats_share td sd acc nts rtt hr now m) = mi_rejected m + (if acc then 0 else 1)"
  "mi_last_seen (stats_share td sd acc nts rtt hr now m) = now"
  by (simp_all add: stats_share_def best_of_def Let_def split: option.splits)

lemma record_share_inner:
  "st_inner (record_share w td sd acc blk nts rtt age delay rec now st) =
    (let g = prune_inactive (st_miner_inactive_timeout st) now (st_inner st);
         samples = push_sample \<lparr>sa_time = now, sa_difficulty = td\<rparr> (entry_or w [] (ms_share_samples g));
         stats = stats_share td sd acc nts rtt (if acc then hashrate_of samples else None) now
           (entry_or w (miner_new w td now (f64_of_int nts) rtt) (ms_miners g))
     in push_event
          \<lparr>se_worker = w, se_user_agent = mi_user_agent stats, se_protocol = mi_protocol stats,
           se_session_id = mi_session_id stats, se_difficulty = sd, se_accepted = acc,
           se_is_block = blk, se_created_at = now, se_job_age_secs = age,
           se_notify_delay_ms = delay, se_reconnect_recent = rec\<rparr>
          (g\<lparr>ms_share_samples :=
               (if acc then AList.update w samples (ms_share_samples g) else ms_share_samples g),
             ms_miners := AList.update w stats (ms_miners g),
             ms_global_best_difficulty :=
               (if acc then best_of (ms_global_best_difficulty g) sd else ms_global_best_difficulty g),
             ms_global_best_worker :=
               (if acc \<and> ms_global_best_difficulty g < sd then Some w else ms_global_best_worker g)\<rparr>))"
  by (simp add: record_share_def Let_def push_event_def best_of_def)

lemma miner_ok_mono: "miner_ok a p \<Longrightarrow> a \<le> b \<Longrightarrow> miner_ok b p"
  by (auto simp: miner_ok_def intro: f64_le_trans split: prod.splits)

lemma push_event_ok: "metrics_ok s \<Longrightarrow> metrics_ok (push_event e s)"
  using event_log.bounded_push [of s e]
  by (simp add: metrics_ok_def event_log.bounded_def push_event_def)

lemma push_sample_bounded:
  "length q \<le> SHARE_CACHE_SIZE \<Longrightarrow> push_sample x q \<noteq> [] \<and> length (push_sample x q) \<le> SHARE_CACHE_SIZE"
  using sample_log.bounded_push [of q x] sample_log.last_push [of q x]
  by (simp add: sample_log.bounded_def SHARE_CACHE_SIZE_def [symmetric]) (simp add: SHARE_CACHE_SIZE_def)

lemma record_share_ok [bee_inv]:
  assumes "metrics_ok (st_inner st)"
  shows "metrics_ok (st_inner (record_share w td sd acc blk nts rtt age delay rec now st))"
proof -
  define g where "g = prune_inactive (st_miner_inactive_timeout st) now (st_inner st)"
  have g: "metrics_ok g" unfolding g_def by (rule prune_inactive_ok) fact
  let ?gb = "if acc then best_of (ms_global_best_difficulty g) sd else ms_global_best_difficulty g"
  let ?m = "entry_or w (miner_new w td now (f64_of_int nts) rtt) (ms_miners g)"
  have z: "0 \<le> ms_global_best_difficulty g" using g by (simp add: metrics_ok_def)
  then have "ms_global_best_difficulty g \<le> ms_global_best_difficulty g" by auto
  then have gb: "ms_global_best_difficulty g \<le> ?gb" by (auto intro: best_of_ge)
  have m: "miner_ok (ms_global_best_difficulty g) (w, ?m)"
    using entry_or_cases [of w "miner_new w td now (f64_of_int nts) rtt" "ms_miners g"] g z
    by (auto simp: metrics_ok_def miner_ok_def miner_new_def zero_f64_def)
  have new: "miner_ok ?gb (w, stats_share td sd acc nts rtt hr now ?m)" for hr
    using m by (auto simp: miner_ok_def stats_share_best intro: best_of_mono best_of_ge)
  have s: "samples_ok (w, push_sample x (entry_or w [] (ms_share_samples g)))" for x
    using entry_or_cases [of w "[]" "ms_share_samples g"] g push_sample_bounded
    by (auto simp: metrics_ok_def samples_ok_def SHARE_CACHE_SIZE_def)
  have old: "\<forall>p \<in> set (ms_miners g). miner_ok ?gb p"
    using g miner_ok_mono [OF _ gb] by (auto simp: metrics_ok_def)
  have miners: "\<forall>p \<in> set (AList.update w (stats_share td sd acc nts rtt hr now ?m) (ms_miners g)). miner_ok ?gb p"
    for hr by (intro alist_update_ball new old)
  have samples: "\<forall>p \<in> set (AList.update w (push_sample x (entry_or w [] (ms_share_samples g)))
      (ms_share_samples g)). samples_ok p" for x
    using g by (intro alist_update_ball s) (simp add: metrics_ok_def)
  have "0 \<le> ?gb" using z gb by (rule f64_le_trans)
  then show ?thesis
    unfolding record_share_inner g_def [symmetric] Let_def
    by (intro push_event_ok)
      (use g miners samples in \<open>simp add: metrics_ok_def distinct_alist_update\<close>)
qed

lemma with_miner_ok:
  assumes "metrics_ok g" and "miner_ok (ms_global_best_difficulty g) (w, m)"
  shows "metrics_ok (g\<lparr>ms_miners := AList.update w m (ms_miners g)\<rparr>)"
proof -
  have "\<forall>p \<in> set (AList.update w m (ms_miners g)). miner_ok (ms_global_best_difficulty g) p"
    using assms by (intro alist_update_ball) (auto simp: metrics_ok_def)
  with assms(1) show ?thesis by (simp add: metrics_ok_def distinct_alist_update)
qed

lemma entry_miner_ok:
  assumes "metrics_ok g"
  shows "miner_ok (ms_global_best_difficulty g) (w, entry_or w (miner_new w d now a b) (ms_miners g))"
  using entry_or_cases [of w "miner_new w d now a b" "ms_miners g"] assms
  by (auto simp: metrics_ok_def miner_ok_def miner_new_def zero_f64_def)

lemma miner_ok_updates [simp]:
  "miner_ok b (w, m\<lparr>mi_stale := a1\<rparr>) = miner_ok b (w, m)"
  "miner_ok b (w, m\<lparr>mi_last_seen := a2\<rparr>) = miner_ok b (w, m)"
  "miner_ok b (w, m\<lparr>mi_difficulty := a3\<rparr>) = miner_ok b (w, m)"
  "miner_ok b (w, m\<lparr>mi_user_agent := a4\<rparr>) = miner_ok b (w, m)"
  "miner_ok b (w, m\<lparr>mi_session_id := a5\<rparr>) = miner_ok b (w, m)"
  "miner_ok b (w, m\<lparr>mi_protocol := a6\<rparr>) = miner_ok b (w, m)"
  by (simp_all add: miner_ok_def)

lemma record_stale_ok [bee_inv]:
  assumes "metrics_ok (st_inner st)"
  shows "metrics_ok (st_inner (record_stale w r now st))"
proof -
  define g where "g = prune_inactive (st_miner_inactive_timeout st) now (st_inner st)"
  have g: "metrics_ok g" unfolding g_def by (rule prune_inactive_ok) fact
  have "st_inner (record_stale w r now st) = g\<lparr>ms_miners := AList.update w
      ((entry_or w (miner_new w 0 now 0 0) (ms_miners g))
        \<lparr>mi_stale := mi_stale (entry_or w (miner_new w 0 now 0 0) (ms_miners g)) + 1,
         mi_last_seen := now\<rparr>) (ms_miners g)\<rparr>"
    by (simp add: record_stale_def Let_def g_def)
  also have "metrics_ok \<dots>" by (intro with_miner_ok g) (simp add: entry_miner_ok g)
  finally show ?thesis .
qed

lemma record_miner_seen_ok [bee_inv]:
  assumes "metrics_ok (st_inner st)"
  shows "metrics_ok (st_inner (record_miner_seen w d ua sid pr now st))"
proof -
  define g where "g = prune_inactive (st_miner_inactive_timeout st) now (st_inner st)"
  define m where "m = entry_or w (miner_new w d now 0 0) (ms_miners g)"
  have g: "metrics_ok g" unfolding g_def by (rule prune_inactive_ok) fact
  have m: "miner_ok (ms_global_best_difficulty g) (w, m)" unfolding m_def by (rule entry_miner_ok [OF g])
  have "st_inner (record_miner_seen w d ua sid pr now st) =
      g\<lparr>ms_miners := AList.update w (stats_seen d ua sid pr now m) (ms_miners g)\<rparr>"
    by (simp add: record_miner_seen_def Let_def g_def m_def)
  also have "metrics_ok \<dots>"
    by (intro with_miner_ok g) (simp add: stats_seen_def Let_def m)
  finally show ?thesis .
qed

lemma snapshot_inner: "st_inner (snd (snapshot order now st)) =
    prune_inactive (st_miner_inactive_timeout st) now (st_inner st)"
  by (simp add: snapshot_def Let_def)

lemma snapshot_ok [bee_inv]:
  "metrics_ok (st_inner st) \<Longrightarrow> metrics_ok (st_inner (snd (snapshot order now st)))"
  by (simp add: snapshot_inner prune_inactive_ok)

subsection \<open>Blocks\<close>

lemma update_first_None: "update_first p f xs = None \<longleftrightarrow> (\<forall>x \<in> set xs. \<not> p x)"
  by (induction xs) auto

lemma update_first_Some:
  "update_first p f xs = Some ys \<Longrightarrow>
   \<exists>as x bs. xs = as @ x # bs \<and> p x \<and> (\<forall>a \<in> set as. \<not> p a) \<and> ys = as @ f x # bs"
proof (induction xs arbitrary: ys)
  case (Cons x xs)
  show ?case
  proof (cases "p x")
    case True
    with Cons.prems show ?thesis by (intro exI [of _ "[]"]) auto
  next
    case False
    with Cons.prems obtain zs where z: "update_first p f xs = Some zs" "ys = x # zs" by auto
    from Cons.IH [OF z(1)] obtain as y bs where
      "xs = as @ y # bs \<and> p y \<and> (\<forall>a \<in> set as. \<not> p a) \<and> zs = as @ f y # bs" by blast
    with False z(2) show ?thesis by (intro exI [of _ "x # as"] exI [of _ y] exI [of _ bs]) auto
  qed
qed simp

lemma update_first_map:
  "update_first p f xs = Some ys \<Longrightarrow> (\<And>x. p x \<Longrightarrow> g (f x) = g x) \<Longrightarrow> map g ys = map g xs"
  by (auto dest!: update_first_Some)

lemma drop_to_set: "set (drop_to n xs) \<subseteq> set xs"
  by (simp add: drop_to_eq set_last_n)

lemma upsert_block_blocks:
  "ms_blocks (st_inner (upsert_block e st)) =
    (case update_first (\<lambda>item. be_hash item = be_hash e)
          (\<lambda>existing. e\<lparr>be_created_at := be_created_at existing\<rparr>) (ms_blocks (st_inner st)) of
       Some blocks \<Rightarrow> blocks
     | None \<Rightarrow> last_n (ms_max_blocks (st_inner st)) (ms_blocks (st_inner st) @ [e]))"
  by (simp add: upsert_block_def Let_def drop_to_eq split: option.splits)

lemma upsert_block_inner:
  "st_inner (upsert_block e st) =
     (st_inner st)\<lparr>ms_blocks := ms_blocks (st_inner (upsert_block e st))\<rparr>"
  by (simp add: upsert_block_def Let_def split: option.splits)

lemma metrics_ok_blocks:
  "metrics_ok s \<Longrightarrow> length bs \<le> ms_max_blocks s \<Longrightarrow> distinct (map be_hash bs) \<Longrightarrow> metrics_ok (s\<lparr>ms_blocks := bs\<rparr>)"
  by (simp add: metrics_ok_def)

lemma last_n_map: "map f (last_n n xs) = last_n n (map f xs)"
  by (simp add: last_n_def drop_map)

lemma upsert_block_ok [bee_inv]:
  assumes "metrics_ok (st_inner st)"
  shows "metrics_ok (st_inner (upsert_block e st))"
proof -
  let ?bs = "ms_blocks (st_inner st)"
  let ?u = "update_first (\<lambda>item. be_hash item = be_hash e)
          (\<lambda>existing. e\<lparr>be_created_at := be_created_at existing\<rparr>) ?bs"
  have "length (ms_blocks (st_inner (upsert_block e st))) \<le> ms_max_blocks (st_inner st) \<and>
      distinct (map be_hash (ms_blocks (st_inner (upsert_block e st))))"
  proof (cases ?u)
    case None
    then have "be_hash e \<notin> set (map be_hash ?bs)" by (auto simp: update_first_None)
    with None assms show ?thesis
      by (auto simp: upsert_block_blocks last_n_map metrics_ok_def intro!: distinct_last_n)
  next
    case (Some ys)
    have m: "map be_hash ys = map be_hash ?bs" by (rule update_first_map [OF Some]) simp
    then have "length ys = length ?bs" by (metis length_map)
    with Some m assms show ?thesis by (simp add: upsert_block_blocks metrics_ok_def)
  qed
  then show ?thesis
    using metrics_ok_blocks [OF assms] by (subst upsert_block_inner) simp
qed

lemma set_chain_state_hash [simp]: "be_hash (set_chain_state c b) = be_hash b"
  by (simp add: set_chain_state_def Let_def)

lemma update_block_chain_state_ok [bee_inv]:
  assumes "metrics_ok (st_inner st)"
  shows "metrics_ok (st_inner (update_block_chain_state h c st))"
proof (cases "update_first (\<lambda>b. be_hash b = h) (set_chain_state c) (ms_blocks (st_inner st))")
  case None
  with assms show ?thesis by (simp add: update_block_chain_state_def Let_def)
next
  case (Some ys)
  have m: "map be_hash ys = map be_hash (ms_blocks (st_inner st))"
    by (rule update_first_map [OF Some]) simp
  then have "length ys = length (ms_blocks (st_inner st))" by (metis length_map)
  with assms Some m show ?thesis
    by (simp add: update_block_chain_state_def Let_def metrics_ok_blocks metrics_ok_def)
qed

lemma monitor_refresh_ok [bee_inv]:
  "metrics_ok (st_inner st) \<Longrightarrow> metrics_ok (st_inner (monitor_refresh answers st))"
  by (induction answers st rule: monitor_refresh.induct)
    (auto simp: update_block_chain_state_ok split: sum.splits)

text \<open>The chain state of a block is the one that its last known confirmations give it.\<close>

definition chain_ok :: "block_event \<Rightarrow> bool" where
  "chain_ok b \<longleftrightarrow>
     (case be_confirmations b of
        None \<Rightarrow> be_in_active_chain b = None \<and> be_reward_status b \<noteq> ''matured''
      | Some c \<Rightarrow> set_chain_state c b = b)"

lemma set_chain_state_chain_ok: "chain_ok (set_chain_state c b)"
  by (simp add: chain_ok_def set_chain_state_def Let_def)

lemma chain_ok_created [simp]: "chain_ok (b\<lparr>be_created_at := t\<rparr>) = chain_ok b"
proof -
  have "set_chain_state c (b\<lparr>be_created_at := t\<rparr>) = (set_chain_state c b)\<lparr>be_created_at := t\<rparr>" for c
    by (simp add: set_chain_state_def Let_def)
  moreover have "(set_chain_state c b)\<lparr>be_created_at := t\<rparr> = b\<lparr>be_created_at := t\<rparr> \<longleftrightarrow> set_chain_state c b = b" for c
    by (cases b) (auto simp: set_chain_state_def Let_def)
  ultimately show ?thesis by (simp add: chain_ok_def split: option.splits)
qed

lemma chain_ok_status:
  assumes "chain_ok b"
  shows "be_reward_status b = ''matured'' \<longleftrightarrow> (\<exists>c. be_confirmations b = Some c \<and> c \<ge> COINBASE_MATURITY_CONFIRMATIONS)"
    and "be_in_active_chain b = Some True \<longleftrightarrow> (\<exists>c. be_confirmations b = Some c \<and> c > 0)"
proof -
  have st: "be_reward_status (set_chain_state c b) = ''matured'' \<longleftrightarrow> c \<ge> COINBASE_MATURITY_CONFIRMATIONS"
    "be_in_active_chain (set_chain_state c b) = Some True \<longleftrightarrow> c > 0" for c
    by (auto simp: set_chain_state_def Let_def COINBASE_MATURITY_CONFIRMATIONS_def)
  have "(be_reward_status b = ''matured'' \<longleftrightarrow> (\<exists>c. be_confirmations b = Some c \<and> c \<ge> COINBASE_MATURITY_CONFIRMATIONS))
      \<and> (be_in_active_chain b = Some True \<longleftrightarrow> (\<exists>c. be_confirmations b = Some c \<and> c > 0))"
  proof (cases "be_confirmations b")
    case None
    with assms show ?thesis by (simp add: chain_ok_def)
  next
    case (Some c)
    with assms have "set_chain_state c b = b" by (simp add: chain_ok_def)
    with st [of c] Some show ?thesis by simp
  qed
  then show "be_reward_status b = ''matured'' \<longleftrightarrow> (\<exists>c. be_confirmations b = Some c \<and> c \<ge> COINBASE_MATURITY_CONFIRMATIONS)"
    and "be_in_active_chain b = Some True \<longleftrightarrow> (\<exists>c. be_confirmations b = Some c \<and> c > 0)" by simp_all
qed

definition chains_ok :: "metrics_state \<Rightarrow> bool" where
  "chains_ok s \<longleftrightarrow> (\<forall>b \<in> set (ms_blocks s). chain_ok b)"

lemma update_first_ball:
  "update_first p f xs = Some ys \<Longrightarrow> \<forall>x \<in> set xs. P x \<Longrightarrow> (\<And>x. P x \<Longrightarrow> P (f x)) \<Longrightarrow> \<forall>y \<in> set ys. P y"
  by (auto dest!: update_first_Some)

lemma upsert_block_chains [bee_inv]:
  assumes "chains_ok (st_inner st)" and "chain_ok e"
  shows "chains_ok (st_inner (upsert_block e st))"
proof (cases "update_first (\<lambda>item. be_hash item = be_hash e)
          (\<lambda>existing. e\<lparr>be_created_at := be_created_at existing\<rparr>) (ms_blocks (st_inner st))")
  case None
  with assms set_last_n [of "ms_max_blocks (st_inner st)" "ms_blocks (st_inner st) @ [e]"] show ?thesis
    by (auto simp: chains_ok_def upsert_block_blocks)
next
  case (Some ys)
  have "\<forall>y \<in> set ys. chain_ok y"
    by (rule update_first_ball [OF Some]) (use assms in \<open>simp_all add: chains_ok_def\<close>)
  with Some show ?thesis by (simp add: chains_ok_def upsert_block_blocks)
qed

lemma update_block_chain_state_chains [bee_inv]:
  assumes "chains_ok (st_inner st)"
  shows "chains_ok (st_inner (update_block_chain_state h c st))"
proof (cases "update_first (\<lambda>b. be_hash b = h) (set_chain_state c) (ms_blocks (st_inner st))")
  case None
  with assms show ?thesis by (simp add: update_block_chain_state_def Let_def)
next
  case (Some ys)
  have "\<forall>y \<in> set ys. chain_ok y"
    by (rule update_first_ball [OF Some]) (use assms set_chain_state_chain_ok in \<open>simp_all add: chains_ok_def\<close>)
  with Some show ?thesis by (simp add: chains_ok_def update_block_chain_state_def Let_def)
qed

lemma monitor_refresh_chains [bee_inv]:
  "chains_ok (st_inner st) \<Longrightarrow> chains_ok (st_inner (monitor_refresh answers st))"
  by (induction answers st rule: monitor_refresh.induct)
    (auto simp: update_block_chain_state_chains split: sum.splits)

lemma record_frame_blocks [simp]:
  "ms_blocks (st_inner (record_share w td sd acc blk nts rtt age delay rec now st)) = ms_blocks (st_inner st)"
  "ms_blocks (st_inner (record_stale w r now st)) = ms_blocks (st_inner st)"
  "ms_blocks (st_inner (record_miner_seen w d ua sid pr now st)) = ms_blocks (st_inner st)"
  "ms_blocks (st_inner (snd (snapshot order now st))) = ms_blocks (st_inner st)"
  by (simp_all add: record_share_inner record_stale_def record_miner_seen_def snapshot_inner Let_def
    push_event_def)

subsection \<open>Sorting\<close>

lemma mset_insert_desc: "mset (insert_desc gt x xs) = add_mset x (mset xs)"
  by (induction xs) auto

lemma mset_sort_desc: "mset (sort_desc gt xs) = mset xs"
  by (induction xs) (simp_all add: sort_desc_def mset_insert_desc)

lemma set_insert_desc: "set (insert_desc gt x xs) = insert x (set xs)"
  by (induction xs) auto

lemma sorted_insert_desc:
  assumes "\<And>a b. gt a b \<Longrightarrow> \<not> gt b a" and "\<And>a b c. \<not> gt b a \<Longrightarrow> \<not> gt c b \<Longrightarrow> \<not> gt c a"
  shows "sorted_wrt (\<lambda>a b. \<not> gt b a) xs \<Longrightarrow> sorted_wrt (\<lambda>a b. \<not> gt b a) (insert_desc gt x xs)"
proof (induction xs)
  case (Cons y ys)
  show ?case
  proof (cases "gt y x")
    case True
    with Cons assms(1) [OF True] show ?thesis by (auto simp: set_insert_desc)
  next
    case False
    have "\<not> gt z x" if "z \<in> set ys" for z
      using assms(2) [OF False, of z] that Cons.prems by simp
    with False Cons.prems show ?thesis by simp
  qed
qed simp

lemma sorted_sort_desc:
  assumes "\<And>a b. gt a b \<Longrightarrow> \<not> gt b a" and "\<And>a b c. \<not> gt b a \<Longrightarrow> \<not> gt c b \<Longrightarrow> \<not> gt c a"
  shows "sorted_wrt (\<lambda>a b. \<not> gt b a) (sort_desc gt xs)"
  by (induction xs) (simp_all add: sort_desc_def sorted_insert_desc [OF assms])

subsection \<open>Reachable stores\<close>

text \<open>
  Every operation of the store, in any order and with any arguments. A block that is inserted
  carries no chain state yet, as both servers create it.
\<close>

inductive metrics_step :: "metrics_store \<Rightarrow> metrics_store \<Rightarrow> bool" where
  step_share: "metrics_step st (record_share w td sd acc blk nts rtt age delay rec now st)"
| step_stale: "metrics_step st (record_stale w r now st)"
| step_seen: "metrics_step st (record_miner_seen w d ua sid pr now st)"
| step_snapshot: "metrics_step st (snd (snapshot order now st))"
| step_upsert: "be_confirmations e = None \<Longrightarrow> be_in_active_chain e = None \<Longrightarrow>
    be_reward_status e \<noteq> ''matured'' \<Longrightarrow> metrics_step st (upsert_block e st)"
| step_refresh: "metrics_step st (block_monitor_refresh answers st)"
| step_counters: "metrics_step st (st\<lparr>st_counters := c\<rparr>)"

inductive_cases metrics_stepE: "metrics_step st st'"

inductive metrics_reachable :: "nat \<Rightarrow> nat \<Rightarrow> u64 \<Rightarrow> metrics_store \<Rightarrow> bool" for e b secs where
  reach_new: "metrics_store_new e b secs now = Some st \<Longrightarrow> metrics_reachable e b secs st"
| reach_step: "metrics_reachable e b secs st \<Longrightarrow> metrics_step st st' \<Longrightarrow> metrics_reachable e b secs st'"

lemma metrics_step_ok:
  "metrics_step st st' \<Longrightarrow> metrics_ok (st_inner st) \<Longrightarrow> metrics_ok (st_inner st')"
  by (erule metrics_stepE) (simp_all add: bee_inv block_monitor_refresh_def)

lemma metrics_step_chains:
  "metrics_step st st' \<Longrightarrow> chains_ok (st_inner st) \<Longrightarrow> chains_ok (st_inner st')"
  by (erule metrics_stepE)
    (simp_all add: bee_inv block_monitor_refresh_def chain_ok_def, simp_all add: chains_ok_def)

lemma metrics_step_caps:
  "metrics_step st st' \<Longrightarrow> ms_max_events (st_inner st') = ms_max_events (st_inner st) \<and>
     ms_max_blocks (st_inner st') = ms_max_blocks (st_inner st)"
proof (erule metrics_stepE)
  have "ms_max_events (st_inner (monitor_refresh as s)) = ms_max_events (st_inner s) \<and>
     ms_max_blocks (st_inner (monitor_refresh as s)) = ms_max_blocks (st_inner s)" for as s
    by (induction as s rule: monitor_refresh.induct)
      (auto simp: update_block_chain_state_def Let_def split: sum.splits option.splits)
  then show "st' = block_monitor_refresh answers st \<Longrightarrow> ms_max_events (st_inner st') = ms_max_events (st_inner st) \<and>
     ms_max_blocks (st_inner st') = ms_max_blocks (st_inner st)" for answers
    by (simp add: block_monitor_refresh_def)
qed (simp_all add: record_share_inner record_stale_def record_miner_seen_def snapshot_inner
  upsert_block_def push_event_def Let_def split: option.splits)

lemma metrics_reachable_inv:
  "metrics_reachable e b secs st \<Longrightarrow> metrics_ok (st_inner st) \<and> chains_ok (st_inner st) \<and>
     ms_max_events (st_inner st) = e \<and> ms_max_blocks (st_inner st) = b"
proof (induction rule: metrics_reachable.induct)
  case (reach_new now st)
  then show ?case
    using metrics_ok_new [OF reach_new] by (auto simp: metrics_store_new_def chains_ok_def)
next
  case (reach_step st st')
  then show ?case using metrics_step_ok metrics_step_chains metrics_step_caps by metis
qed

subsection \<open>Properties\<close>

text \<open>C30 (\<open>MetricsStore\<close>): whatever the two servers, the API and the block monitor do in any order,
  the event log and the block history keep their bounds, no worker, sample window or block hash
  occurs twice, no worker's best accepted share exceeds its best submitted share or the global
  best, every sample window has one to forty samples, and every block shows the chain state of
  its last known confirmations.\<close>

theorem metrics_store_invariant:
  "metrics_reachable e b secs st \<Longrightarrow>
   metrics_ok (st_inner st) \<and> chains_ok (st_inner st) \<and>
   length (ms_events (st_inner st)) \<le> e \<and> length (ms_blocks (st_inner st)) \<le> b"
  using metrics_reachable_inv [of e b secs st] by (auto simp: metrics_ok_def)

lemma sample_store: "\<exists>st. metrics_store_new 128 8 30 0 = Some st"
  by (simp add: metrics_store_new_def duration_seconds_def)

theorem metrics_store_invariant_witness:
  "\<exists>st. metrics_reachable 128 8 30 st \<and> length (ms_events (st_inner st)) \<le> 128 \<and> ms_events (st_inner st) \<noteq> []"
proof -
  obtain st0 where "metrics_store_new 128 8 30 0 = Some st0" using sample_store by blast
  then have "metrics_reachable 128 8 30 st0" by (rule reach_new)
  then have r: "metrics_reachable 128 8 30 (record_share ''w'' 1 (Fin 2) True False 0 0 0 0 False 5 st0)"
    by (rule reach_step) (rule step_share)
  have "ms_max_events (st_inner st0) = 128"
    using metrics_reachable_inv [OF \<open>metrics_reachable 128 8 30 st0\<close>] by simp
  then have "ms_events (st_inner (record_share ''w'' 1 (Fin 2) True False 0 0 0 0 False 5 st0)) \<noteq> []"
    by (simp add: record_share_inner Let_def push_event_def drop_to_eq last_n_snoc)
  with metrics_store_invariant [OF r] r show ?thesis by blast
qed

text \<open>C36 (\<open>snapshot\<close>, \<open>update_block_chain_state\<close>): in a snapshot a block counts as matured exactly when
  its last known confirmations are at least 100 and as confirmed when they are positive, so there
  are never more matured blocks than confirmed ones; the snapshot lists the miners that were seen
  within the timeout, each once, and keeps the global best.\<close>

theorem snapshot_counts:
  assumes "metrics_reachable e b secs st" and "snapshot order now st = (sn, st')"
    and "\<forall>xs. mset (order xs) = mset xs"
  shows "sn_matured_blocks sn =
      length (filter (\<lambda>blk. \<exists>c. be_confirmations blk = Some c \<and> 100 \<le> c) (ms_blocks (st_inner st))) \<and>
    sn_confirmed_blocks sn =
      length (filter (\<lambda>blk. \<exists>c. be_confirmations blk = Some c \<and> 0 < c) (ms_blocks (st_inner st))) \<and>
    sn_matured_blocks sn \<le> sn_confirmed_blocks sn \<and>
    mset (sn_miners sn) = mset (map snd (filter (\<lambda>(w, m).
      now - mi_last_seen m \<le> st_miner_inactive_timeout st) (ms_miners (st_inner st)))) \<and>
    sn_global_best_difficulty sn = ms_global_best_difficulty (st_inner st)"
proof -
  have ok: "metrics_ok (st_inner st)" "chains_ok (st_inner st)"
    using metrics_reachable_inv [OF assms(1)] by auto
  have m: "filter (\<lambda>blk. be_reward_status blk = ''matured'') (ms_blocks (st_inner st)) =
      filter (\<lambda>blk. \<exists>c. be_confirmations blk = Some c \<and> 100 \<le> c) (ms_blocks (st_inner st))"
    using ok(2) chain_ok_status(1)
    by (intro filter_cong) (auto simp: chains_ok_def COINBASE_MATURITY_CONFIRMATIONS_def)
  have c: "filter (\<lambda>blk. be_in_active_chain blk = Some True) (ms_blocks (st_inner st)) =
      filter (\<lambda>blk. \<exists>c. be_confirmations blk = Some c \<and> 0 < c) (ms_blocks (st_inner st))"
    using ok(2) chain_ok_status(2) by (intro filter_cong) (auto simp: chains_ok_def)
  have le: "length (filter (\<lambda>blk. \<exists>c. be_confirmations blk = Some c \<and> 100 \<le> c) bs) \<le>
      length (filter (\<lambda>blk. \<exists>c. be_confirmations blk = Some c \<and> 0 < c) bs)" for bs
    by (induction bs) auto
  have "distinct (map fst (ms_miners (st_inner st)))" using ok(1) by (simp add: metrics_ok_def)
  note pm = prune_inactive_miners [OF this]
  have "sn_matured_blocks sn = length (filter (\<lambda>blk. be_reward_status blk = ''matured'') (ms_blocks (st_inner st)))"
    "sn_confirmed_blocks sn = length (filter (\<lambda>blk. be_in_active_chain blk = Some True) (ms_blocks (st_inner st)))"
    "sn_global_best_difficulty sn = ms_global_best_difficulty (st_inner st)"
    "mset (sn_miners sn) = mset (map snd (ms_miners (prune_inactive (st_miner_inactive_timeout st) now (st_inner st))))"
    using assms(2,3) by (auto simp: snapshot_def Let_def mset_sort_desc simp del: mset_map)
  then show ?thesis using le by (simp only: m c pm) simp
qed

theorem snapshot_counts_witness:
  "\<exists>st sn st'. snapshot rev 5 st = (sn, st') \<and> sn_matured_blocks sn \<le> sn_confirmed_blocks sn"
proof -
  obtain st0 where "metrics_store_new 128 8 30 0 = Some st0" using sample_store by blast
  then have r: "metrics_reachable 128 8 30 st0" by (rule reach_new)
  obtain sn st' where s: "snapshot rev 5 st0 = (sn, st')" by fastforce
  from snapshot_counts [OF r s] s show ?thesis by auto
qed

end
