(* ===== verification/Json.thy ===== *)
theory Json
  imports RustStd Float64
begin

text \<open>
  \<open>serde_json::Value\<close>: what the program reads of a value and how it builds one.
\<close>

subsection \<open>JSON values\<close>

text \<open>\<open>serde_json::Value\<close>; the numbers are integers or floating-point numbers.\<close>

datatype json =
    JNull
  | JBool bool
  | JInt int
  | JFloat f64
  | JStr string
  | JArr "json list"
  | JObj "(string \<times> json) list"

fun as_str_opt :: "json \<Rightarrow> string option" where
  "as_str_opt (JStr s) = Some s"
| "as_str_opt v = None"

fun as_array :: "json \<Rightarrow> json list option" where
  "as_array (JArr vs) = Some vs"
| "as_array v = None"

fun as_object :: "json \<Rightarrow> (string \<times> json) list option" where
  "as_object (JObj m) = Some m"
| "as_object v = None"

fun as_f64 :: "json \<Rightarrow> f64 option" where
  "as_f64 (JInt n) = Some (f64_of_int n)"
| "as_f64 (JFloat d) = Some d"
| "as_f64 v = None"

text \<open>\<open>params.get(i)\<close>.\<close>

definition nth_opt :: "'a list \<Rightarrow> nat \<Rightarrow> 'a option" where
  "nth_opt xs i = (if i < length xs then Some (xs ! i) else None)"

text \<open>\<open>json!(x)\<close> of an \<open>f64\<close>: JSON has no infinities and no NaN.\<close>

definition json_f64 :: "f64 \<Rightarrow> json" where
  "json_f64 d = (if is_finite d then JFloat d else JNull)"

definition json_opt :: "json option \<Rightarrow> json" where
  "json_opt v = unwrap_or JNull v"

definition json_u64 :: "u64 \<Rightarrow> json" where
  "json_u64 n = JInt (uint n)"

definition json_usize :: "nat \<Rightarrow> json" where
  "json_usize n = JInt (int n)"

definition json_str_opt :: "string option \<Rightarrow> json" where
  "json_str_opt s = json_opt (map_option JStr s)"

fun as_u64 :: "json \<Rightarrow> u64 option" where
  "as_u64 (JInt n) = (if 0 \<le> n \<and> n < 2 ^ 64 then Some (word_of_int n) else None)"
| "as_u64 v = None"

text \<open>\<open>value.get(key)\<close>.\<close>

fun get_key :: "string \<Rightarrow> json \<Rightarrow> json option" where
  "get_key k (JObj m) = map_of m k"
| "get_key k v = None"

end
