(* ===== verification/Rpc.thy ===== *)
theory Rpc
  imports Json
begin

text \<open>
  \<open>src/rpc.rs\<close>: how the answer of the node to a JSON-RPC request becomes the result of a call.
  The HTTP exchange itself (the crate \<open>reqwest\<close>) is a function from requests to values of type
  \<open>http_answer\<close>.
\<close>

text \<open>A signed number in a message.\<close>

definition fmt_int :: "int \<Rightarrow> string" where
  "fmt_int i = (if i < 0 then ''-'' @ dec_digits (nat (- i)) else dec_digits (nat i))"

record rpc_error =
  re_code :: int
  re_message :: string

record 'a rpc_response =
  rr_result :: "'a option"
  rr_error :: "rpc_error option"

text \<open>
  No response, a body that is not the expected JSON (with the text of that error), or a response
  with its status line.
\<close>

datatype 'a http_answer = SendFailed | BadBody string | Answer string "'a rpc_response"

definition rpc_error_text :: "string \<Rightarrow> rpc_error \<Rightarrow> string" where
  "rpc_error_text method err =
     ''RPC error '' @ method @ '': '' @ re_message err @ '' ('' @ fmt_int (re_code err) @ '')''"

fun call_optional :: "string \<Rightarrow> 'a http_answer \<Rightarrow> 'a option result" where
  "call_optional method SendFailed = Inl ''RPC request failed''"
| "call_optional method (BadBody e) = Inl e"
| "call_optional method (Answer status body) =
     (case rr_error body of
        Some err \<Rightarrow> Inl (rpc_error_text method err)
      | None \<Rightarrow> Inr (rr_result body))"

fun call_with_client :: "string \<Rightarrow> 'a http_answer \<Rightarrow> 'a result" where
  "call_with_client method SendFailed = Inl ''RPC request failed''"
| "call_with_client method (BadBody e) = Inl e"
| "call_with_client method (Answer status body) =
     (case rr_error body of
        Some err \<Rightarrow> Inl (rpc_error_text method err)
      | None \<Rightarrow> ok_or (''RPC '' @ method @ '' returned empty result (status '' @ status @ '')'') (rr_result body))"

text \<open>The two calls differ only on an answer without result.\<close>

lemma call_optional_Some:
  "call_optional method a = Inr (Some x) \<longleftrightarrow> call_with_client method a = Inr x"
  by (cases a) (auto simp: ok_or_def split: option.splits)

lemma call_error:
  "call_optional method a = Inl e \<Longrightarrow> call_with_client method a = Inl e"
  by (cases a) (auto split: option.splits)

subsection \<open>\<open>RpcClient\<close>\<close>

text \<open>What the program sets of a \<open>reqwest::Client\<close>; the times are in seconds.\<close>

record http_client =
  hc_connect_timeout :: nat
  hc_timeout :: nat
  hc_tcp_nodelay :: bool
  hc_pool_max_idle_per_host :: nat

record rpc_client =
  rc_url :: string
  rc_user :: string
  rc_pass :: string
  rc_client :: http_client
  rc_client_longpoll :: http_client

text \<open>\<open>build\<close> is the crate's: it may refuse to build a client.\<close>

definition rpc_client_new ::
  "(http_client \<Rightarrow> unit result) \<Rightarrow> string \<Rightarrow> string \<Rightarrow> string \<Rightarrow> rpc_client result" where
  "rpc_client_new build url user pass =
     (let client = \<lparr>hc_connect_timeout = 2, hc_timeout = 8, hc_tcp_nodelay = True,
            hc_pool_max_idle_per_host = 8\<rparr>;
          client_longpoll = \<lparr>hc_connect_timeout = 5, hc_timeout = 130, hc_tcp_nodelay = True,
            hc_pool_max_idle_per_host = 2\<rparr>
      in rbind (with_context ''build reqwest client'' (build client)) (\<lambda>_.
         rbind (with_context ''build longpoll reqwest client'' (build client_longpoll)) (\<lambda>_.
           Inr \<lparr>rc_url = url, rc_user = user, rc_pass = pass, rc_client = client,
             rc_client_longpoll = client_longpoll\<rparr>)))"

record rpc_request =
  rq_client :: http_client
  rq_url :: string
  rq_basic_auth :: "string \<times> string option"
  rq_json :: json

definition rpc_post :: "rpc_client \<Rightarrow> http_client \<Rightarrow> string \<Rightarrow> json \<Rightarrow> rpc_request" where
  "rpc_post self client method params =
     \<lparr>rq_client = client, rq_url = rc_url self, rq_basic_auth = (rc_user self, Some (rc_pass self)),
      rq_json = JObj
        [(''jsonrpc'', JStr ''1.0''), (''id'', JStr ''StratumBee''), (''method'', JStr method),
         (''params'', params)]\<rparr>"

text \<open>\<open>send\<close> is the exchange with the node.\<close>

definition rpc_call :: "(rpc_request \<Rightarrow> 'a http_answer) \<Rightarrow> rpc_client \<Rightarrow> string \<Rightarrow> json \<Rightarrow> 'a result" where
  "rpc_call send self method params =
     call_with_client method (send (rpc_post self (rc_client self) method params))"

definition rpc_call_optional ::
  "(rpc_request \<Rightarrow> 'a http_answer) \<Rightarrow> rpc_client \<Rightarrow> string \<Rightarrow> json \<Rightarrow> 'a option result" where
  "rpc_call_optional send self method params =
     call_optional method (send (rpc_post self (rc_client self) method params))"

definition rpc_call_longpoll ::
  "(rpc_request \<Rightarrow> 'a http_answer) \<Rightarrow> rpc_client \<Rightarrow> string \<Rightarrow> json \<Rightarrow> 'a result" where
  "rpc_call_longpoll send self method params =
     call_with_client method (send (rpc_post self (rc_client_longpoll self) method params))"

text \<open>
  A call through either client is the same request; they differ in how long they wait, and a
  long poll of the node has more than two minutes for its answer.
\<close>

lemma rpc_clients:
  "rpc_client_new build url user pass = Inr self \<Longrightarrow>
   hc_timeout (rc_client self) = 8 \<and> hc_timeout (rc_client_longpoll self) = 130 \<and>
   rq_json (rpc_post self c m p) = rq_json (rpc_post self c' m p)"
  by (auto simp: rpc_client_new_def rpc_post_def Let_def elim!: rbind_InrE)

end
