(* ===== verification/Template_Engine.thy ===== *)
theory Template_Engine
  imports Template Metrics Rpc
begin

text \<open>
  \<open>TemplateEngine\<close> of \<open>src/template.rs\<close>: the current job, the chain tip, the deduplication key,
  the single permit that serializes the tasks that publish, the slot for a refresh that found the
  permit taken, the submission of blocks and the triggers. A task holds the permit from its first
  access to the published state to its last, so its body is one step; \<open>engine_step\<close> interleaves
  the bodies, the refused tasks and the other operations.
\<close>

text \<open>The readings of the wall clock: milliseconds and seconds since the epoch, and \<open>Utc::now()\<close>.\<close>

record clock =
  ck_ms :: u64
  ck_secs :: u64
  ck_utc :: instant

record engine =
  en_current :: job_template
  en_watch :: job_template
  en_receivers :: nat
  en_chain_tip :: "chain_tip_state option"
  en_job_counter :: u64
  en_last_template_key :: "string option"
  en_permit :: bool
  en_pending :: u8
  en_last_zmq_block_trigger_ms :: u64
  en_last_longpollid :: "string option"
  en_last_gbt_success_ms :: u64
  en_counters :: pool_counters

definition engine_new :: "pool_counters \<Rightarrow> instant \<Rightarrow> engine" where
  "engine_new counters now =
     \<lparr>en_current = empty_template now, en_watch = empty_template now, en_receivers = 0,
      en_chain_tip = None, en_job_counter = 1, en_last_template_key = None, en_permit = True,
      en_pending = 0, en_last_zmq_block_trigger_ms = 0, en_last_longpollid = None,
      en_last_gbt_success_ms = 0, en_counters = counters\<rparr>"

definition engine_subscribe :: "engine \<Rightarrow> engine" where
  "engine_subscribe self = self\<lparr>en_receivers := en_receivers self + 1\<rparr>"

definition current_job :: "engine \<Rightarrow> job_template" where
  "current_job self = en_current self"

definition last_gbt_success_age_secs :: "u64 \<Rightarrow> engine \<Rightarrow> u64 option" where
  "last_gbt_success_age_secs now_ms self =
     (let last = en_last_gbt_success_ms self in
      if last = 0 then None else Some (sat_sub now_ms last div 1000))"

subsection \<open>Publishing\<close>

text \<open>A \<open>watch\<close> channel without receivers drops what is sent.\<close>

definition publish_job :: "job_template \<Rightarrow> string \<Rightarrow> engine \<Rightarrow> engine" where
  "publish_job job key self =
     (let self = self\<lparr>en_last_template_key := Some key\<rparr>;
          self = self\<lparr>en_current := job\<rparr>
      in if en_receivers self = 0 then self else self\<lparr>en_watch := job\<rparr>)"

definition update_chain_tip_from_job :: "externs \<Rightarrow> job_template \<Rightarrow> engine \<Rightarrow> engine" where
  "update_chain_tip_from_job X job self =
     (if \<not> jt_ready job \<or> jt_height job = 0 \<or> jt_prevhash_le job = [] then self
      else self\<lparr>en_chain_tip := Some
        \<lparr>tip_hash_hex = hex_encode X (rev (jt_prevhash_le_bytes job)),
         tip_height = sat_sub (jt_height job) 1,
         tip_median_time_past = sat_sub (jt_mintime_u32 job) 1,
         tip_nbits = jt_nbits job,
         tip_nbits_u32 = jt_nbits_u32 job,
         tip_target_le = jt_target_le job,
         tip_version_u32 = jt_version_u32 job,
         tip_vbrequired = jt_vbrequired job,
         tip_network_difficulty = jt_network_difficulty job\<rparr>\<rparr>)"

definition store_pending_refresh_source :: "template_source \<Rightarrow> engine \<Rightarrow> engine" where
  "store_pending_refresh_source source self = self\<lparr>en_pending := pending_slot source\<rparr>"

definition take_pending_refresh_source :: "engine \<Rightarrow> template_source option \<times> engine" where
  "take_pending_refresh_source self =
     (from_pending_slot (en_pending self), self\<lparr>en_pending := 0\<rparr>)"

definition note_gbt_success :: "u64 \<Rightarrow> engine \<Rightarrow> engine" where
  "note_gbt_success now_ms self = self\<lparr>en_last_gbt_success_ms := now_ms\<rparr>"

definition count :: "(pool_counters \<Rightarrow> pool_counters) \<Rightarrow> engine \<Rightarrow> engine" where
  "count f self = self\<lparr>en_counters := f (en_counters self)\<rparr>"

subsection \<open>\<open>apply_gbt_response\<close>\<close>

definition fmt_bool :: "bool \<Rightarrow> string" where
  "fmt_bool b = (if b then ''true'' else ''false'')"

definition gbt_template_key :: "gbt_response \<Rightarrow> string \<Rightarrow> string" where
  "gbt_template_key gbt txid_root =
     join '':'' [gbt_previousblockhash gbt, gbt_bits gbt, dec_digits (unat (gbt_version gbt)),
       dec_digits (unat (gbt_vbrequired gbt)), join '','' (gbt_rules gbt),
       unwrap_or [] (gbt_longpollid gbt), fmt_bool (unwrap_or True (gbt_submitold gbt)), txid_root]"

text \<open>What the task does while it holds the permit.\<close>

definition apply_gbt_body ::
  "externs \<Rightarrow> config \<Rightarrow> gbt_response \<Rightarrow> template_source \<Rightarrow> clock \<Rightarrow> engine \<Rightarrow> unit result \<times> engine" where
  "apply_gbt_body X cfg gbt source clk self =
     (if is_gbt_older_than_current (gbt_height gbt) (en_current self)
      then (Inr (), count inc_notify_deduped self)
      else case validate_template_rules (gbt_rules gbt) (network cfg) of
          Inl e \<Rightarrow> (Inl e, self)
        | Inr _ \<Rightarrow>
            (let txid_root = compute_txid_partial_root X (gbt_transactions gbt);
                 key = gbt_template_key gbt txid_root;
                 self = (case gbt_longpollid gbt of
                     None \<Rightarrow> self
                   | Some longpoll_id \<Rightarrow> self\<lparr>en_last_longpollid := Some longpoll_id\<rparr>)
             in if en_last_template_key self = Some key
                then (Inr (), count inc_notify_deduped self)
                else case build_job X cfg gbt key source txid_root (en_job_counter self) (ck_utc clk) of
                    Inl e \<Rightarrow> (Inl e, self)
                  | Inr job \<Rightarrow>
                      (let self = self\<lparr>en_job_counter := en_job_counter self + 1\<rparr>;
                           self = update_chain_tip_from_job X job self
                       in (Inr (), publish_job job key self))))"

definition apply_gbt_response ::
  "externs \<Rightarrow> config \<Rightarrow> gbt_response \<Rightarrow> template_source \<Rightarrow> clock \<Rightarrow> engine \<Rightarrow> unit result \<times> engine" where
  "apply_gbt_response X cfg gbt source clk self =
     (if \<not> en_permit self then (Inr (), store_pending_refresh_source source self)
      else apply_gbt_body X cfg gbt source clk self)"

subsection \<open>\<open>handle_fast_block_announcement\<close>\<close>

record fast_block =
  fb_prevhash_hex :: string
  fb_block_hash_hex :: string
  fb_block_time :: u32
  fb_block_height :: u64
  fb_block_nbits :: u32

definition fast_template_key :: "fast_block \<Rightarrow> u64 \<Rightarrow> chain_tip_state \<Rightarrow> string" where
  "fast_template_key blk next_height tip =
     ''fast:'' @ fb_block_hash_hex blk @ '':'' @ dec_digits (unat next_height) @ '':'' @ tip_nbits tip
     @ '':'' @ dec_digits (unat (tip_version_u32 tip))"

text \<open>
  The last part of the announcement's handler, from the decoding of its hash: the guards against
  a job that is already there, and the empty job on top of the block.
\<close>

definition publish_fast_job ::
  "externs \<Rightarrow> config \<Rightarrow> fast_block \<Rightarrow> chain_tip_state \<Rightarrow> u64 \<Rightarrow> clock \<Rightarrow> engine \<Rightarrow> unit result \<times> engine" where
  "publish_fast_job X cfg blk tip next_height clk self =
     (case rbind (with_context ''decode fast block announcement hash'' (hex_decode X (fb_block_hash_hex blk)))
         (to_little_endian X) of
        Inl e \<Rightarrow> (Inl e, self)
      | Inr next_prevhash_le \<Rightarrow>
          (let current = en_current self in
           if jt_ready current \<and> jt_height current = next_height \<and> jt_prevhash_le current = next_prevhash_le
           then (Inr (), self)
           else if jt_ready current \<and> jt_height current > next_height then (Inr (), self)
           else
             let estimated_mtp = max (tip_median_time_past tip) (fb_block_time blk);
                 key = fast_template_key blk next_height tip
             in if en_last_template_key self = Some key then (Inr (), count inc_notify_deduped self)
                else case build_empty_job X cfg tip (fb_block_hash_hex blk) next_height estimated_mtp key
                    (en_job_counter self) (ck_secs clk) (ck_utc clk) of
                    Inl e \<Rightarrow> (Inl e, self)
                  | Inr job \<Rightarrow>
                      (let self = self\<lparr>en_job_counter := en_job_counter self + 1\<rparr>;
                           self = self\<lparr>en_chain_tip := Some
                             (tip\<lparr>tip_hash_hex := fb_block_hash_hex blk, tip_height := fb_block_height blk,
                                  tip_median_time_past := estimated_mtp\<rparr>)\<rparr>
                       in (Inr (), publish_job job key self))))"

text \<open>The middle component says whether a refresh from \<open>getblocktemplate\<close> is spawned.\<close>

definition fast_block_body ::
  "externs \<Rightarrow> config \<Rightarrow> fast_block \<Rightarrow> clock \<Rightarrow> engine \<Rightarrow> unit result \<times> template_source option \<times> engine" where
  "fast_block_body X cfg blk clk self =
     (case en_chain_tip self of
        None \<Rightarrow> (Inr (), None, self)
      | Some tip \<Rightarrow>
          if \<not> eq_ignore_ascii_case (tip_hash_hex tip) (fb_prevhash_hex blk)
             \<or> fb_block_height blk \<noteq> tip_height tip + 1
          then (Inr (), None, self)
          else if fb_block_nbits blk \<noteq> tip_nbits_u32 tip then (Inr (), Some P2pCmpctFast, self)
          else case block_hash_meets_compact_target X (fb_block_hash_hex blk) (fb_block_nbits blk) of
              Inl e \<Rightarrow> (Inl e, None, self)
            | Inr False \<Rightarrow> (Inr (), None, self)
            | Inr True \<Rightarrow>
                (let next_height = sat_add (fb_block_height blk) 1 in
                 if \<not> should_publish_fast_empty_job_for_network (network cfg) next_height
                 then (Inr (), Some P2pCmpctFast, self)
                 else case publish_fast_job X cfg blk tip next_height clk self of
                     (r, self) \<Rightarrow> (r, None, self)))"

definition handle_fast_block_announcement ::
  "externs \<Rightarrow> config \<Rightarrow> fast_block \<Rightarrow> clock \<Rightarrow> engine \<Rightarrow> unit result \<times> template_source option \<times> engine" where
  "handle_fast_block_announcement X cfg blk clk self =
     (if \<not> en_permit self then (Inr (), None, self) else fast_block_body X cfg blk clk self)"

subsection \<open>\<open>refresh_template\<close> and the long poll\<close>

text \<open>
  The loop of \<open>refresh_template\<close>, by recursion on the answers of the node to its calls of
  \<open>getblocktemplate\<close>; \<open>None\<close> when it would call again and there is no further answer.
\<close>

fun refresh_template ::
  "externs \<Rightarrow> config \<Rightarrow> (gbt_response result \<times> clock) list \<Rightarrow> template_source \<Rightarrow> engine \<Rightarrow>
   (unit result \<times> engine) option" where
  "refresh_template X cfg [] source self = None"
| "refresh_template X cfg ((answer, clk) # answers) source self =
     (case answer of
        Inl e \<Rightarrow> Some (Inl e, self)
      | Inr gbt \<Rightarrow>
          (case apply_gbt_response X cfg gbt source clk self of
             (Inl e, self) \<Rightarrow> Some (Inl e, self)
           | (Inr _, self) \<Rightarrow>
               (let self = note_gbt_success (ck_ms clk) self in
                case take_pending_refresh_source self of
                  (None, self) \<Rightarrow> Some (Inr (), self)
                | (Some pending_source, self) \<Rightarrow> refresh_template X cfg answers pending_source self)))"

definition engine_start ::
  "externs \<Rightarrow> config \<Rightarrow> (gbt_response result \<times> clock) list \<Rightarrow> engine \<Rightarrow> (unit result \<times> engine) option" where
  "engine_start X cfg answers self =
     map_option (\<lambda>(r, self). (with_context ''initial template refresh failed'' r, self))
       (refresh_template X cfg answers Startup self)"

text \<open>One round of \<open>longpoll_loop\<close>: its request, and what it does with the answer.\<close>

datatype longpoll_answer = LpTemplate gbt_response | LpError string | LpTimeout

definition longpoll_request :: "config \<Rightarrow> engine \<Rightarrow> string list \<times> string option" where
  "longpoll_request cfg self = gbt_request_params (network cfg) (en_last_longpollid self)"

definition longpoll_round ::
  "externs \<Rightarrow> config \<Rightarrow> longpoll_answer \<Rightarrow> clock \<Rightarrow> (gbt_response result \<times> clock) list \<Rightarrow> engine \<Rightarrow>
   engine option" where
  "longpoll_round X cfg answer clk answers self =
     (case answer of
        LpTemplate gbt \<Rightarrow>
          (case apply_gbt_response X cfg gbt Longpoll clk self of
             (Inl e, self) \<Rightarrow> Some self
           | (Inr _, self) \<Rightarrow> Some (note_gbt_success (ck_ms clk) self))
      | LpError e \<Rightarrow> map_option snd (refresh_template X cfg answers LongpollErrorFallback self)
      | LpTimeout \<Rightarrow> map_option snd (refresh_template X cfg answers LongpollTimeoutFallback self))"

subsection \<open>ZMQ triggers\<close>

definition should_fire_block_zmq_trigger :: "u64 \<Rightarrow> engine \<Rightarrow> bool \<times> engine" where
  "should_fire_block_zmq_trigger now_ms self =
     (let last = en_last_zmq_block_trigger_ms self in
      if sat_sub now_ms last < 10 then (False, self)
      else (True, self\<lparr>en_last_zmq_block_trigger_ms := now_ms\<rparr>))"

definition zmq_source :: "string option \<Rightarrow> template_source option" where
  "zmq_source topic =
     (case topic of
        None \<Rightarrow> None
      | Some t \<Rightarrow> if t = ''hashblock'' then Some ZmqHashblock
          else if t = ''rawblock'' then Some ZmqRawblock else None)"

text \<open>
  The handling of one message once its topic is read: \<open>body_ok\<close> is whether its second part could
  be received. The results are the refresh to spawn, if any, and whether the socket is kept.
\<close>

definition zmq_message ::
  "string option \<Rightarrow> bool \<Rightarrow> u64 \<Rightarrow> engine \<Rightarrow> template_source option \<times> bool \<times> engine" where
  "zmq_message topic body_ok now_ms self =
     (let source = zmq_source topic in
      if \<not> body_ok then
        (case source of
           None \<Rightarrow> (None, False, self)
         | Some src \<Rightarrow>
             (case should_fire_block_zmq_trigger now_ms self of
                (False, self) \<Rightarrow> (None, False, self)
              | (True, self) \<Rightarrow>
                  (Some src, False, count inc_zmq_blocks_detected (count inc_zmq_block_received self))))
      else
        (case source of
           None \<Rightarrow> (None, True, self)
         | Some src \<Rightarrow>
             (case should_fire_block_zmq_trigger now_ms (count inc_zmq_block_received self) of
                (False, self) \<Rightarrow> (None, True, self)
              | (True, self) \<Rightarrow> (Some src, True, count inc_zmq_blocks_detected self))))"

subsection \<open>\<open>submit_block\<close>\<close>

datatype submit_block_outcome = Submitted | Duplicate | Rejected string

definition submit_delays_ms :: "u64 list" where
  "submit_delays_ms = [0, 500, 1000, 2000, 4000]"

text \<open>
  The loop over the delays: \<open>rpc n\<close> is the answer of the node to the n-th call of
  \<open>submitblock\<close>. The time slept is the third component.
\<close>

fun submit_attempts ::
  "(nat \<Rightarrow> string option result) \<Rightarrow> nat \<Rightarrow> u64 list \<Rightarrow> string option \<Rightarrow> engine \<Rightarrow>
   submit_block_outcome result \<times> engine \<times> nat" where
  "submit_attempts rpc attempt [] last_submit_err self =
     (case last_submit_err of
        Some err \<Rightarrow>
          (Inl ''submitblock RPC failed after all retries; BLOCK MAY BE LOST'',
           count inc_submitblock_rpc_fail self, 0)
      | None \<Rightarrow> (Inr Submitted, self, 0))"
| "submit_attempts rpc attempt (delay_ms # delays) last_submit_err self =
     (case rpc attempt of
        Inr None \<Rightarrow> (Inr Submitted, count inc_submitblock_accepted self, unat delay_ms)
      | Inr (Some reason) \<Rightarrow>
          if reason = ''duplicate''
          then (Inr Duplicate, count inc_submitblock_accepted self, unat delay_ms)
          else (Inr (Rejected reason), count inc_submitblock_rejected self, unat delay_ms)
      | Inl err \<Rightarrow>
          (case submit_attempts rpc (attempt + 1) delays (Some err) self of
             (r, self, slept) \<Rightarrow> (r, self, unat delay_ms + slept)))"

definition submit_block ::
  "(nat \<Rightarrow> string option result) \<Rightarrow> engine \<Rightarrow> submit_block_outcome result \<times> engine \<times> nat" where
  "submit_block rpc self = submit_attempts rpc 0 submit_delays_ms None self"

subsection \<open>What a task can change\<close>

definition same_published :: "engine \<Rightarrow> engine \<Rightarrow> bool" where
  "same_published e e' \<longleftrightarrow>
     en_current e' = en_current e \<and> en_watch e' = en_watch e \<and> en_chain_tip e' = en_chain_tip e \<and>
     en_job_counter e' = en_job_counter e \<and> en_last_template_key e' = en_last_template_key e"

definition same_frame :: "engine \<Rightarrow> engine \<Rightarrow> bool" where
  "same_frame e e' \<longleftrightarrow>
     en_permit e' = en_permit e \<and> en_receivers e' = en_receivers e \<and> en_pending e' = en_pending e \<and>
     en_last_zmq_block_trigger_ms e' = en_last_zmq_block_trigger_ms e \<and>
     en_last_gbt_success_ms e' = en_last_gbt_success_ms e"

text \<open>The chain tip is the parent of a job.\<close>

definition parent_of :: "externs \<Rightarrow> chain_tip_state \<Rightarrow> job_template \<Rightarrow> bool" where
  "parent_of X tip job \<longleftrightarrow>
     jt_height job = tip_height tip + 1 \<and> jt_height job \<noteq> 0 \<and>
     hex_decode X (tip_hash_hex tip) = Inr (rev (jt_prevhash_le_bytes job)) \<and>
     tip_nbits_u32 tip = jt_nbits_u32 job \<and> tip_target_le tip = jt_target_le job"

text \<open>A new job \<open>job\<close> became the current one.\<close>

definition published :: "externs \<Rightarrow> engine \<Rightarrow> job_template \<Rightarrow> engine \<Rightarrow> bool" where
  "published X e job e' \<longleftrightarrow>
     en_current e' = job \<and> en_last_template_key e' = Some (jt_template_key job) \<and>
     en_last_template_key e \<noteq> Some (jt_template_key job) \<and>
     en_job_counter e' = en_job_counter e + 1 \<and> jt_job_id job = dec_digits (unat (en_job_counter e)) \<and>
     en_watch e' = (if en_receivers e = 0 then en_watch e else job) \<and>
     jt_ready job \<and> (jt_ready (en_current e) \<longrightarrow> jt_height (en_current e) \<le> jt_height job) \<and>
     (if jt_height job = 0 then en_chain_tip e' = en_chain_tip e
      else \<exists>tip. en_chain_tip e' = Some tip \<and> parent_of X tip job)"

lemma count_same [simp]: "same_published e (count f e)" "same_frame e (count f e)"
  by (simp_all add: count_def same_published_def same_frame_def)

lemma same_refl [simp]: "same_published e e" "same_frame e e"
  by (simp_all add: same_published_def same_frame_def)

lemma sat_sub_one: "h \<noteq> 0 \<Longrightarrow> sat_sub h 1 + 1 = (h :: u64)"
  by (auto simp: sat_sub_def word_less_nat_alt unat_0_iff)

lemma built_from_prevhash_nonempty:
  assumes "hex_ok X" and "built_from X cfg gbt key n job"
  shows "jt_prevhash_le job \<noteq> []"
proof -
  obtain bs :: bytes where "length bs = 32" "jt_prevhash_le job = hex_encode X (rev bs)"
    using assms(2) by (auto simp: built_from_def)
  then have "length (jt_prevhash_le job) = 64" using hex_ok_length [OF assms(1), of "rev bs"] by simp
  then show ?thesis by auto
qed

lemma publish_built:
  assumes X: "hex_ok X" and job: "built_from X cfg gbt key (en_job_counter e) job"
    and key: "en_last_template_key e \<noteq> Some key"
    and height: "jt_ready (en_current e) \<longrightarrow> jt_height (en_current e) \<le> jt_height job"
    and e': "e' = publish_job job key (update_chain_tip_from_job X job (e\<lparr>en_job_counter := en_job_counter e + 1\<rparr>))"
  shows "published X e job e' \<and> same_frame e e'"
proof -
  have ready: "jt_ready job" "jt_job_id job = dec_digits (unat (en_job_counter e))" "jt_template_key job = key"
    using job by (auto simp: built_from_def)
  have ne: "jt_prevhash_le job \<noteq> []" by (rule built_from_prevhash_nonempty [OF X job])
  show ?thesis
  proof (cases "jt_height job = 0")
    case True
    then show ?thesis using ready key height
      by (simp add: e' publish_job_def update_chain_tip_from_job_def published_def same_frame_def Let_def)
  next
    case False
    then show ?thesis using ready ne key height
      by (simp add: e' publish_job_def update_chain_tip_from_job_def published_def same_frame_def
        parent_of_def hex_ok_roundtrip [OF X] sat_sub_one Let_def)
  qed
qed

lemma apply_gbt_body_cases:
  assumes X: "hex_ok X" and body: "apply_gbt_body X cfg gbt source clk e = (r, e')"
  shows "same_frame e e' \<and>
    (same_published e e' \<or>
     (\<exists>key job. r = Inr () \<and> built_from X cfg gbt key (en_job_counter e) job \<and> published X e job e'))"
proof -
  define root where "root = compute_txid_partial_root X (gbt_transactions gbt)"
  define key where "key = gbt_template_key gbt root"
  define e1 where "e1 = (case gbt_longpollid gbt of None \<Rightarrow> e
    | Some i \<Rightarrow> e\<lparr>en_last_longpollid := Some i\<rparr>)"
  have e1: "same_published e e1" "same_frame e e1"
    by (simp_all add: e1_def same_published_def same_frame_def split: option.splits)
  consider (old) "is_gbt_older_than_current (gbt_height gbt) (en_current e)"
    | (rules) err where "\<not> is_gbt_older_than_current (gbt_height gbt) (en_current e)"
        "validate_template_rules (gbt_rules gbt) (network cfg) = Inl err"
    | (dup) "\<not> is_gbt_older_than_current (gbt_height gbt) (en_current e)"
        "validate_template_rules (gbt_rules gbt) (network cfg) = Inr ()"
        "en_last_template_key e1 = Some key"
    | (fail) err where "\<not> is_gbt_older_than_current (gbt_height gbt) (en_current e)"
        "validate_template_rules (gbt_rules gbt) (network cfg) = Inr ()"
        "en_last_template_key e1 \<noteq> Some key"
        "build_job X cfg gbt key source root (en_job_counter e1) (ck_utc clk) = Inl err"
    | (job) job where "\<not> is_gbt_older_than_current (gbt_height gbt) (en_current e)"
        "validate_template_rules (gbt_rules gbt) (network cfg) = Inr ()"
        "en_last_template_key e1 \<noteq> Some key"
        "build_job X cfg gbt key source root (en_job_counter e1) (ck_utc clk) = Inr job"
    by (cases "validate_template_rules (gbt_rules gbt) (network cfg)";
        cases "build_job X cfg gbt key source root (en_job_counter e1) (ck_utc clk)") auto
  then show ?thesis
  proof cases
    case old
    with body show ?thesis by (auto simp: apply_gbt_body_def)
  next
    case rules
    with body show ?thesis by (auto simp: apply_gbt_body_def)
  next
    case dup
    with body have "e' = count inc_notify_deduped e1"
      by (auto simp: apply_gbt_body_def root_def [symmetric] key_def [symmetric] e1_def [symmetric] Let_def)
    with e1 show ?thesis by (simp add: count_def same_published_def same_frame_def)
  next
    case fail
    with body have "e' = e1"
      by (auto simp: apply_gbt_body_def root_def [symmetric] key_def [symmetric] e1_def [symmetric] Let_def)
    with e1 show ?thesis by simp
  next
    case (job job)
    with body have res: "r = Inr ()"
      "e' = publish_job job key (update_chain_tip_from_job X job (e1\<lparr>en_job_counter := en_job_counter e1 + 1\<rparr>))"
      by (auto simp: apply_gbt_body_def root_def [symmetric] key_def [symmetric] e1_def [symmetric] Let_def)
    have built: "built_from X cfg gbt key (en_job_counter e1) job"
      by (rule build_job_built_from [OF job(4)])
    have h: "jt_ready (en_current e1) \<longrightarrow> jt_height (en_current e1) \<le> jt_height job"
      using job(1) built e1(1) by (auto simp: is_gbt_older_than_current_def built_from_def same_published_def)
    from publish_built [OF X built job(3) h res(2)]
    have "published X e1 job e' \<and> same_frame e1 e'" .
    then have "published X e job e' \<and> same_frame e e'"
      using e1 by (simp add: published_def same_published_def same_frame_def)
    with built e1(1) res(1) show ?thesis by (auto simp: same_published_def)
  qed
qed

lemma build_coinbase_parts_height:
  assumes "build_coinbase_parts X cfg v h f w = Inr parts"
  shows "unat h < 2 ^ 63"
proof -
  obtain sig spk c where "parts_ok X cfg v h f parts sig spk c"
    by (rule build_coinbase_parts_Inr [OF assms])
  then have "coinbase_script_sig X cfg h f = Inr sig" by (simp add: parts_ok_def)
  then obtain s where "encode_coinbase_height h = Inr s"
    unfolding coinbase_script_sig_def by (elim rbind_InrE)
  then show ?thesis unfolding encode_coinbase_height_ok by blast
qed

lemma built_empty_height: "built_empty X cfg tip hash h mtp key n job \<Longrightarrow> unat h < 2 ^ 63"
  by (auto simp: built_empty_def dest: build_coinbase_parts_height)

lemma sat_add_one_small:
  fixes h :: u64
  assumes "unat (sat_add h 1) < 2 ^ 63"
  shows "sat_add h 1 = h + 1" and "h + 1 \<noteq> 0"
proof -
  have "unat (sat_add h 1) = min (unat h + 1) (2 ^ 64 - 1)" using unat_sat_add [of h 1] by simp
  with assms have "unat h + 1 < 2 ^ 63" by (auto simp: min_def split: if_splits)
  then show a: "sat_add h 1 = h + 1" by (simp add: sat_add_def)
  have "unat (h + 1) = unat h + 1" using \<open>unat h + 1 < 2 ^ 63\<close> by (simp add: unat_word_ariths)
  then show "h + 1 \<noteq> 0" by (metis add_is_0 one_neq_zero unsigned_0)
qed

text \<open>The guards that an announcement passed when its job is published.\<close>

definition fast_guards :: "externs \<Rightarrow> config \<Rightarrow> fast_block \<Rightarrow> chain_tip_state \<Rightarrow> bool" where
  "fast_guards X cfg blk tip \<longleftrightarrow>
     eq_ignore_ascii_case (tip_hash_hex tip) (fb_prevhash_hex blk) \<and>
     fb_block_height blk = tip_height tip + 1 \<and> fb_block_nbits blk = tip_nbits_u32 tip \<and>
     block_hash_meets_compact_target X (fb_block_hash_hex blk) (fb_block_nbits blk) = Inr True \<and>
     network cfg = Bitcoin \<and> (fb_block_height blk + 1) mod 2016 \<noteq> 0"

lemma publish_fast_job_cases:
  assumes X: "hex_ok X" and next_h: "next_height = sat_add (fb_block_height blk) 1"
    and body: "publish_fast_job X cfg blk tip next_height clk e = (r, e')"
  shows "same_frame e e' \<and>
    (same_published e e' \<or>
     (\<exists>mtp key job. r = Inr () \<and> next_height = fb_block_height blk + 1 \<and>
        built_empty X cfg tip (fb_block_hash_hex blk) next_height mtp key (en_job_counter e) job \<and>
        published X e job e'))"
proof -
  define mtp where "mtp = max (tip_median_time_past tip) (fb_block_time blk)"
  define key where "key = fast_template_key blk next_height tip"
  define hash where "hash = rbind (with_context ''decode fast block announcement hash''
    (hex_decode X (fb_block_hash_hex blk))) (to_little_endian X)"
  define built where "built = build_empty_job X cfg tip (fb_block_hash_hex blk) next_height mtp key
    (en_job_counter e) (ck_secs clk) (ck_utc clk)"
  note defs = publish_fast_job_def mtp_def [symmetric] key_def [symmetric] hash_def [symmetric]
    built_def [symmetric] Let_def
  have "e' = e \<or> e' = count inc_notify_deduped e \<or>
    (\<exists>job. built = Inr job \<and> r = Inr () \<and> en_last_template_key e \<noteq> Some key \<and>
       \<not> (jt_ready (en_current e) \<and> jt_height (en_current e) > next_height) \<and>
       e' = publish_job job key (e\<lparr>en_job_counter := en_job_counter e + 1,
        en_chain_tip := Some (tip\<lparr>tip_hash_hex := fb_block_hash_hex blk,
          tip_height := fb_block_height blk, tip_median_time_past := mtp\<rparr>)\<rparr>))"
  proof (cases hash)
    case (Inl err)
    with body show ?thesis by (simp add: defs)
  next
    case (Inr np)
    show ?thesis
    proof (cases built)
      case (Inl err)
      with \<open>hash = Inr np\<close> body show ?thesis by (simp add: defs split: if_splits)
    next
      case (Inr job)
      with \<open>hash = Inr np\<close> body show ?thesis by (simp add: defs split: if_splits) 
    qed
  qed
  then show ?thesis
  proof (elim disjE exE conjE)
    fix job
    assume built: "built = Inr job" and res: "r = Inr ()"
      and key: "en_last_template_key e \<noteq> Some key"
      and h: "\<not> (jt_ready (en_current e) \<and> jt_height (en_current e) > next_height)"
      and e': "e' = publish_job job key (e\<lparr>en_job_counter := en_job_counter e + 1,
        en_chain_tip := Some (tip\<lparr>tip_hash_hex := fb_block_hash_hex blk,
          tip_height := fb_block_height blk, tip_median_time_past := mtp\<rparr>)\<rparr>)"
    have be: "built_empty X cfg tip (fb_block_hash_hex blk) next_height mtp key (en_job_counter e) job"
      using built build_empty_job_built unfolding built_def by blast
    note small = sat_add_one_small [OF built_empty_height [OF be, unfolded next_h]]
    have "published X e job e'"
      using be h key small
      by (auto simp: e' publish_job_def published_def parent_of_def built_empty_def next_h Let_def)
    moreover have "same_frame e e'" by (simp add: e' publish_job_def same_frame_def Let_def)
    ultimately show ?thesis using be res small(1) next_h by auto
  qed simp_all
qed

lemma fast_block_body_cases:
  assumes X: "hex_ok X" and body: "fast_block_body X cfg blk clk e = (r, sp, e')"
  shows "same_frame e e' \<and>
    (same_published e e' \<or>
     (\<exists>tip mtp key job. r = Inr () \<and> sp = None \<and> en_chain_tip e = Some tip \<and> fast_guards X cfg blk tip \<and>
        built_empty X cfg tip (fb_block_hash_hex blk) (fb_block_height blk + 1) mtp key (en_job_counter e) job \<and>
        published X e job e'))"
proof (cases "same_published e e' \<and> same_frame e e'")
  case False
  then obtain tip where tip: "en_chain_tip e = Some tip"
    using body by (cases "en_chain_tip e") (auto simp: fast_block_body_def)
  define next_height where "next_height = sat_add (fb_block_height blk) 1"
  have ne: "e' \<noteq> e" using False by auto
  from body ne tip have g123: "eq_ignore_ascii_case (tip_hash_hex tip) (fb_prevhash_hex blk)"
    "fb_block_height blk = tip_height tip + 1" "fb_block_nbits blk = tip_nbits_u32 tip"
    by (auto simp: fast_block_body_def simp del: Let_def split: if_splits)
  obtain b where b: "block_hash_meets_compact_target X (fb_block_hash_hex blk) (fb_block_nbits blk) = Inr b"
    using body ne tip g123
    by (cases "block_hash_meets_compact_target X (fb_block_hash_hex blk) (fb_block_nbits blk)")
      (auto simp: fast_block_body_def)
  with body ne tip g123 have b: "block_hash_meets_compact_target X (fb_block_hash_hex blk) (fb_block_nbits blk) = Inr True"
    by (cases b) (auto simp: fast_block_body_def)
  have ok: "should_publish_fast_empty_job_for_network (network cfg) next_height"
    using body ne tip g123 b by (auto simp: fast_block_body_def next_height_def Let_def split: if_splits)
  obtain r0 e0 where r0: "publish_fast_job X cfg blk tip next_height clk e = (r0, e0)" by fastforce
  have "fast_block_body X cfg blk clk e = (r0, None, e0)"
    using tip g123 b ok r0 by (simp add: fast_block_body_def next_height_def)
  with body have "(r, sp, e') = (r0, None, e0)" by simp
  then have pub: "publish_fast_job X cfg blk tip next_height clk e = (r, e')" and sp: "sp = None"
    using r0 by simp_all
  from publish_fast_job_cases [OF X next_height_def pub] False g123 b ok tip sp show ?thesis
    by (auto simp: fast_guards_def should_publish_fast_empty_job_for_network_def)
qed simp

subsection \<open>Interleaving\<close>

datatype task = GbtTask gbt_response template_source | FastTask fast_block

text \<open>
  A task takes the permit, then runs its body and gives it back; a task that finds the permit
  taken stores its source (\<open>getblocktemplate\<close>) or gives up (announcement). Everything else can
  happen at any time.
\<close>

inductive engine_step ::
  "externs \<Rightarrow> config \<Rightarrow> engine \<times> task option \<Rightarrow> engine \<times> task option \<Rightarrow> bool" for X cfg where
  acquire: "en_permit e \<Longrightarrow> engine_step X cfg (e, None) (e\<lparr>en_permit := False\<rparr>, Some t)"
| finish_gbt: "engine_step X cfg (e, Some (GbtTask gbt src))
    ((snd (apply_gbt_body X cfg gbt src clk e))\<lparr>en_permit := True\<rparr>, None)"
| finish_fast: "engine_step X cfg (e, Some (FastTask blk))
    ((snd (snd (fast_block_body X cfg blk clk e)))\<lparr>en_permit := True\<rparr>, None)"
| refused_gbt: "\<not> en_permit e \<Longrightarrow>
    engine_step X cfg (e, t) (snd (apply_gbt_response X cfg gbt src clk e), t)"
| refused_fast: "\<not> en_permit e \<Longrightarrow>
    engine_step X cfg (e, t) (snd (snd (handle_fast_block_announcement X cfg blk clk e)), t)"
| take_pending: "engine_step X cfg (e, t) (snd (take_pending_refresh_source e), t)"
| note_success: "engine_step X cfg (e, t) (note_gbt_success ms e, t)"
| zmq: "engine_step X cfg (e, t) (snd (snd (zmq_message topic ok ms e)), t)"
| subscribe: "engine_step X cfg (e, t) (engine_subscribe e, t)"
| submit: "engine_step X cfg (e, t) (fst (snd (submit_block rpc e)), t)"

inductive_cases engine_stepE: "engine_step X cfg s s'"

lemma zmq_message_same:
  "same_published e (snd (snd (zmq_message topic ok ms e)))"
  "en_permit (snd (snd (zmq_message topic ok ms e))) = en_permit e"
  "en_receivers (snd (snd (zmq_message topic ok ms e))) = en_receivers e"
  by (auto simp: zmq_message_def should_fire_block_zmq_trigger_def count_def same_published_def Let_def
    split: option.splits bool.splits if_splits)

lemma submit_attempts_same:
  "same_published e (fst (snd (submit_attempts rpc n ds err e))) \<and>
   same_frame e (fst (snd (submit_attempts rpc n ds err e)))"
  by (induction ds arbitrary: n err)
    (auto split: option.splits sum.splits prod.splits, (metis fst_conv snd_conv)+)

lemma submit_block_same:
  "same_published e (fst (snd (submit_block rpc e)))" "same_frame e (fst (snd (submit_block rpc e)))"
  using submit_attempts_same by (simp_all add: submit_block_def)

subsection \<open>Invariant of the engine\<close>

definition engine_ok :: "externs \<Rightarrow> engine \<times> task option \<Rightarrow> bool" where
  "engine_ok X s \<longleftrightarrow>
     (case s of (e, t) \<Rightarrow>
        en_permit e = (t = None) \<and>
        jt_ok X (en_current e) \<and>
        (if jt_ready (en_current e)
         then en_last_template_key e = Some (jt_template_key (en_current e)) \<and>
           jt_job_id (en_current e) = dec_digits (unat (en_job_counter e - 1)) \<and>
           (if jt_height (en_current e) = 0 then en_chain_tip e = None
            else \<exists>tip. en_chain_tip e = Some tip \<and> parent_of X tip (en_current e))
         else en_chain_tip e = None))"

text \<open>One step leaves what is published alone, or publishes one new job.\<close>

definition step_effect :: "externs \<Rightarrow> engine \<Rightarrow> engine \<Rightarrow> bool" where
  "step_effect X e e' \<longleftrightarrow>
     same_published e e' \<or> (\<exists>job. published X e job e' \<and> jt_ok X job)"

lemma engine_ok_target:
  "engine_ok X (e, t) \<Longrightarrow> en_chain_tip e = Some tip \<Longrightarrow> length (tip_target_le tip) = 32"
  by (auto simp: engine_ok_def jt_ok_def parent_of_def split: if_splits)

lemma permit_update_effect [simp]: "step_effect X e (e'\<lparr>en_permit := b\<rparr>) = step_effect X e e'"
  by (simp add: step_effect_def same_published_def published_def)

lemma same_published_effect: "same_published e e' \<Longrightarrow> step_effect X e e'"
  by (simp add: step_effect_def)

lemma apply_gbt_body_effect:
  assumes "hex_ok X"
  shows "step_effect X e (snd (apply_gbt_body X cfg gbt src clk e))"
proof -
  obtain r e' where eq: "apply_gbt_body X cfg gbt src clk e = (r, e')" by fastforce
  from apply_gbt_body_cases [OF assms eq] built_from_ok [OF assms] show ?thesis
    by (auto simp: eq step_effect_def)
qed

lemma fast_block_body_effect:
  assumes "hex_ok X" and "engine_ok X (e, t)"
  shows "step_effect X e (snd (snd (fast_block_body X cfg blk clk e)))"
proof -
  obtain r sp e' where eq: "fast_block_body X cfg blk clk e = (r, sp, e')" by (metis prod_cases3)
  from fast_block_body_cases [OF assms(1) eq] engine_ok_target [OF assms(2)] built_empty_ok [OF assms(1)]
  show ?thesis by (auto simp: eq step_effect_def)
qed

lemma engine_step_effect:
  assumes "hex_ok X" and "engine_ok X (e, t)" and "engine_step X cfg (e, t) (e', t')"
  shows "step_effect X e e' \<and> en_permit e' = (t' = None)"
  using assms(3)
proof (cases rule: engine_step.cases)
  case (acquire u)
  then show ?thesis by (simp add: step_effect_def same_published_def)
next
  case (finish_gbt gbt src clk)
  then show ?thesis using apply_gbt_body_effect [OF assms(1)] by simp
next
  case (finish_fast blk clk)
  then show ?thesis using fast_block_body_effect [OF assms(1,2)] by simp
next
  case (refused_gbt gbt src clk)
  then show ?thesis using assms(2)
    by (auto simp: apply_gbt_response_def store_pending_refresh_source_def engine_ok_def
      step_effect_def same_published_def)
next
  case (refused_fast blk clk)
  then show ?thesis using assms(2)
    by (auto simp: handle_fast_block_announcement_def engine_ok_def step_effect_def same_published_def)
next
  case take_pending
  then show ?thesis using assms(2)
    by (auto simp: take_pending_refresh_source_def engine_ok_def step_effect_def same_published_def)
next
  case (note_success ms)
  then show ?thesis using assms(2)
    by (auto simp: note_gbt_success_def engine_ok_def step_effect_def same_published_def)
next
  case (zmq topic ok ms)
  then show ?thesis using assms(2) zmq_message_same
    by (auto simp: engine_ok_def step_effect_def)
next
  case subscribe
  then show ?thesis using assms(2)
    by (auto simp: engine_subscribe_def engine_ok_def step_effect_def same_published_def)
next
  case (submit rpc)
  then show ?thesis using assms(2) submit_block_same [of e rpc]
    by (auto simp: engine_ok_def step_effect_def same_frame_def)
qed

lemma step_effect_ok:
  assumes "engine_ok X (e, t)" and "step_effect X e e'" and "en_permit e' = (t' = None)"
  shows "engine_ok X (e', t')"
  using assms(2) unfolding step_effect_def
proof (elim disjE exE conjE)
  assume "same_published e e'"
  with assms(1,3) show ?thesis by (auto simp: same_published_def engine_ok_def)
next
  fix job assume p: "published X e job e'" and "jt_ok X job"
  have "en_chain_tip e = None" if "jt_height job = 0"
    using assms(1) p that
    by (auto simp: engine_ok_def published_def word_le_nat_alt unat_0_iff split: if_splits)
  with p \<open>jt_ok X job\<close> assms(3) show ?thesis by (auto simp: engine_ok_def published_def)
qed

lemma engine_step_ok:
  "hex_ok X \<Longrightarrow> engine_ok X s \<Longrightarrow> engine_step X cfg s s' \<Longrightarrow> engine_ok X s'"
  by (cases s; cases s') (metis engine_step_effect step_effect_ok)

lemma engine_new_ok: "engine_ok X (engine_new c now, None)"
  by (simp add: engine_ok_def engine_new_def empty_template_ok) (simp add: empty_template_def)

lemma engine_steps_ok:
  "hex_ok X \<Longrightarrow> engine_ok X s \<Longrightarrow> (engine_step X cfg ^^ n) s s' \<Longrightarrow> engine_ok X s'"
  by (induction n arbitrary: s') (auto intro: engine_step_ok)

text \<open>How often a run publishes, and what it does to the job counter.\<close>

lemma engine_steps_counter:
  assumes "hex_ok X" and "engine_ok X s" and "(engine_step X cfg ^^ n) s s'"
  shows "\<exists>k \<le> n. en_job_counter (fst s') = en_job_counter (fst s) + of_nat k \<and>
    (k = 0 \<longrightarrow> en_current (fst s') = en_current (fst s)) \<and>
    (k \<noteq> 0 \<longrightarrow> jt_ready (en_current (fst s'))) \<and>
    (jt_ready (en_current (fst s)) \<longrightarrow> jt_ready (en_current (fst s')) \<and>
       jt_height (en_current (fst s)) \<le> jt_height (en_current (fst s')))"
  using assms(3)
proof (induction n arbitrary: s')
  case 0
  then show ?case by simp
next
  case (Suc n)
  then obtain u where u: "(engine_step X cfg ^^ n) s u" "engine_step X cfg u s'" by auto
  obtain k where k: "k \<le> n" "en_job_counter (fst u) = en_job_counter (fst s) + of_nat k"
    "k = 0 \<longrightarrow> en_current (fst u) = en_current (fst s)" "k \<noteq> 0 \<longrightarrow> jt_ready (en_current (fst u))"
    "jt_ready (en_current (fst s)) \<longrightarrow> jt_ready (en_current (fst u)) \<and>
       jt_height (en_current (fst s)) \<le> jt_height (en_current (fst u))"
    using Suc.IH [OF u(1)] by blast
  have "engine_ok X u" by (rule engine_steps_ok [OF assms(1,2) u(1)])
  then have "step_effect X (fst u) (fst s')"
    using engine_step_effect [OF assms(1), of "fst u" "snd u" cfg "fst s'" "snd s'"] u(2) by simp
  then show ?case unfolding step_effect_def
  proof (elim disjE exE conjE)
    assume "same_published (fst u) (fst s')"
    then show ?thesis using k by (intro exI [of _ k]) (auto simp: same_published_def)
  next
    fix job assume "published X (fst u) job (fst s')"
    then show ?thesis using k
      by (intro exI [of _ "Suc k"]) (auto simp: published_def add.assoc add.commute [of 1] intro: order.trans)
  qed
qed

lemma engine_ok_id:
  "engine_ok X s \<Longrightarrow> jt_ready (en_current (fst s)) \<Longrightarrow>
   jt_job_id (en_current (fst s)) = dec_digits (unat (en_job_counter (fst s) - 1))"
  by (cases s) (simp add: engine_ok_def)

subsection \<open>Submitting, refreshing\<close>

lemma submit_attempts_errors:
  assumes "\<forall>m < n. \<exists>err. rpc (k + m) = Inl err" and "n \<le> length ds"
  shows "\<exists>le. submit_attempts rpc k ds last_err e =
    (case submit_attempts rpc (k + n) (drop n ds) le e of
       (r, e', slept) \<Rightarrow> (r, e', sum_list (map unat (take n ds)) + slept)) \<and>
    (n = 0 \<longrightarrow> le = last_err) \<and> (n \<noteq> 0 \<longrightarrow> le \<noteq> None)"
  using assms
proof (induction n arbitrary: k ds last_err)
  case 0
  then show ?case by (intro exI [of _ last_err]) (simp split: prod.splits)
next
  case (Suc n)
  then obtain d ds' where ds: "ds = d # ds'" by (cases ds) auto
  obtain err where err: "rpc k = Inl err" using Suc.prems(1) by force
  have "\<forall>m < n. \<exists>err. rpc (Suc k + m) = Inl err" using Suc.prems(1) by fastforce
  moreover have "n \<le> length ds'" using Suc.prems(2) ds by simp
  ultimately obtain le where le: "submit_attempts rpc (Suc k) ds' (Some err) e =
    (case submit_attempts rpc (Suc k + n) (drop n ds') le e of
       (r, e', slept) \<Rightarrow> (r, e', sum_list (map unat (take n ds')) + slept))"
    "n = 0 \<longrightarrow> le = Some err" "n \<noteq> 0 \<longrightarrow> le \<noteq> None"
    using Suc.IH [of "Suc k" ds' "Some err"] by blast
  then show ?case
    by (intro exI [of _ le]) (auto simp: ds err split: prod.splits)
qed

lemma refresh_template_done:
  "refresh_template X cfg answers src e = Some (Inr (), e') \<Longrightarrow>
   en_pending e' = 0 \<and> (\<exists>gbt clk. (Inr gbt, clk) \<in> set answers \<and> en_last_gbt_success_ms e' = ck_ms clk)"
proof (induction X cfg answers src e rule: refresh_template.induct)
  case (1 X cfg source self)
  then show ?case by simp
next
  case (2 X cfg answer clk answers source self)
  obtain gbt where gbt: "answer = Inr gbt" using "2.prems" by (cases answer) auto
  obtain r e1 where a: "apply_gbt_response X cfg gbt source clk self = (r, e1)" by fastforce
  with "2.prems" gbt have r: "r = Inr ()" by (cases r) auto
  let ?e2 = "note_gbt_success (ck_ms clk) e1"
  show ?case
  proof (cases "fst (take_pending_refresh_source ?e2)")
    case None
    with "2.prems" gbt a r show ?thesis
      by (auto simp: take_pending_refresh_source_def note_gbt_success_def Let_def
        intro!: exI [of _ gbt] exI [of _ clk])
  next
    case (Some src')
    obtain e3 where e3: "take_pending_refresh_source ?e2 = (Some src', e3)"
      using Some by (metis prod.collapse)
    with "2.prems" gbt a r have "refresh_template X cfg answers src' e3 = Some (Inr (), e')"
      by (simp add: Let_def)
    from "2.IH" [OF gbt a [symmetric] r refl, unfolded Let_def, OF e3 [symmetric] refl this] show ?thesis by auto
  qed
qed

subsection \<open>A sample run\<close>

definition sample_gbt :: gbt_response where
  "sample_gbt =
     \<lparr>gbt_rules = [''!segwit''], gbt_longpollid = None, gbt_submitold = None, gbt_vbrequired = 0,
      gbt_version = 0x20000000, gbt_previousblockhash = ref_hex_encode (replicate 32 1),
      gbt_transactions = [], gbt_coinbasevalue = 312500000, gbt_bits = ''1d00ffff'',
      gbt_curtime = 1700000000, gbt_mintime = None, gbt_height = 840000,
      gbt_target = ref_hex_encode (replicate 32 255), gbt_coinbaseaux = None,
      gbt_default_witness_commitment = None\<rparr>"

lemma sample_job:
  "\<exists>job. build_job ref_externs sample_config sample_gbt key src txroot n now = Inr job"
proof -
  obtain c1 c2 tx b b1 b2 where p:
    "build_coinbase_parts ref_externs sample_config 312500000 840000 None None = Inr (c1, c2, tx, b)"
    "ref_hex_decode c1 = Inr b1" "ref_hex_decode c2 = Inr b2"
    using sample_parts by auto
  have n: "u32_from_hex ''1d00ffff'' = Some 0x1d00ffff"
    by (simp add: u32_from_hex_def hex_digit_def Let_def)
  show ?thesis
    by (simp add: build_job_def sample_gbt_def job_witness_commitment_def p ref_hex_roundtrip
      swap_words_def to_little_endian_def gbt_target_le_def n Let_def)
qed

lemma sample_run:
  "\<exists>e. (engine_step ref_externs sample_config ^^ 2) (engine_new pool_counters_default 0, None) (e, None) \<and>
     jt_ready (en_current e) \<and> jt_height (en_current e) = 840000"
proof -
  let ?e0 = "engine_new pool_counters_default 0"
  let ?e1 = "?e0\<lparr>en_permit := False\<rparr>"
  define clk where "clk = \<lparr>ck_ms = 0, ck_secs = 0, ck_utc = 0\<rparr>"
  define root where "root = compute_txid_partial_root ref_externs (gbt_transactions sample_gbt)"
  define key where "key = gbt_template_key sample_gbt root"
  obtain job where job: "build_job ref_externs sample_config sample_gbt key Startup root 1 (ck_utc clk) = Inr job"
    using sample_job by blast
  define e2 where "e2 = snd (apply_gbt_body ref_externs sample_config sample_gbt Startup clk ?e1)"
  have "en_current e2 = job"
    using job
    by (simp add: e2_def apply_gbt_body_def is_gbt_older_than_current_def engine_new_def empty_template_def
      sample_gbt_def [THEN arg_cong [where f = gbt_rules], simplified]
      sample_gbt_def [THEN arg_cong [where f = gbt_longpollid], simplified]
      strip_prefix_def is_supported_forced_rule_def root_def [symmetric] key_def [symmetric]
      publish_job_def update_chain_tip_from_job_def Let_def)
  moreover have "jt_ready job" "jt_height job = 840000"
    using build_job_built_from [OF job] by (auto simp: built_from_def sample_gbt_def)
  moreover have "engine_step ref_externs sample_config (?e0, None) (?e1, Some (GbtTask sample_gbt Startup))"
    by (rule engine_step.acquire) (simp add: engine_new_def)
  moreover have "engine_step ref_externs sample_config (?e1, Some (GbtTask sample_gbt Startup))
      (e2\<lparr>en_permit := True\<rparr>, None)"
    unfolding e2_def by (rule engine_step.finish_gbt)
  ultimately show ?thesis
    by (intro exI [of _ "e2\<lparr>en_permit := True\<rparr>"]) (auto simp: numeral_2_eq_2)
qed

lemma sample_empty_job:
  "\<exists>job. build_empty_job ref_externs sample_config tip (ref_hex_encode (replicate 32 0)) 840001 mtp key n secs now = Inr job"
proof -
  obtain parts where parts: "build_coinbase_parts ref_externs sample_config (block_subsidy_sat 840001) 840001 None None = Inr parts"
    using coinbase_parts_exist [OF validate_ok [OF sample_valid], of 840001 "block_subsidy_sat 840001"]
    by (simp del: split_paired_Ex) blast
  obtain c1 c2 tx b where p: "parts = (c1, c2, tx, b)" by (cases parts) auto
  obtain b1 b2 where "ref_hex_decode c1 = Inr b1" "ref_hex_decode c2 = Inr b2"
    using coinbase_parts_decode [OF ref_hex_ok parts [unfolded p]] by auto
  with parts p show ?thesis
    by (simp add: build_empty_job_def ref_hex_roundtrip swap_words_def to_little_endian_def Let_def)
qed

definition sample_tip :: chain_tip_state where
  "sample_tip = \<lparr>tip_hash_hex = ''aa'', tip_height = 839999, tip_median_time_past = 0,
     tip_nbits = ''1d00ffff'', tip_nbits_u32 = 0x1d00ffff, tip_target_le = replicate 32 255,
     tip_version_u32 = 0x20000000, tip_vbrequired = 0, tip_network_difficulty = 1\<rparr>"

definition sample_fast_block :: fast_block where
  "sample_fast_block = \<lparr>fb_prevhash_hex = ''AA'', fb_block_hash_hex = ref_hex_encode (replicate 32 0),
     fb_block_time = 5, fb_block_height = 840000, fb_block_nbits = 0x1d00ffff\<rparr>"

lemma sample_fast:
  "\<exists>e'. handle_fast_block_announcement ref_externs sample_config sample_fast_block
      \<lparr>ck_ms = 0, ck_secs = 0, ck_utc = 0\<rparr>
      ((engine_new pool_counters_default 0)\<lparr>en_chain_tip := Some sample_tip\<rparr>) = (Inr (), None, e')
    \<and> jt_ready (en_current e')"
proof -
  obtain t where t: "compact_target_to_le 0x1d00ffff = Some t"
    by (simp add: compact_target_to_le_def Let_def drop_bit_eq_div)
  then have len: "length t = 32" using compact_target_to_le_Some by blast
  have pow: "block_hash_meets_compact_target ref_externs (ref_hex_encode (replicate 32 0)) 0x1d00ffff = Inr True"
    using len by (simp add: block_hash_meets_compact_target_def ref_hex_roundtrip t leq_le256_le_to_nat le_to_nat_zeros)
  have prev: "eq_ignore_ascii_case ''aa'' ''AA''" by code_simp
  have next_h: "sat_add 840000 1 = (840001 :: u64)" by (simp add: sat_add_def)
  obtain job where job: "build_empty_job ref_externs sample_config sample_tip (ref_hex_encode (replicate 32 0)) 840001
      (max (tip_median_time_past sample_tip) 5) (fast_template_key sample_fast_block 840001 sample_tip) 1 0 0 = Inr job"
    using sample_empty_job by blast
  have ready: "jt_ready job" using build_empty_job_built [OF job] by (simp add: built_empty_def)
  show ?thesis
    using job ready
    by (simp add: handle_fast_block_announcement_def fast_block_body_def engine_new_def empty_template_def
      sample_fast_block_def [THEN arg_cong [where f = fb_prevhash_hex], simplified]
      sample_fast_block_def [THEN arg_cong [where f = fb_block_hash_hex], simplified]
      sample_fast_block_def [THEN arg_cong [where f = fb_block_height], simplified]
      sample_fast_block_def [THEN arg_cong [where f = fb_block_nbits], simplified]
      sample_fast_block_def [THEN arg_cong [where f = fb_block_time], simplified]
      sample_tip_def [THEN arg_cong [where f = tip_hash_hex], simplified]
      sample_tip_def [THEN arg_cong [where f = tip_height], simplified]
      sample_tip_def [THEN arg_cong [where f = tip_nbits_u32], simplified]
      pow next_h prev should_publish_fast_empty_job_for_network_def publish_fast_job_def ref_hex_roundtrip to_little_endian_def
      publish_job_def Let_def)
qed

subsection \<open>Properties\<close>

text \<open>C3 (\<open>TemplateEngine\<close>): in every interleaving of template refreshes, long polls, fast block
  announcements, ZMQ triggers and submissions, the current job is well formed, the deduplication
  key is its key, and the chain tip is its parent: one block lower, with the hash the job builds
  on, the same compact target and the same threshold.\<close>

theorem engine_tip_is_parent:
  assumes "hex_ok X" and "(engine_step X cfg ^^ n) (engine_new counters now, None) (e, t)"
    and "jt_ready (en_current e)"
  shows "jt_ok X (en_current e) \<and> en_last_template_key e = Some (jt_template_key (en_current e)) \<and>
    (jt_height (en_current e) \<noteq> 0 \<longrightarrow>
       (\<exists>tip. en_chain_tip e = Some tip \<and> parent_of X tip (en_current e)))"
  using engine_steps_ok [OF assms(1) engine_new_ok assms(2)] assms(3)
  by (auto simp: engine_ok_def)

theorem engine_tip_is_parent_witness:
  "\<exists>(e :: engine) tip. en_chain_tip e = Some tip \<and> parent_of ref_externs tip (en_current e) \<and>
     jt_height (en_current e) = 840000"
proof -
  obtain e where e: "(engine_step ref_externs sample_config ^^ 2) (engine_new pool_counters_default 0, None) (e, None)"
    "jt_ready (en_current e)" "jt_height (en_current e) = 840000"
    using sample_run by blast
  from engine_tip_is_parent [OF ref_hex_ok e(1,2)] e(3)
  obtain tip where "en_chain_tip e = Some tip" "parent_of ref_externs tip (en_current e)" by auto
  with e(3) show ?thesis by blast
qed

text \<open>C4 (\<open>publish_job\<close>, \<open>job_counter\<close>): along every run, however the tasks interleave, the height of
  the current job never falls, and two different jobs never get the same identifier as long as
  the 64-bit counter has not come around.\<close>

theorem engine_jobs_monotone:
  assumes "hex_ok X" and "(engine_step X cfg ^^ m) (engine_new counters now, None) s"
    and "(engine_step X cfg ^^ n) s s'" and "n < 2 ^ 64" and "jt_ready (en_current (fst s))"
  shows "jt_ready (en_current (fst s')) \<and>
    jt_height (en_current (fst s)) \<le> jt_height (en_current (fst s')) \<and>
    (jt_job_id (en_current (fst s')) = jt_job_id (en_current (fst s)) \<longrightarrow>
       en_current (fst s') = en_current (fst s))"
proof -
  have ok: "engine_ok X s" by (rule engine_steps_ok [OF assms(1) engine_new_ok assms(2)])
  have ok': "engine_ok X s'" by (rule engine_steps_ok [OF assms(1) ok assms(3)])
  obtain k where k: "k \<le> n" "en_job_counter (fst s') = en_job_counter (fst s) + of_nat k"
    "k = 0 \<longrightarrow> en_current (fst s') = en_current (fst s)"
    "jt_ready (en_current (fst s'))" "jt_height (en_current (fst s)) \<le> jt_height (en_current (fst s'))"
    using engine_steps_counter [OF assms(1) ok assms(3)] assms(5) by blast
  have "k = 0" if "jt_job_id (en_current (fst s')) = jt_job_id (en_current (fst s))"
  proof -
    have "dec_digits (unat (en_job_counter (fst s') - 1)) = dec_digits (unat (en_job_counter (fst s) - 1))"
      using that engine_ok_id [OF ok assms(5)] engine_ok_id [OF ok' k(4)] by simp
    then have "en_job_counter (fst s') - 1 = en_job_counter (fst s) - 1"
      by (auto dest!: dec_digits_inj simp: word_unat_eq_iff)
    with k(2) have "(of_nat k :: u64) = 0" by simp
    with k(1) assms(4) show "k = 0" by (auto simp: word_of_nat_eq_0_iff dest: dvd_imp_le)
  qed
  with k show ?thesis by blast
qed

theorem engine_jobs_monotone_witness:
  "\<exists>(e :: engine) (e' :: engine). jt_ready (en_current e) \<and>
     jt_height (en_current e) \<le> jt_height (en_current e')"
proof -
  obtain e where e: "(engine_step ref_externs sample_config ^^ 2) (engine_new pool_counters_default 0, None) (e, None)"
    "jt_ready (en_current e)" using sample_run by blast
  have "(engine_step ref_externs sample_config ^^ 1) (e, None) (engine_subscribe e, None)"
    by (simp add: engine_step.subscribe relcompp.simps)
  from engine_jobs_monotone [OF ref_hex_ok e(1) this] e(2) show ?thesis by auto
qed

text \<open>C22 (\<open>handle_fast_block_announcement\<close>): an announced block changes the current job only when no
  other task holds the permit, the block extends the tip by one with the tip's compact target, its
  hash meets that target, the network is the main one and the next block starts no new difficulty
  period; the new job is then empty, one higher than the block, on top of its hash, and pays the
  subsidy.\<close>

theorem fast_job_guarded:
  assumes "hex_ok X" and "handle_fast_block_announcement X cfg blk clk e = (r, spawned, e')"
    and "en_current e' \<noteq> en_current e"
  shows "en_permit e \<and> r = Inr () \<and> spawned = None \<and>
    (\<exists>tip mtp key. en_chain_tip e = Some tip \<and> fast_guards X cfg blk tip \<and>
       built_empty X cfg tip (fb_block_hash_hex blk) (fb_block_height blk + 1) mtp key
         (en_job_counter e) (en_current e') \<and>
       (jt_ready (en_current e) \<longrightarrow> jt_height (en_current e) \<le> jt_height (en_current e')))"
proof -
  have permit: "en_permit e" and body: "fast_block_body X cfg blk clk e = (r, spawned, e')"
    using assms(2,3) by (auto simp: handle_fast_block_announcement_def split: if_splits)
  from fast_block_body_cases [OF assms(1) body] permit assms(3) show ?thesis
    by (auto simp: same_published_def published_def)
qed

theorem fast_job_guarded_witness:
  "\<exists>(e :: engine) e' r spawned. handle_fast_block_announcement ref_externs sample_config sample_fast_block
      \<lparr>ck_ms = 0, ck_secs = 0, ck_utc = 0\<rparr> e = (r, spawned, e')
    \<and> fast_guards ref_externs sample_config sample_fast_block sample_tip"
proof -
  let ?e = "(engine_new pool_counters_default 0)\<lparr>en_chain_tip := Some sample_tip\<rparr>"
  obtain e' where e': "handle_fast_block_announcement ref_externs sample_config sample_fast_block
      \<lparr>ck_ms = 0, ck_secs = 0, ck_utc = 0\<rparr> ?e = (Inr (), None, e')" "jt_ready (en_current e')"
    using sample_fast by blast
  have "en_current e' \<noteq> en_current ?e"
  proof
    assume "en_current e' = en_current ?e"
    then have "jt_ready (en_current ?e)" using e'(2) by simp
    then show False by (simp add: engine_new_def empty_template_def)
  qed
  from fast_job_guarded [OF ref_hex_ok e'(1) this]
  have "fast_guards ref_externs sample_config sample_fast_block sample_tip" by simp
  with e'(1) show ?thesis by blast
qed

text \<open>\<open>refresh_template\<close>: a refresh that returns without error has taken every request that
  was deferred to it: the pending slot is empty, and the time of the last success is that of one of
  the answers it applied.\<close>

theorem refresh_takes_pending:
  "refresh_template X cfg answers src e = Some (Inr (), e') \<Longrightarrow>
   en_pending e' = 0 \<and> (\<exists>gbt clk. (Inr gbt, clk) \<in> set answers \<and> en_last_gbt_success_ms e' = ck_ms clk)"
  by (rule refresh_template_done)

theorem refresh_takes_pending_witness:
  "\<exists>e'. refresh_template ref_externs sample_config
      [(Inr (sample_gbt\<lparr>gbt_height := 0\<rparr>), \<lparr>ck_ms = 5, ck_secs = 0, ck_utc = 0\<rparr>),
       (Inr (sample_gbt\<lparr>gbt_height := 0\<rparr>), \<lparr>ck_ms = 6, ck_secs = 0, ck_utc = 0\<rparr>)] Longpoll
      ((engine_new pool_counters_default 0)
        \<lparr>en_current := (empty_template 0)\<lparr>jt_ready := True, jt_height := 9\<rparr>, en_pending := 3\<rparr>) =
      Some (Inr (), e') \<and> en_pending e' = 0"
proof -
  obtain e' where r: "refresh_template ref_externs sample_config
      [(Inr (sample_gbt\<lparr>gbt_height := 0\<rparr>), \<lparr>ck_ms = 5, ck_secs = 0, ck_utc = 0\<rparr>),
       (Inr (sample_gbt\<lparr>gbt_height := 0\<rparr>), \<lparr>ck_ms = 6, ck_secs = 0, ck_utc = 0\<rparr>)] Longpoll
      ((engine_new pool_counters_default 0)
        \<lparr>en_current := (empty_template 0)\<lparr>jt_ready := True, jt_height := 9\<rparr>, en_pending := 3\<rparr>) =
      Some (Inr (), e')"
    by (simp add: apply_gbt_response_def apply_gbt_body_def is_gbt_older_than_current_def
      engine_new_def count_def take_pending_refresh_source_def note_gbt_success_def
      from_pending_slot_def Let_def)
  from refresh_takes_pending [OF r] r show ?thesis by auto
qed

text \<open>C24 (\<open>submit_block\<close>): a block is offered to the node up to five times; failed calls are only
  followed by the next one, the first answer decides (accepted, duplicate or rejected with the
  node's reason, one counter each), and only five failed calls give the error, after 7.5 seconds of
  waiting, with the lost block counted.\<close>

theorem submit_block_outcome:
  "(\<forall>n < 5. (\<forall>m < n. \<exists>err. rpc m = Inl err) \<longrightarrow>
      (rpc n = Inr None \<longrightarrow>
         submit_block rpc e = (Inr Submitted, count inc_submitblock_accepted e,
           sum_list (map unat (take (Suc n) submit_delays_ms)))) \<and>
      (rpc n = Inr (Some ''duplicate'') \<longrightarrow>
         submit_block rpc e = (Inr Duplicate, count inc_submitblock_accepted e,
           sum_list (map unat (take (Suc n) submit_delays_ms)))) \<and>
      (\<forall>reason. rpc n = Inr (Some reason) \<and> reason \<noteq> ''duplicate'' \<longrightarrow>
         submit_block rpc e = (Inr (Rejected reason), count inc_submitblock_rejected e,
           sum_list (map unat (take (Suc n) submit_delays_ms))))) \<and>
   ((\<forall>m < 5. \<exists>err. rpc m = Inl err) \<longrightarrow>
      submit_block rpc e =
        (Inl ''submitblock RPC failed after all retries; BLOCK MAY BE LOST'',
         count inc_submitblock_rpc_fail e, 7500))"
proof -
  have len: "length submit_delays_ms = 5" by (simp add: submit_delays_ms_def)
  have a: "submit_block rpc e = (case submit_attempts rpc n (submit_delays_ms ! n # drop (Suc n) submit_delays_ms) le e of
      (r, e', slept) \<Rightarrow> (r, e', sum_list (map unat (take n submit_delays_ms)) + slept))"
    if "n < 5" and "submit_block rpc e = (case submit_attempts rpc n (drop n submit_delays_ms) le e of
       (r, e', slept) \<Rightarrow> (r, e', sum_list (map unat (take n submit_delays_ms)) + slept))" for n le
    using that len by (simp add: Cons_nth_drop_Suc)
  have b: "sum_list (map unat (take (Suc n) submit_delays_ms)) =
      sum_list (map unat (take n submit_delays_ms)) + unat (submit_delays_ms ! n)" if "n < 5" for n
    using that len by (simp add: take_Suc_conv_app_nth)
  have c: "\<exists>le. submit_block rpc e = (case submit_attempts rpc n (drop n submit_delays_ms) le e of
       (r, e', slept) \<Rightarrow> (r, e', sum_list (map unat (take n submit_delays_ms)) + slept)) \<and> (n \<noteq> 0 \<longrightarrow> le \<noteq> None)"
    if "n \<le> 5" and "\<forall>m < n. \<exists>err. rpc m = Inl err" for n
    using submit_attempts_errors [of n rpc 0 submit_delays_ms None e] that len
    by (auto simp: submit_block_def)
  show ?thesis
  proof (intro conjI allI impI)
    fix n :: nat assume n: "n < 5" "\<forall>m < n. \<exists>err. rpc m = Inl err"
    from c [of n] n obtain le where "submit_block rpc e =
      (case submit_attempts rpc n (drop n submit_delays_ms) le e of
       (r, e', slept) \<Rightarrow> (r, e', sum_list (map unat (take n submit_delays_ms)) + slept))" by auto
    note eq = a [OF n(1) this]
    show "rpc n = Inr None \<Longrightarrow> submit_block rpc e = (Inr Submitted, count inc_submitblock_accepted e,
           sum_list (map unat (take (Suc n) submit_delays_ms)))"
      and "rpc n = Inr (Some ''duplicate'') \<Longrightarrow> submit_block rpc e = (Inr Duplicate, count inc_submitblock_accepted e,
           sum_list (map unat (take (Suc n) submit_delays_ms)))"
      using n(1) by (simp_all add: eq b)
    fix reason assume "rpc n = Inr (Some reason) \<and> reason \<noteq> ''duplicate''"
    then show "submit_block rpc e = (Inr (Rejected reason), count inc_submitblock_rejected e,
           sum_list (map unat (take (Suc n) submit_delays_ms)))"
      using n(1) by (simp add: eq b)
  next
    assume "\<forall>m < 5. \<exists>err. rpc m = Inl err"
    with c [of 5] obtain le where "submit_block rpc e =
      (case submit_attempts rpc 5 (drop 5 submit_delays_ms) le e of
       (r, e', slept) \<Rightarrow> (r, e', sum_list (map unat (take 5 submit_delays_ms)) + slept))" "le \<noteq> None" by auto
    then show "submit_block rpc e =
        (Inl ''submitblock RPC failed after all retries; BLOCK MAY BE LOST'',
         count inc_submitblock_rpc_fail e, 7500)"
      by (auto simp: submit_delays_ms_def)
  qed
qed

theorem submit_block_outcome_witness:
  "\<exists>e :: engine. submit_block (\<lambda>n. if n = 0 then Inl ''x'' else Inr (Some ''duplicate'')) e =
     (Inr Duplicate, count inc_submitblock_accepted e, 500)"
proof -
  let ?rpc = "\<lambda>n :: nat. if n = 0 then Inl ''x'' else Inr (Some ''duplicate'')"
  let ?e = "engine_new pool_counters_default 0"
  have "(1::nat) < 5" "\<forall>m < 1. \<exists>err. ?rpc m = Inl err" "?rpc 1 = Inr (Some ''duplicate'')" by simp_all
  with submit_block_outcome [of ?rpc ?e]
  have "submit_block ?rpc ?e = (Inr Duplicate, count inc_submitblock_accepted ?e,
    sum_list (map unat (take (Suc 1) submit_delays_ms)))" by blast
  then have "submit_block ?rpc ?e = (Inr Duplicate, count inc_submitblock_accepted ?e, 500)"
    by (simp add: submit_delays_ms_def)
  then show ?thesis by blast
qed

end
