(* ===== verification/Tasks.thy ===== *)
theory Tasks
  imports Template_Engine
begin

text \<open>
  The asynchronous tasks of a client connection. A handler is a value of \<open>prog\<close>: a tree of
  atomic operations, one constructor per kind of operation that other tasks can observe, in the
  order of the code; what follows an operation is a function of its result. A section that holds
  the lock of the session (\<open>lock().await { ... }\<close>) is one \<open>Locked\<close>. \<open>task_step\<close> runs any number
  of such tasks against one session in any interleaving. The rely/guarantee rule at the end
  (\<open>safe\<close>, locale \<open>rely_guarantee\<close>) is how the connections prove what every interleaving keeps.
\<close>

subsection \<open>Programs\<close>

text \<open>
  A reading of what a task does not control: the clocks, the time since the request was read, the
  engine's current job, the job in its \<open>watch\<close> channel, whether the session's channel is closed, the
  order in which a hash map is iterated (its keys in any order) and the random generator.
\<close>

record reading =
  rd_now :: instant
  rd_secs :: u64
  rd_ms :: u64
  rd_elapsed_us :: nat
  rd_current :: job_template
  rd_watch :: job_template
  rd_closed :: bool
  rd_order :: "u32 list"
  rd_random :: "nat \<Rightarrow> u8"

text \<open>The keys of a hash map, in the order of the reading.\<close>

definition map_order :: "reading \<Rightarrow> u32 list \<Rightarrow> u32 list" where
  "map_order rd ks =
     filter (\<lambda>k. k \<in> set ks) (remdups (rd_order rd)) @ filter (\<lambda>k. k \<notin> set (rd_order rd)) ks"

lemma set_map_order [simp]: "set (map_order rd ks) = set ks"
  by (auto simp: map_order_def)

lemma distinct_map_order: "distinct ks \<Longrightarrow> distinct (map_order rd ks)"
  by (auto simp: map_order_def)

text \<open>Every order of the keys is one of these.\<close>

lemma map_order_any:
  assumes "distinct ks" and "set ord = set ks" and "distinct ord"
  shows "map_order (rd\<lparr>rd_order := ord\<rparr>) ks = ord"
  using assms by (simp add: map_order_def filter_id_conv distinct_remdups_id)

text \<open>
  What all connections share: the metrics store and the registry of the sessions whose latency
  can be probed, by worker; a handle is the number of its connection.
\<close>

record shared =
  sh_metrics :: metrics_store
  sh_registry :: "(string \<times> nat) list"

text \<open>The arguments of \<open>TemplateEngine::submit_block\<close>.\<close>

record submission =
  su_block_hex :: string
  su_block_hash :: string
  su_template_key :: string
  su_coinbase_hex :: string
  su_txid_root :: string
  su_witness :: string

text \<open>
  \<^item> \<open>Return\<close>: the task waits for its next event; \<open>Panic\<close>: it unwinds;
  \<^item> \<open>Read\<close>: it reads a clock or the engine's job;
  \<^item> \<open>Locked\<close>: a section that holds the session's lock;
  \<^item> \<open>Load\<close>: it reads the session without changing it (a locked section that only reads, or an
    atomic load);
  \<^item> \<open>Send\<close>: \<open>tx.send(m).await\<close>, with whether the channel took the message; while the channel is
    full the task waits here;
  \<^item> \<open>Shared\<close>: an operation of the metrics store or the registry;
  \<^item> \<open>SubmitBlock\<close>: \<open>TemplateEngine::submit_block\<close>, with its outcome;
  \<^item> \<open>Spawn\<close>: \<open>tokio::spawn\<close> of another task.
\<close>

datatype ('s, 'm) prog =
    Return
  | Panic
  | Read "reading \<Rightarrow> ('s, 'm) prog"
  | Locked "reading \<Rightarrow> 's \<Rightarrow> 's \<times> ('s, 'm) prog"
  | Load "'s \<Rightarrow> ('s, 'm) prog"
  | Send 'm "bool \<Rightarrow> ('s, 'm) prog"
  | Shared "instant \<Rightarrow> shared \<Rightarrow> shared" "('s, 'm) prog"
  | SubmitBlock submission "submit_block_outcome result \<Rightarrow> ('s, 'm) prog"
  | Spawn "('s, 'm) prog" "('s, 'm) prog"

definition Metric :: "(instant \<Rightarrow> metrics_store \<Rightarrow> metrics_store) \<Rightarrow> ('s, 'm) prog \<Rightarrow> ('s, 'm) prog" where
  "Metric f p = Shared (\<lambda>now sh. sh\<lparr>sh_metrics := f now (sh_metrics sh)\<rparr>) p"

definition Count :: "(pool_counters \<Rightarrow> pool_counters) \<Rightarrow> ('s, 'm) prog \<Rightarrow> ('s, 'm) prog" where
  "Count f p = Metric (\<lambda>now st. st\<lparr>st_counters := f (st_counters st)\<rparr>) p"

text \<open>\<open>let _ = tx.send(m).await;\<close>\<close>

definition Tell :: "'m \<Rightarrow> ('s, 'm) prog \<Rightarrow> ('s, 'm) prog" where
  "Tell m p = Send m (\<lambda>_. p)"

fun tell_all :: "'m list \<Rightarrow> ('s, 'm) prog \<Rightarrow> ('s, 'm) prog" where
  "tell_all [] p = p"
| "tell_all (m # ms) p = Tell m (tell_all ms p)"

text \<open>\<open>tx.send(m).await?\<close> over a list: stops at the first failure.\<close>

fun send_all :: "'m list \<Rightarrow> (bool \<Rightarrow> ('s, 'm) prog) \<Rightarrow> ('s, 'm) prog" where
  "send_all [] k = k True"
| "send_all (m # ms) k = Send m (\<lambda>ok. if ok then send_all ms k else k False)"

subsection \<open>Interleaving\<close>

text \<open>
  The state of a connection: session, shared store, the messages that the channel has taken, oldest
  first, and how many of them the writer has written to the peer. \<open>cn_capacity\<close> is the number of
  messages that the channel holds; \<open>None\<close> stands for a writer that is the task itself, whose peer
  decides what it takes. \<open>cn_closed\<close> is set once the writer has ended.
\<close>

record ('s, 'm) conn =
  cn_session :: 's
  cn_shared :: shared
  cn_sent :: "'m list"
  cn_taken :: nat
  cn_capacity :: "nat option"
  cn_closed :: bool

definition has_room :: "('s, 'm) conn \<Rightarrow> bool" where
  "has_room c \<longleftrightarrow> (case cn_capacity c of None \<Rightarrow> True | Some n \<Rightarrow> length (cn_sent c) < cn_taken c + n)"

text \<open>
  One operation of one task; \<open>E\<close> bounds the readings. A \<open>Send\<close> is answered when the channel has room
  or is closed; otherwise the task has no operation and waits, for ever if the writer never takes a
  message. \<open>SubmitBlock\<close> stands for the whole of \<open>submit_block\<close> (\<open>Template_Engine\<close>); like any other
  operation it may never be reached or answered in a run.
\<close>

inductive act ::
  "(reading \<Rightarrow> bool) \<Rightarrow> ('s, 'm) conn \<Rightarrow> ('s, 'm) prog \<Rightarrow> ('s, 'm) conn \<Rightarrow> ('s, 'm) prog \<Rightarrow> ('s, 'm) prog list \<Rightarrow> bool"
  for E where
  read: "E rd \<Longrightarrow> act E c (Read k) c (k rd) []"
| locked: "E rd \<Longrightarrow> act E c (Locked f) (c\<lparr>cn_session := fst (f rd (cn_session c))\<rparr>) (snd (f rd (cn_session c))) []"
| load: "act E c (Load k) c (k (cn_session c)) []"
| sent: "\<not> cn_closed c \<Longrightarrow> has_room c \<Longrightarrow> act E c (Send m k) (c\<lparr>cn_sent := cn_sent c @ [m]\<rparr>) (k True) []"
| closed: "cn_closed c \<Longrightarrow> act E c (Send m k) c (k False) []"
| shared: "act E c (Shared f p) (c\<lparr>cn_shared := f now (cn_shared c)\<rparr>) p []"
| submit: "act E c (SubmitBlock b k) c (k r) []"
| spawn: "act E c (Spawn q p) c p [q]"

text \<open>
  Any task moves, or an idle task takes its next event: \<open>starts i p\<close> says that \<open>p\<close> is a handler of
  task \<open>i\<close>. Beside them the writer writes the next message of the channel, or ends.
\<close>

inductive task_step ::
  "(reading \<Rightarrow> bool) \<Rightarrow> (nat \<Rightarrow> ('s, 'm) prog \<Rightarrow> bool) \<Rightarrow>
   ('s, 'm) conn \<times> ('s, 'm) prog list \<Rightarrow> ('s, 'm) conn \<times> ('s, 'm) prog list \<Rightarrow> bool"
  for E starts where
  move: "i < length ts \<Longrightarrow> act E c (ts ! i) c' p ps \<Longrightarrow> task_step E starts (c, ts) (c', ts[i := p] @ ps)"
| event: "i < length ts \<Longrightarrow> ts ! i = Return \<Longrightarrow> starts i p \<Longrightarrow> task_step E starts (c, ts) (c, ts[i := p])"
| written: "cn_taken c < length (cn_sent c) \<Longrightarrow>
    task_step E starts (c, ts) (c\<lparr>cn_taken := Suc (cn_taken c)\<rparr>, ts)"
| hangup: "task_step E starts (c, ts) (c\<lparr>cn_closed := True\<rparr>, ts)"

inductive_cases task_stepE: "task_step E starts s s'"

text \<open>Steps of the first task, for runs written out.\<close>

lemma head_event: "starts 0 p \<Longrightarrow> (task_step E starts)\<^sup>*\<^sup>* (c, Return # ts) (c, p # ts)"
  using task_step.event [of 0 "Return # ts" starts p E c] by auto

lemma head_move: "act E c p c' p' [] \<Longrightarrow> (task_step E starts)\<^sup>*\<^sup>* (c, p # ts) (c', p' # ts)"
  using task_step.move [of 0 "p # ts" E c c' p' "[]" starts] by auto

inductive_simps act_simps [simp]:
  "act E c Return c' p ps"
  "act E c Panic c' p ps"
  "act E c (Read k) c' p ps"
  "act E c (Locked f) c' p ps"
  "act E c (Load k) c' p ps"
  "act E c (Send m k) c' p ps"
  "act E c (Shared f q) c' p ps"
  "act E c (SubmitBlock b r) c' p ps"
  "act E c (Spawn q r) c' p ps"

text \<open>A task whose channel is full waits.\<close>

lemma full_channel_waits: "\<not> cn_closed c \<Longrightarrow> \<not> has_room c \<Longrightarrow> \<not> act E c (Send m k) c' p ps"
  by simp

text \<open>The channel never holds more messages than its capacity, and the writer writes them in order.\<close>

definition channel_ok :: "('s, 'm) conn \<Rightarrow> bool" where
  "channel_ok c \<longleftrightarrow> cn_taken c \<le> length (cn_sent c) \<and>
     (\<forall>n. cn_capacity c = Some n \<longrightarrow> length (cn_sent c) \<le> cn_taken c + n)"

lemma act_channel:
  "act E c p c' p' ps \<Longrightarrow> channel_ok c \<Longrightarrow> channel_ok c' \<and> cn_capacity c' = cn_capacity c"
  by (cases p) (auto simp: channel_ok_def has_room_def)

lemma task_step_channel:
  assumes "task_step E starts x y" and "channel_ok (fst x)"
  shows "channel_ok (fst y) \<and> cn_capacity (fst y) = cn_capacity (fst x)"
  using assms(1)
proof (cases rule: task_step.cases)
  case (written c ts)
  with assms(2) show ?thesis by (auto simp: channel_ok_def)
qed (use assms(2) act_channel in \<open>fastforce simp: channel_ok_def\<close>)+

lemma task_steps_channel:
  assumes "(task_step E starts)\<^sup>*\<^sup>* x y" and "channel_ok (fst x)"
  shows "channel_ok (fst y) \<and> cn_capacity (fst y) = cn_capacity (fst x)"
  using assms by (induction rule: rtranclp_induct) (use task_step_channel in fastforce)+

lemma head_tell:
  "\<not> cn_closed c \<Longrightarrow> has_room c \<Longrightarrow>
   (task_step E starts)\<^sup>*\<^sup>* (c, Tell m p # ts) (c\<lparr>cn_sent := cn_sent c @ [m]\<rparr>, p # ts)"
  unfolding Tell_def by (rule head_move) simp

lemma head_locked:
  "E rd \<Longrightarrow> f rd (cn_session c) = (t, p) \<Longrightarrow>
   (task_step E starts)\<^sup>*\<^sup>* (c, Locked f # ts) (c\<lparr>cn_session := t\<rparr>, p # ts)"
  by (rule head_move) (auto intro!: exI [of _ rd])

lemma head_read: "E rd \<Longrightarrow> (task_step E starts)\<^sup>*\<^sup>* (c, Read k # ts) (c, k rd # ts)"
  by (rule head_move) auto

lemma head_count:
  "(task_step E starts)\<^sup>*\<^sup>* (c, Count f p # ts)
     (c\<lparr>cn_shared := (cn_shared c)\<lparr>sh_metrics := (sh_metrics (cn_shared c))
        \<lparr>st_counters := f (st_counters (sh_metrics (cn_shared c)))\<rparr>\<rparr>\<rparr>, p # ts)"
  unfolding Count_def Metric_def by (rule head_move) auto

subsection \<open>Rely and guarantee\<close>

text \<open>
  \<open>safe I R Q E s p\<close>: from a state that the environment reaches from \<open>s\<close> by \<open>R\<close>, the program \<open>p\<close>
  keeps the invariant \<open>I\<close>, changes the session only by \<open>R\<close>, sends only messages that \<open>Q\<close> allows in
  the state at that moment, and does not panic (there is no rule for \<open>Panic\<close>).
\<close>

inductive safe ::
  "('s \<Rightarrow> bool) \<Rightarrow> ('s \<Rightarrow> 's \<Rightarrow> bool) \<Rightarrow> ('s \<Rightarrow> 'm \<Rightarrow> bool) \<Rightarrow> (reading \<Rightarrow> bool) \<Rightarrow> 's \<Rightarrow> ('s, 'm) prog \<Rightarrow> bool"
  for I R Q E where
  Return: "safe I R Q E s Return"
| Read: "(\<And>rd. E rd \<Longrightarrow> safe I R Q E s (k rd)) \<Longrightarrow> safe I R Q E s (Read k)"
| Locked: "(\<And>rd t. E rd \<Longrightarrow> R s t \<Longrightarrow> I t \<Longrightarrow>
      I (fst (f rd t)) \<and> R t (fst (f rd t)) \<and> safe I R Q E (fst (f rd t)) (snd (f rd t))) \<Longrightarrow>
    safe I R Q E s (Locked f)"
| Load: "(\<And>t. R s t \<Longrightarrow> I t \<Longrightarrow> safe I R Q E t (k t)) \<Longrightarrow> safe I R Q E s (Load k)"
| Send: "(\<And>t. R s t \<Longrightarrow> I t \<Longrightarrow> Q t m) \<Longrightarrow> (\<And>b. safe I R Q E s (k b)) \<Longrightarrow> safe I R Q E s (Send m k)"
| Shared: "safe I R Q E s p \<Longrightarrow> safe I R Q E s (Shared f p)"
| SubmitBlock: "(\<And>r. safe I R Q E s (k r)) \<Longrightarrow> safe I R Q E s (SubmitBlock b k)"
| Spawn: "safe I R Q E s q \<Longrightarrow> safe I R Q E s p \<Longrightarrow> safe I R Q E s (Spawn q p)"

inductive_simps safe_simps:
  "safe I R Q E s Panic"
  "safe I R Q E s (Read k)"
  "safe I R Q E s (Locked f)"
  "safe I R Q E s (Load k)"
  "safe I R Q E s (Send m k)"
  "safe I R Q E s (Shared f p)"
  "safe I R Q E s (SubmitBlock b r)"
  "safe I R Q E s (Spawn q p)"

text \<open>What a locked section may return in a state.\<close>

definition section_ok ::
  "('s \<Rightarrow> bool) \<Rightarrow> ('s \<Rightarrow> 's \<Rightarrow> bool) \<Rightarrow> ('s \<Rightarrow> 'm \<Rightarrow> bool) \<Rightarrow> (reading \<Rightarrow> bool) \<Rightarrow>
   's \<Rightarrow> 's \<times> ('s, 'm) prog \<Rightarrow> bool" where
  "section_ok I R Q E t x \<longleftrightarrow> I (fst x) \<and> R t (fst x) \<and> safe I R Q E (fst x) (snd x)"

lemma section_okI: "I u \<Longrightarrow> R t u \<Longrightarrow> safe I R Q E u p \<Longrightarrow> section_ok I R Q E t (u, p)"
  by (simp add: section_ok_def)

lemma safe_LockedI:
  "(\<And>rd t. E rd \<Longrightarrow> R s t \<Longrightarrow> I t \<Longrightarrow> section_ok I R Q E t (f rd t)) \<Longrightarrow> safe I R Q E s (Locked f)"
  by (rule safe.Locked) (simp add: section_ok_def)

lemmas safe_intros = safe.Return safe.Read safe.Locked safe.Load safe.Send safe.Shared safe.SubmitBlock safe.Spawn

lemma safe_Metric [intro]: "safe I R Q E s p \<Longrightarrow> safe I R Q E s (Metric f p)"
  by (simp add: Metric_def safe.Shared)

lemma safe_Count [intro]: "safe I R Q E s p \<Longrightarrow> safe I R Q E s (Count f p)"
  by (simp add: Count_def safe_Metric)

lemma safe_Tell [intro]:
  "(\<And>t. R s t \<Longrightarrow> I t \<Longrightarrow> Q t m) \<Longrightarrow> safe I R Q E s p \<Longrightarrow> safe I R Q E s (Tell m p)"
  unfolding Tell_def by (rule safe.Send)

lemma safe_tell_all:
  "(\<And>m t. m \<in> set ms \<Longrightarrow> R s t \<Longrightarrow> I t \<Longrightarrow> Q t m) \<Longrightarrow> safe I R Q E s p \<Longrightarrow> safe I R Q E s (tell_all ms p)"
  by (induction ms) auto

lemma safe_send_all:
  "(\<And>m t. m \<in> set ms \<Longrightarrow> R s t \<Longrightarrow> I t \<Longrightarrow> Q t m) \<Longrightarrow> (\<And>b. safe I R Q E s (k b)) \<Longrightarrow>
   safe I R Q E s (send_all ms k)"
  by (induction ms) (auto intro!: safe.Send)

locale rely_guarantee =
  fixes I :: "'s \<Rightarrow> bool"
    and R :: "'s \<Rightarrow> 's \<Rightarrow> bool"
    and Q :: "'s \<Rightarrow> 'm \<Rightarrow> bool"
  assumes R_refl: "R s s"
    and R_trans: "R s t \<Longrightarrow> R t u \<Longrightarrow> R s u"
    and Q_stable: "Q s m \<Longrightarrow> R s t \<Longrightarrow> Q t m"
begin

lemma safe_env: "safe I R Q E s p \<Longrightarrow> R s t \<Longrightarrow> safe I R Q E t p"
proof (induction rule: safe.induct)
  case (Locked s f)
  then show ?case by (intro safe.Locked) (meson R_trans)
next
  case (Load s k)
  then show ?case by (intro safe.Load) (meson R_trans)
next
  case (Send s m k)
  then show ?case by (intro safe.Send) (meson R_trans)+
qed (auto intro: safe_intros)

text \<open>A connection is in order when its session is, its messages are allowed and its tasks are safe.\<close>

definition conn_ok :: "(reading \<Rightarrow> bool) \<Rightarrow> ('s, 'm) conn \<times> ('s, 'm) prog list \<Rightarrow> bool" where
  "conn_ok E x \<longleftrightarrow> I (cn_session (fst x)) \<and> (\<forall>m \<in> set (cn_sent (fst x)). Q (cn_session (fst x)) m) \<and>
     (\<forall>p \<in> set (snd x). safe I R Q E (cn_session (fst x)) p)"

lemma act_ok:
  assumes "act E c p c' p' ps" and "I (cn_session c)" and "safe I R Q E (cn_session c) p"
  shows "I (cn_session c') \<and> R (cn_session c) (cn_session c') \<and>
    (\<forall>m \<in> set (cn_sent c'). m \<in> set (cn_sent c) \<or> Q (cn_session c') m) \<and>
    (\<forall>q \<in> insert p' (set ps). safe I R Q E (cn_session c') q)"
  using assms by (cases p) (auto simp: safe_simps R_refl)

lemma task_step_ok:
  assumes ok: "conn_ok E x" and step: "task_step E starts x y"
    and starts: "\<And>i p s. starts i p \<Longrightarrow> I s \<Longrightarrow> safe I R Q E s p"
  shows "conn_ok E y \<and> R (cn_session (fst x)) (cn_session (fst y))"
  using step
proof (cases rule: task_step.cases)
  case (move i ts c c' p ps)
  have "ts ! i \<in> set ts" using move(3) by simp
  with ok move(1) have "I (cn_session c)" "safe I R Q E (cn_session c) (ts ! i)" by (auto simp: conn_ok_def)
  from act_ok [OF move(4) this] have a: "I (cn_session c')" "R (cn_session c) (cn_session c')"
    "\<forall>m \<in> set (cn_sent c'). m \<in> set (cn_sent c) \<or> Q (cn_session c') m"
    "\<forall>q \<in> insert p (set ps). safe I R Q E (cn_session c') q" by auto
  have "safe I R Q E (cn_session c') q" if "q \<in> set (ts[i := p] @ ps)" for q
    using that a(4) ok move(1) safe_env [OF _ a(2)] set_update_subset_insert [of ts i p]
    by (auto simp: conn_ok_def)
  moreover have "\<forall>m \<in> set (cn_sent c'). Q (cn_session c') m"
    using a(3) ok move(1) Q_stable [OF _ a(2)] by (auto simp: conn_ok_def)
  ultimately show ?thesis using a(1,2) move(1,2) by (simp add: conn_ok_def)
next
  case (event i ts p c)
  with ok starts set_update_subset_insert [of ts i p] show ?thesis
    by (auto simp: conn_ok_def R_refl)
next
  case (written c ts)
  with ok show ?thesis by (simp add: conn_ok_def R_refl)
next
  case (hangup c ts)
  with ok show ?thesis by (simp add: conn_ok_def R_refl)
qed

lemma task_steps_ok:
  assumes "conn_ok E x" and "(task_step E starts)\<^sup>*\<^sup>* x y"
    and "\<And>i p s. starts i p \<Longrightarrow> I s \<Longrightarrow> safe I R Q E s p"
  shows "conn_ok E y \<and> R (cn_session (fst x)) (cn_session (fst y))"
  using assms(2)
proof (induction rule: rtranclp_induct)
  case base
  with assms(1) show ?case by (simp add: R_refl)
next
  case (step y z)
  from step.IH have "conn_ok E y" by simp
  then have "conn_ok E z \<and> R (cn_session (fst y)) (cn_session (fst z))"
    by (rule task_step_ok [OF _ step(2)]) (rule assms(3))
  with step.IH show ?case by (blast intro: R_trans)
qed

text \<open>No task has panicked, and none can: what a task does next is an operation.\<close>

lemma no_panic: "conn_ok E x \<Longrightarrow> Panic \<notin> set (snd x)"
  by (auto simp: conn_ok_def safe_simps)

end

subsection \<open>Traces of one task\<close>

text \<open>
  What one task does while others interfere: a locked section starts in any state. A trace of
  \<open>task_trace\<close> may stop anywhere; one of \<open>task_done\<close> runs to the end of the handler.
\<close>

datatype ('s, 'm) happened =
    Reads reading
  | Locks reading 's 's
  | Loads 's
  | Sends 'm bool
  | Shares "instant \<Rightarrow> shared \<Rightarrow> shared"
  | Submits submission "submit_block_outcome result"
  | Spawns "('s, 'm) prog"

inductive task_trace :: "('s, 'm) prog \<Rightarrow> ('s, 'm) happened list \<Rightarrow> bool" where
  "task_trace p []"
| "task_trace (k rd) es \<Longrightarrow> task_trace (Read k) (Reads rd # es)"
| "task_trace (snd (f rd s)) es \<Longrightarrow> task_trace (Locked f) (Locks rd s (fst (f rd s)) # es)"
| "task_trace (k s) es \<Longrightarrow> task_trace (Load k) (Loads s # es)"
| "task_trace (k b) es \<Longrightarrow> task_trace (Send m k) (Sends m b # es)"
| "task_trace p es \<Longrightarrow> task_trace (Shared f p) (Shares f # es)"
| "task_trace (k r) es \<Longrightarrow> task_trace (SubmitBlock b k) (Submits b r # es)"
| "task_trace p es \<Longrightarrow> task_trace (Spawn q p) (Spawns q # es)"

inductive task_done :: "('s, 'm) prog \<Rightarrow> ('s, 'm) happened list \<Rightarrow> bool" where
  "task_done Return []"
| "task_done (k rd) es \<Longrightarrow> task_done (Read k) (Reads rd # es)"
| "task_done (snd (f rd s)) es \<Longrightarrow> task_done (Locked f) (Locks rd s (fst (f rd s)) # es)"
| "task_done (k s) es \<Longrightarrow> task_done (Load k) (Loads s # es)"
| "task_done (k b) es \<Longrightarrow> task_done (Send m k) (Sends m b # es)"
| "task_done p es \<Longrightarrow> task_done (Shared f p) (Shares f # es)"
| "task_done (k r) es \<Longrightarrow> task_done (SubmitBlock b k) (Submits b r # es)"
| "task_done p es \<Longrightarrow> task_done (Spawn q p) (Spawns q # es)"

inductive_simps trace_simps:
  "task_trace Return es"
  "task_trace Panic es"
  "task_trace (Read k) es"
  "task_trace (Locked f) es"
  "task_trace (Load k) es"
  "task_trace (Send m k) es"
  "task_trace (Shared f p) es"
  "task_trace (SubmitBlock b r) es"
  "task_trace (Spawn q p) es"

lemma trace_derived_simps:
  "task_trace (Metric g p) es \<longleftrightarrow> es = [] \<or>
     (\<exists>es'. es = Shares (\<lambda>now sh. sh\<lparr>sh_metrics := g now (sh_metrics sh)\<rparr>) # es' \<and> task_trace p es')"
  "task_trace (Tell m p) es \<longleftrightarrow> es = [] \<or> (\<exists>b es'. es = Sends m b # es' \<and> task_trace p es')"
  by (auto simp: Metric_def Tell_def trace_simps)

inductive_simps done_simps:
  "task_done Return es"
  "task_done Panic es"
  "task_done (Read k) es"
  "task_done (Locked f) es"
  "task_done (Load k) es"
  "task_done (Send m k) es"
  "task_done (Shared f p) es"
  "task_done (SubmitBlock b r) es"
  "task_done (Spawn q p) es"

lemma task_done_trace: "task_done p es \<Longrightarrow> task_trace p es"
  by (induction rule: task_done.induct) (auto intro: task_trace.intros)

text \<open>A safe program has a run to its end in which the channel takes every message.\<close>

context rely_guarantee begin

lemma safe_runs:
  assumes "safe I R Q E s p" and "I s" and "E rd"
  shows "\<exists>es. task_done p es \<and> (\<forall>m. Sends m False \<notin> set es)"
  using assms
proof (induction rule: safe.induct)
  case (Return s)
  then show ?case by (intro exI [of _ "[]"]) (simp add: task_done.intros)
next
  case (Read s k)
  then obtain es where "task_done (k rd) es" "\<forall>m. Sends m False \<notin> set es" by blast
  then show ?case by (intro exI [of _ "Reads rd # es"]) (simp add: task_done.intros)
next
  case (Locked s f)
  then obtain es where "task_done (snd (f rd s)) es" "\<forall>m. Sends m False \<notin> set es"
    using R_refl by blast
  then show ?case by (intro exI [of _ "Locks rd s (fst (f rd s)) # es"]) (simp add: task_done.intros)
next
  case (Load s k)
  then obtain es where "task_done (k s) es" "\<forall>m. Sends m False \<notin> set es" using R_refl by blast
  then show ?case by (intro exI [of _ "Loads s # es"]) (simp add: task_done.intros)
next
  case (Send s m k)
  then obtain es where "task_done (k True) es" "\<forall>m. Sends m False \<notin> set es" by blast
  then show ?case by (intro exI [of _ "Sends m True # es"]) (simp add: task_done.intros)
next
  case (Shared s p f)
  then obtain es where "task_done p es" "\<forall>m. Sends m False \<notin> set es" by blast
  then show ?case by (intro exI [of _ "Shares f # es"]) (simp add: task_done.intros)
next
  case (SubmitBlock s k b)
  then obtain es r where "task_done (k r) es" "\<forall>m. Sends m False \<notin> set es" by blast
  then show ?case by (intro exI [of _ "Submits b r # es"]) (simp add: task_done.intros)
next
  case (Spawn s q p)
  then obtain es where "task_done p es" "\<forall>m. Sends m False \<notin> set es" by blast
  then show ?case by (intro exI [of _ "Spawns q # es"]) (simp add: task_done.intros)
qed

end

text \<open>Every task that the program starts satisfies \<open>P\<close>; a program that starts none.\<close>

definition spawns_only :: "(('s, 'm) prog \<Rightarrow> bool) \<Rightarrow> ('s, 'm) prog \<Rightarrow> bool" where
  "spawns_only P p \<longleftrightarrow> (\<forall>es q. task_trace p es \<longrightarrow> Spawns q \<in> set es \<longrightarrow> P q)"

abbreviation spawns_nothing :: "('s, 'm) prog \<Rightarrow> bool" where
  "spawns_nothing \<equiv> spawns_only (\<lambda>_. False)"

lemma spawns_onlyD: "spawns_only P p \<Longrightarrow> task_trace p es \<Longrightarrow> Spawns q \<in> set es \<Longrightarrow> P q"
  by (auto simp: spawns_only_def)

lemma spawns_nothingD: "spawns_nothing p \<Longrightarrow> task_trace p es \<Longrightarrow> Spawns q \<notin> set es"
  by (auto simp: spawns_only_def)

lemma spawns_only_simps [simp]:
  "spawns_only P Return"
  "spawns_only P Panic"
  "(\<And>rd. spawns_only P (k rd)) \<Longrightarrow> spawns_only P (Read k)"
  "(\<And>rd s. spawns_only P (snd (f rd s))) \<Longrightarrow> spawns_only P (Locked f)"
  "(\<And>b. spawns_only P (j b)) \<Longrightarrow> spawns_only P (Send m j)"
  "(\<And>s. spawns_only P (l s)) \<Longrightarrow> spawns_only P (Load l)"
  "P q \<Longrightarrow> spawns_only P p \<Longrightarrow> spawns_only P (Spawn q p)"
  "spawns_only P p \<Longrightarrow> spawns_only P (Metric g p)"
  "spawns_only P p \<Longrightarrow> spawns_only P (Count h p)"
  "spawns_only P p \<Longrightarrow> spawns_only P (Tell m p)"
  by (fastforce simp: spawns_only_def Count_def trace_simps trace_derived_simps)+

lemma spawns_only_tell_all: "spawns_only P p \<Longrightarrow> spawns_only P (tell_all ms p)"
  by (induction ms) auto

lemma spawns_only_send_all: "(\<And>b. spawns_only P (k b)) \<Longrightarrow> spawns_only P (send_all ms k)"
  by (induction ms) auto

text \<open>Everything that the program does satisfies \<open>P\<close>.\<close>

definition does_only :: "(('s, 'm) happened \<Rightarrow> bool) \<Rightarrow> ('s, 'm) prog \<Rightarrow> bool" where
  "does_only P p \<longleftrightarrow> (\<forall>es. task_trace p es \<longrightarrow> (\<forall>e \<in> set es. P e))"

lemma does_onlyD: "does_only P p \<Longrightarrow> task_trace p es \<Longrightarrow> e \<in> set es \<Longrightarrow> P e"
  by (auto simp: does_only_def)

lemma does_only_simps:
  "does_only P Return"
  "does_only P Panic"
  "(\<forall>rd. P (Reads rd)) \<Longrightarrow> (\<forall>rd. does_only P (k rd)) \<Longrightarrow> does_only P (Read k)"
  "(\<forall>rd s. P (Locks rd s (fst (f rd s)))) \<Longrightarrow> (\<forall>rd s. does_only P (snd (f rd s))) \<Longrightarrow> does_only P (Locked f)"
  "(\<forall>s. P (Loads s)) \<Longrightarrow> (\<forall>s. does_only P (l s)) \<Longrightarrow> does_only P (Load l)"
  "(\<forall>b. P (Sends m b)) \<Longrightarrow> (\<forall>b. does_only P (j b)) \<Longrightarrow> does_only P (Send m j)"
  "P (Shares g) \<Longrightarrow> does_only P p \<Longrightarrow> does_only P (Shared g p)"
  "(\<forall>x. P (Submits b x)) \<Longrightarrow> (\<forall>x. does_only P (r x)) \<Longrightarrow> does_only P (SubmitBlock b r)"
  "P (Spawns q) \<Longrightarrow> does_only P p \<Longrightarrow> does_only P (Spawn q p)"
  unfolding does_only_def by (fastforce simp: trace_simps)+

lemma does_only_parts:
  "does_only P (Read k) \<Longrightarrow> does_only P (k rd)"
  "does_only P (Locked f) \<Longrightarrow> does_only P (snd (f rd s))"
  "does_only P (Load l) \<Longrightarrow> does_only P (l s)"
  "does_only P (Send m j) \<Longrightarrow> P (Sends m b)"
  "does_only P (Send m j) \<Longrightarrow> does_only P (j b)"
  "does_only P (Shared g p) \<Longrightarrow> does_only P p"
  "does_only P (SubmitBlock x r) \<Longrightarrow> does_only P (r y)"
  "does_only P (Spawn q p) \<Longrightarrow> does_only P p"
  unfolding does_only_def
  by (meson list.set_intros task_trace.intros)+

lemma does_only_counters:
  "(\<forall>g. P (Shares g)) \<Longrightarrow> does_only P p \<Longrightarrow> does_only P (Metric h p)"
  "(\<forall>g. P (Shares g)) \<Longrightarrow> does_only P p \<Longrightarrow> does_only P (Count c p)"
  by (simp_all add: Metric_def Count_def does_only_simps)

subsection \<open>Traces against a specification automaton\<close>

text \<open>
  \<open>d e q\<close> is the state of the automaton after the event, \<open>None\<close> when the event is not allowed.
  \<open>follows d q p\<close>: from \<open>q\<close> the automaton allows whatever \<open>p\<close> does.
\<close>

fun run_spec :: "('e \<Rightarrow> 'q \<Rightarrow> 'q option) \<Rightarrow> 'q \<Rightarrow> 'e list \<Rightarrow> 'q option" where
  "run_spec d q [] = Some q"
| "run_spec d q (e # es) = Option.bind (d e q) (\<lambda>q. run_spec d q es)"

definition follows :: "(('s, 'm) happened \<Rightarrow> 'q \<Rightarrow> 'q option) \<Rightarrow> 'q \<Rightarrow> ('s, 'm) prog \<Rightarrow> bool" where
  "follows d q p \<longleftrightarrow> (\<forall>es. task_trace p es \<longrightarrow> run_spec d q es \<noteq> None)"

lemma followsD: "follows d q p \<Longrightarrow> task_trace p es \<Longrightarrow> run_spec d q es \<noteq> None"
  by (simp add: follows_def)

definition follows_after :: "(('s, 'm) happened \<Rightarrow> 'q \<Rightarrow> 'q option) \<Rightarrow> ('s, 'm) happened \<Rightarrow> 'q \<Rightarrow> ('s, 'm) prog \<Rightarrow> bool" where
  "follows_after d e q p \<longleftrightarrow> (case d e q of None \<Rightarrow> False | Some q' \<Rightarrow> follows d q' p)"

lemma follows_afterI: "d e q = Some q' \<Longrightarrow> follows d q' p \<Longrightarrow> follows_after d e q p"
  by (simp add: follows_after_def)

lemma follows_after_cons:
  "follows_after d e q p \<longleftrightarrow> (\<forall>es. task_trace p es \<longrightarrow> run_spec d q (e # es) \<noteq> None)"
  by (cases "d e q") (auto simp: follows_after_def follows_def intro: task_trace.intros)

lemma follows_simps:
  "follows d q Return"
  "follows d q Panic"
  "follows d q (Read k) \<longleftrightarrow> (\<forall>rd. follows_after d (Reads rd) q (k rd))"
  "follows d q (Locked f) \<longleftrightarrow> (\<forall>rd s. follows_after d (Locks rd s (fst (f rd s))) q (snd (f rd s)))"
  "follows d q (Load l) \<longleftrightarrow> (\<forall>s. follows_after d (Loads s) q (l s))"
  "follows d q (Send m j) \<longleftrightarrow> (\<forall>b. follows_after d (Sends m b) q (j b))"
  "follows d q (Shared g p) \<longleftrightarrow> follows_after d (Shares g) q p"
  "follows d q (SubmitBlock b r) \<longleftrightarrow> (\<forall>x. follows_after d (Submits b x) q (r x))"
  "follows d q (Spawn p' p) \<longleftrightarrow> follows_after d (Spawns p') q p"
  unfolding follows_after_cons
  by (auto simp: follows_def trace_simps simp del: run_spec.simps(2) intro: task_trace.intros; blast)+

lemma follows_counters:
  "follows d q (Metric g p) \<longleftrightarrow> follows_after d (Shares (\<lambda>now sh. sh\<lparr>sh_metrics := g now (sh_metrics sh)\<rparr>)) q p"
  "follows d q (Count c p) \<longleftrightarrow> follows_after d (Shares (\<lambda>now sh. sh\<lparr>sh_metrics :=
     (sh_metrics sh)\<lparr>st_counters := c (st_counters (sh_metrics sh))\<rparr>\<rparr>)) q p"
  by (simp_all add: Metric_def Count_def follows_simps)

lemma follows_Tell: "follows d q (Tell m p) \<longleftrightarrow> (\<forall>b. follows_after d (Sends m b) q p)"
  by (simp add: Tell_def follows_simps)

subsection \<open>How often a handler sends\<close>

text \<open>\<open>sends_once P p\<close>: a run of \<open>p\<close> to its end sends one message with \<open>P\<close>; \<open>sends_none\<close>: no such message.\<close>

inductive sends_none :: "('m \<Rightarrow> bool) \<Rightarrow> ('s, 'm) prog \<Rightarrow> bool" for P where
  "sends_none P Return"
| "sends_none P Panic"
| "(\<And>rd. sends_none P (k rd)) \<Longrightarrow> sends_none P (Read k)"
| "(\<And>rd s. sends_none P (snd (f rd s))) \<Longrightarrow> sends_none P (Locked f)"
| "(\<And>s. sends_none P (k s)) \<Longrightarrow> sends_none P (Load k)"
| "\<not> P m \<Longrightarrow> (\<And>b. sends_none P (k b)) \<Longrightarrow> sends_none P (Send m k)"
| "sends_none P p \<Longrightarrow> sends_none P (Shared f p)"
| "(\<And>r. sends_none P (k r)) \<Longrightarrow> sends_none P (SubmitBlock b k)"
| "sends_none P p \<Longrightarrow> sends_none P (Spawn q p)"

inductive sends_once :: "('m \<Rightarrow> bool) \<Rightarrow> ('s, 'm) prog \<Rightarrow> bool" for P where
  "sends_once P Panic"
| "(\<And>rd. sends_once P (k rd)) \<Longrightarrow> sends_once P (Read k)"
| "(\<And>rd s. sends_once P (snd (f rd s))) \<Longrightarrow> sends_once P (Locked f)"
| "(\<And>s. sends_once P (k s)) \<Longrightarrow> sends_once P (Load k)"
| "P m \<Longrightarrow> (\<And>b. sends_none P (k b)) \<Longrightarrow> sends_once P (Send m k)"
| "\<not> P m \<Longrightarrow> (\<And>b. sends_once P (k b)) \<Longrightarrow> sends_once P (Send m k)"
| "sends_once P p \<Longrightarrow> sends_once P (Shared f p)"
| "(\<And>r. sends_once P (k r)) \<Longrightarrow> sends_once P (SubmitBlock b k)"
| "sends_once P p \<Longrightarrow> sends_once P (Spawn q p)"

fun sent_message :: "('s, 'm) happened \<Rightarrow> 'm list" where
  "sent_message (Sends m b) = [m]"
| "sent_message e = []"

definition messages :: "('s, 'm) happened list \<Rightarrow> 'm list" where
  "messages es = concat (map sent_message es)"

lemma messages_simps [simp]:
  "messages [] = []" "messages (e # es) = sent_message e @ messages es"
  by (simp_all add: messages_def)

lemma does_only_sends_none:
  "does_only (\<lambda>e. \<forall>m b. e = Sends m b \<longrightarrow> \<not> P m) p \<Longrightarrow> sends_none P p"
proof (induction p)
  case (Read k)
  then show ?case by (auto intro!: sends_none.intros dest: does_only_parts(1))
next
  case (Locked f)
  have "sends_none P (snd (f rd s))" for rd s
    using Locked.IH [of "f rd" "f rd s" "snd (f rd s)"] does_only_parts(2) [OF Locked.prems]
    by (simp add: snds.intros)
  then show ?case by (rule sends_none.intros)
next
  case (Load k)
  then show ?case by (auto intro!: sends_none.intros dest: does_only_parts(3))
next
  case (Send m k)
  then show ?case by (auto intro!: sends_none.intros dest: does_only_parts(4,5))
next
  case (Shared f p)
  then show ?case by (auto intro!: sends_none.intros dest: does_only_parts(6))
next
  case (SubmitBlock b k)
  then show ?case by (auto intro!: sends_none.intros dest: does_only_parts(7))
next
  case (Spawn q p)
  then show ?case by (auto intro!: sends_none.intros dest: does_only_parts(8))
qed (simp_all add: sends_none.intros)

lemma sends_none_messages: "task_done p es \<Longrightarrow> sends_none P p \<Longrightarrow> filter P (messages es) = []"
  by (induction p es rule: task_done.induct) (erule sends_none.cases; force)+

lemma sends_none_trace: "task_trace p es \<Longrightarrow> sends_none P p \<Longrightarrow> filter P (messages es) = []"
  by (induction p es rule: task_trace.induct) (simp, (erule sends_none.cases; force)+)

lemma sends_once_messages: "task_done p es \<Longrightarrow> sends_once P p \<Longrightarrow> length (filter P (messages es)) = 1"
proof (induction p es rule: task_done.induct)
  case (5 k b es m)
  from 5(3) show ?case
  proof (cases rule: sends_once.cases)
    case 5
    then show ?thesis using sends_none_messages [OF \<open>task_done (k b) es\<close>] by auto
  qed (use 5 in auto)
qed (erule sends_once.cases; force)+

lemma sends_none_derived:
  "sends_none P p \<Longrightarrow> sends_none P (Metric f p)"
  "sends_none P p \<Longrightarrow> sends_none P (Count g p)"
  "\<not> P m \<Longrightarrow> sends_none P p \<Longrightarrow> sends_none P (Tell m p)"
  by (auto simp: Metric_def Count_def Tell_def intro: sends_none.intros)

lemma sends_none_tell_all:
  "\<forall>m \<in> set ms. \<not> P m \<Longrightarrow> sends_none P p \<Longrightarrow> sends_none P (tell_all ms p)"
  by (induction ms) (auto intro: sends_none_derived)

lemma sends_none_send_all:
  "\<forall>m \<in> set ms. \<not> P m \<Longrightarrow> (\<And>b. sends_none P (k b)) \<Longrightarrow> sends_none P (send_all ms k)"
  by (induction ms) (auto intro!: sends_none.intros)

lemma sends_once_derived:
  "sends_once P p \<Longrightarrow> sends_once P (Metric f p)"
  "sends_once P p \<Longrightarrow> sends_once P (Count g p)"
  "(if P m then sends_none P p else sends_once P p) \<Longrightarrow> sends_once P (Tell m p)"
  "(if P m then \<forall>b. sends_none P (k b) else \<forall>b. sends_once P (k b)) \<Longrightarrow> sends_once P (Send m k)"
  by (auto simp: Metric_def Count_def Tell_def intro: sends_once.intros split: if_splits)

lemma sends_once_send_all:
  "\<forall>m \<in> set ms. \<not> P m \<Longrightarrow> (\<And>b. sends_once P (k b)) \<Longrightarrow> sends_once P (send_all ms k)"
  by (induction ms) (auto intro!: sends_once_derived)

end
