(* ===== verification/Share.thy ===== *)
theory Share
  imports Template
begin

text \<open>
  \<open>src/share.rs\<close>: the validation of a submitted share against a job, the block header and the
  serialized block. The thresholds are in \<open>Target\<close>.
\<close>

record share_submit =
  sub_extranonce2 :: string
  sub_ntime :: string
  sub_nonce :: string
  sub_version :: "string option"

record share_result =
  res_accepted :: bool
  res_is_block :: bool
  res_hash_hex :: string
  res_block_hex :: "string option"
  res_coinbase_hex :: "string option"
  res_difficulty :: f64

definition reject :: share_result where
  "reject =
     \<lparr>res_accepted = False, res_is_block = False, res_hash_hex = replicate 64 (CHR ''0''),
      res_block_hex = None, res_coinbase_hex = None, res_difficulty = 0\<rparr>"

definition parse_u32_be :: "string \<Rightarrow> u32 result" where
  "parse_u32_be s = ok_or ''invalid u32 hex'' (parse_u32_be_hex s)"

definition build_header :: "u32 \<Rightarrow> bytes \<Rightarrow> bytes \<Rightarrow> u32 \<Rightarrow> u32 \<Rightarrow> u32 \<Rightarrow> bytes" where
  "build_header version prevhash_le mroot ntime nbits nonce =
     u32_to_le version @ prevhash_le @ mroot @ u32_to_le ntime @ u32_to_le nbits @ u32_to_le nonce"

definition build_coinbase_with_witness :: "bytes \<Rightarrow> bytes result" where
  "build_coinbase_with_witness legacy =
     (if length legacy < 8 then Inl ''coinbase tx too short''
      else
        let version = take 4 legacy; rest = drop 4 legacy;
            core = take (length rest - 4) rest; locktime = drop (length rest - 4) rest
        in Inr (version @ [0x00, 0x01] @ core @ [0x01, 0x20] @ replicate 32 0 @ locktime))"

definition build_block_hex ::
  "externs \<Rightarrow> bytes \<Rightarrow> bytes \<Rightarrow> string list \<Rightarrow> bool \<Rightarrow> string result" where
  "build_block_hex X header coinbase_legacy txs_hex use_witness =
     rbind (if use_witness then build_coinbase_with_witness coinbase_legacy else Inr coinbase_legacy)
       (\<lambda>coinbase.
     rbind (map_result (\<lambda>tx_hex. with_context ''decode transaction'' (hex_decode X tx_hex)) txs_hex)
       (\<lambda>txs.
       Inr (hex_encode X
         (encode_varint (word_of_nat (length txs_hex) + 1) header @ coinbase @ concat txs))))"

text \<open>\<open>now_secs\<close> is the wall clock in seconds since the epoch.\<close>

definition validate_share ::
  "externs \<Rightarrow> u64 \<Rightarrow> job_template \<Rightarrow> bytes \<Rightarrow> share_submit \<Rightarrow> bytes \<Rightarrow> bytes option \<Rightarrow> share_result result" where
  "validate_share X now_secs job coinbase_prefix submit share_target coinbase2_override =
     rbind (parse_u32_be (sub_ntime submit)) (\<lambda>ntime_u32.
       if jt_mintime_u32 job \<noteq> 0 \<and> ntime_u32 < jt_mintime_u32 job then Inr reject
       else if (ucast ntime_u32 :: u64) > sat_add now_secs 7200 then Inr reject
       else
         rbind (with_context ''decode extranonce2'' (hex_decode X (trim_0x (sub_extranonce2 submit))))
           (\<lambda>en2.
         let coinbase2 = unwrap_or (jt_coinbase2_bytes job) coinbase2_override;
             coinbase = coinbase_prefix @ en2 @ coinbase2;
             coinbase_hash = double_sha256 X coinbase;
             mroot = apply_branches X coinbase_hash (jt_merkle_branches_le job);
             version_u32 = unwrap_or (jt_version_u32 job)
               (Option.bind (sub_version submit) (\<lambda>v. result_ok (parse_u32_be v)))
         in rbind (parse_u32_be (sub_nonce submit)) (\<lambda>nonce_u32.
           let header = build_header version_u32 (jt_prevhash_le_bytes job) mroot ntime_u32
                 (jt_nbits_u32 job) nonce_u32;
               hash_le = double_sha256 X header;
               accepted = leq_le256 hash_le share_target;
               is_block = leq_le256 hash_le (jt_target_le job);
               hash_hex = hex_encode X (rev hash_le);
               difficulty = hash_to_display_diff X hash_le
           in rbind (if is_block then
                  rbind (build_block_hex X header coinbase (jt_transactions job)
                      (jt_has_witness_commitment job)) (\<lambda>b. Inr (Some b, Some (hex_encode X coinbase)))
                else Inr (None, None))
             (\<lambda>(block_hex, coinbase_hex).
               Inr \<lparr>res_accepted = accepted, res_is_block = is_block, res_hash_hex = hash_hex,
                 res_block_hex = block_hex, res_coinbase_hex = coinbase_hex,
                 res_difficulty = difficulty\<rparr>))))"

subsection \<open>The header\<close>

lemma length_build_header:
  "length prev = 32 \<Longrightarrow> length mroot = 32 \<Longrightarrow> length (build_header v prev mroot t b n) = 80"
  by (simp add: build_header_def)

text \<open>The fields of a header, read back from its bytes.\<close>

definition header_fields :: "bytes \<Rightarrow> u32 \<times> bytes \<times> bytes \<times> u32 \<times> u32 \<times> u32" where
  "header_fields h =
     (u32_from_le (take 4 h), take 32 (drop 4 h), take 32 (drop 36 h), u32_from_le (take 4 (drop 68 h)),
      u32_from_le (take 4 (drop 72 h)), u32_from_le (take 4 (drop 76 h)))"

lemma header_fields_build:
  assumes "length prev = 32" and "length mroot = 32"
  shows "header_fields (build_header v prev mroot t b n @ rest) = (v, prev, mroot, t, b, n)"
  using assms by (simp add: header_fields_def build_header_def)

subsection \<open>The accepted shares\<close>

text \<open>What a share's fields are once they are parsed, and the header they give.\<close>

record parsed_share =
  ps_ntime :: u32
  ps_extranonce2 :: bytes
  ps_nonce :: u32

definition share_coinbase :: "job_template \<Rightarrow> bytes \<Rightarrow> bytes option \<Rightarrow> parsed_share \<Rightarrow> bytes" where
  "share_coinbase job prefix coinbase2_override p =
     prefix @ ps_extranonce2 p @ unwrap_or (jt_coinbase2_bytes job) coinbase2_override"

definition share_version :: "job_template \<Rightarrow> share_submit \<Rightarrow> u32" where
  "share_version job submit =
     unwrap_or (jt_version_u32 job) (Option.bind (sub_version submit) parse_u32_be_hex)"

definition share_header ::
  "externs \<Rightarrow> job_template \<Rightarrow> bytes \<Rightarrow> share_submit \<Rightarrow> bytes option \<Rightarrow> parsed_share \<Rightarrow> bytes" where
  "share_header X job prefix submit coinbase2_override p =
     build_header (share_version job submit) (jt_prevhash_le_bytes job)
       (apply_branches X (double_sha256 X (share_coinbase job prefix coinbase2_override p))
         (jt_merkle_branches_le job))
       (ps_ntime p) (jt_nbits_u32 job) (ps_nonce p)"

definition parses :: "externs \<Rightarrow> share_submit \<Rightarrow> parsed_share \<Rightarrow> bool" where
  "parses X submit p \<longleftrightarrow>
     parse_u32_be_hex (sub_ntime submit) = Some (ps_ntime p) \<and>
     hex_decode X (trim_0x (sub_extranonce2 submit)) = Inr (ps_extranonce2 p) \<and>
     parse_u32_be_hex (sub_nonce submit) = Some (ps_nonce p)"

text \<open>The time of a share is neither before the job's minimum nor two hours ahead.\<close>

definition time_ok :: "u64 \<Rightarrow> job_template \<Rightarrow> u32 \<Rightarrow> bool" where
  "time_ok now_secs job ntime \<longleftrightarrow>
     (jt_mintime_u32 job = 0 \<or> jt_mintime_u32 job \<le> ntime) \<and>
     unat ntime \<le> min (unat now_secs + 7200) (2 ^ 64 - 1)"

lemma future_iff: "(ucast (n :: u32) :: u64) > sat_add now 7200 \<longleftrightarrow> unat n > min (unat now + 7200) (2 ^ 64 - 1)"
proof -
  have "unat n < 2 ^ 64" using unat_lt [of n] by simp
  then have "unat (ucast n :: u64) = unat n" by (simp add: unat_ucast_small)
  moreover have "unat (sat_add now 7200) = min (unat now + 7200) (2 ^ 64 - 1)"
    by (simp add: unat_sat_add)
  ultimately show ?thesis by (simp only: word_less_nat_alt)
qed

lemma parse_u32_be_iff: "parse_u32_be s = Inr w \<longleftrightarrow> parse_u32_be_hex s = Some w"
  by (simp add: parse_u32_be_def ok_or_def split: option.splits)

lemma result_ok_parse [simp]: "result_ok (parse_u32_be v) = parse_u32_be_hex v"
  by (simp add: parse_u32_be_def result_ok_def ok_or_def split: option.splits)

lemma validate_share_parsed:
  assumes "parses X submit p" and "time_ok now job (ps_ntime p)"
  shows "validate_share X now job prefix submit target c2 =
    (let header = share_header X job prefix submit c2 p;
         hash_le = double_sha256 X header;
         is_block = leq_le256 hash_le (jt_target_le job);
         coinbase = share_coinbase job prefix c2 p
     in rbind (if is_block then
            rbind (build_block_hex X header coinbase (jt_transactions job) (jt_has_witness_commitment job))
              (\<lambda>b. Inr (Some b, Some (hex_encode X coinbase)))
          else Inr (None, None))
        (\<lambda>(block_hex, coinbase_hex).
          Inr \<lparr>res_accepted = leq_le256 hash_le target, res_is_block = is_block,
            res_hash_hex = hex_encode X (rev hash_le), res_block_hex = block_hex,
            res_coinbase_hex = coinbase_hex, res_difficulty = hash_to_display_diff X hash_le\<rparr>))"
proof -
  have p: "parse_u32_be (sub_ntime submit) = Inr (ps_ntime p)"
    "hex_decode X (trim_0x (sub_extranonce2 submit)) = Inr (ps_extranonce2 p)"
    "parse_u32_be (sub_nonce submit) = Inr (ps_nonce p)"
    using assms(1) by (simp_all add: parses_def parse_u32_be_iff)
  have t: "\<not> (jt_mintime_u32 job \<noteq> 0 \<and> ps_ntime p < jt_mintime_u32 job)"
    "\<not> (ucast (ps_ntime p) :: u64) > sat_add now 7200"
    using assms(2) unfolding future_iff by (auto simp: time_ok_def)
  show ?thesis
    by (simp only: validate_share_def p t rbind_simps with_context_simps if_False Let_def
      share_header_def share_coinbase_def share_version_def result_ok_parse simp_thms)
qed

lemma validate_share_time:
  assumes "parse_u32_be_hex (sub_ntime submit) = Some t" and "\<not> time_ok now job t"
  shows "validate_share X now job prefix submit target c2 = Inr reject"
proof -
  have p: "parse_u32_be (sub_ntime submit) = Inr t" using assms(1) by (simp add: parse_u32_be_iff)
  have "(jt_mintime_u32 job \<noteq> 0 \<and> t < jt_mintime_u32 job) \<or> (ucast t :: u64) > sat_add now 7200"
    using assms(2) unfolding future_iff by (auto simp: time_ok_def)
  then show ?thesis by (auto simp: validate_share_def p)
qed

lemma validate_share_unparsed:
  assumes "\<nexists>p. parses X submit p"
  shows "(\<exists>e. validate_share X now job prefix submit target c2 = Inl e) \<or>
     validate_share X now job prefix submit target c2 = Inr reject"
proof (cases "parse_u32_be_hex (sub_ntime submit)")
  case None
  then show ?thesis by (simp add: validate_share_def parse_u32_be_def)
next
  case (Some t)
  show ?thesis
  proof (cases "hex_decode X (trim_0x (sub_extranonce2 submit))")
    case (Inl e)
    then show ?thesis using Some by (auto simp: validate_share_def parse_u32_be_def)
  next
    case (Inr en2)
    have "parse_u32_be_hex (sub_nonce submit) = None"
    proof (rule ccontr)
      assume "\<not> ?thesis"
      then obtain n where "parse_u32_be_hex (sub_nonce submit) = Some n" by auto
      then have "parses X submit \<lparr>ps_ntime = t, ps_extranonce2 = en2, ps_nonce = n\<rparr>"
        using Some Inr by (simp add: parses_def)
      with assms show False by blast
    qed
    then show ?thesis using Some Inr by (auto simp: validate_share_def parse_u32_be_def Let_def)
  qed
qed

lemma parses_unique: "parses X submit p \<Longrightarrow> parses X submit q \<Longrightarrow> p = q"
  by (auto simp: parses_def)

lemma validate_share_cases:
  assumes "validate_share X now job prefix submit target c2 = Inr r" and "r \<noteq> reject"
  obtains p where "parses X submit p" and "time_ok now job (ps_ntime p)"
    and "res_accepted r = leq_le256 (double_sha256 X (share_header X job prefix submit c2 p)) target"
    and "res_is_block r = leq_le256 (double_sha256 X (share_header X job prefix submit c2 p)) (jt_target_le job)"
    and "res_hash_hex r = hex_encode X (rev (double_sha256 X (share_header X job prefix submit c2 p)))"
    and "if res_is_block r
      then res_coinbase_hex r = Some (hex_encode X (share_coinbase job prefix c2 p)) \<and>
        (\<exists>b. res_block_hex r = Some b \<and>
          build_block_hex X (share_header X job prefix submit c2 p) (share_coinbase job prefix c2 p)
            (jt_transactions job) (jt_has_witness_commitment job) = Inr b)
      else res_coinbase_hex r = None \<and> res_block_hex r = None"
proof -
  obtain p where p: "parses X submit p"
    using validate_share_unparsed [of X submit now job prefix target c2] assms by force
  have t: "time_ok now job (ps_ntime p)"
  proof (rule ccontr)
    assume n: "\<not> ?thesis"
    have "parse_u32_be_hex (sub_ntime submit) = Some (ps_ntime p)" using p by (simp add: parses_def)
    from validate_share_time [OF this n] assms show False by simp
  qed
  show thesis
  proof (rule that [OF p t])
    note eq = assms(1) [unfolded validate_share_parsed [OF p t] Let_def]
    show "res_accepted r = leq_le256 (double_sha256 X (share_header X job prefix submit c2 p)) target"
      and "res_is_block r = leq_le256 (double_sha256 X (share_header X job prefix submit c2 p)) (jt_target_le job)"
      and "res_hash_hex r = hex_encode X (rev (double_sha256 X (share_header X job prefix submit c2 p)))"
      using eq by (auto elim!: rbind_InrE)
    show "if res_is_block r
      then res_coinbase_hex r = Some (hex_encode X (share_coinbase job prefix c2 p)) \<and>
        (\<exists>b. res_block_hex r = Some b \<and>
          build_block_hex X (share_header X job prefix submit c2 p) (share_coinbase job prefix c2 p)
            (jt_transactions job) (jt_has_witness_commitment job) = Inr b)
      else res_coinbase_hex r = None \<and> res_block_hex r = None"
      using eq by (auto elim!: rbind_InrE split: if_splits)
  qed
qed

lemma reject_fields [simp]: "\<not> res_accepted reject" "\<not> res_is_block reject" "res_block_hex reject = None"
  by (simp_all add: reject_def)

text \<open>When the block of a share can be written, and with it when a share is accepted at all.\<close>

lemma map_result_ok_iff: "(\<exists>ys. map_result f xs = Inr ys) \<longleftrightarrow> (\<forall>x\<in>set xs. \<exists>y. f x = Inr y)"
  by (induction xs) (auto simp: rbind_Inr_iff)

lemma build_block_hex_ok_iff:
  "(\<exists>b. build_block_hex X header coinbase txs use_witness = Inr b) \<longleftrightarrow>
     (\<forall>t\<in>set txs. \<exists>b. hex_decode X t = Inr b) \<and> (use_witness \<longrightarrow> 8 \<le> length coinbase)"
proof -
  have "(\<exists>ts. map_result (\<lambda>t. with_context ''decode transaction'' (hex_decode X t)) txs = Inr ts)
      \<longleftrightarrow> (\<forall>t\<in>set txs. \<exists>b. hex_decode X t = Inr b)"
    by (simp add: map_result_ok_iff)
  moreover have "(\<exists>cb. build_coinbase_with_witness coinbase = Inr cb) \<longleftrightarrow> 8 \<le> length coinbase"
    by (auto simp: build_coinbase_with_witness_def Let_def)
  ultimately show ?thesis
    by (cases use_witness) (auto simp: build_block_hex_def rbind_Inr_iff Let_def)
qed

lemma validate_share_returns_accepted_iff:
  "(\<exists>r. validate_share X now job prefix submit target c2 = Inr r \<and> res_accepted r) \<longleftrightarrow>
   (\<exists>p. parses X submit p \<and> time_ok now job (ps_ntime p) \<and>
     leq_le256 (double_sha256 X (share_header X job prefix submit c2 p)) target \<and>
     (leq_le256 (double_sha256 X (share_header X job prefix submit c2 p)) (jt_target_le job) \<longrightarrow>
        (\<forall>t\<in>set (jt_transactions job). \<exists>b. hex_decode X t = Inr b) \<and>
        (jt_has_witness_commitment job \<longrightarrow> 8 \<le> length (share_coinbase job prefix c2 p))))"
    (is "?L \<longleftrightarrow> (\<exists>p. ?R p)")
proof
  assume ?L
  then obtain r where r: "validate_share X now job prefix submit target c2 = Inr r" "res_accepted r"
    by blast
  then have "r \<noteq> reject" by auto
  then obtain p where p: "parses X submit p" "time_ok now job (ps_ntime p)"
    and acc: "res_accepted r = leq_le256 (double_sha256 X (share_header X job prefix submit c2 p)) target"
    and blk: "res_is_block r = leq_le256 (double_sha256 X (share_header X job prefix submit c2 p)) (jt_target_le job)"
    and hex: "if res_is_block r
      then res_coinbase_hex r = Some (hex_encode X (share_coinbase job prefix c2 p)) \<and>
        (\<exists>b. res_block_hex r = Some b \<and>
          build_block_hex X (share_header X job prefix submit c2 p) (share_coinbase job prefix c2 p)
            (jt_transactions job) (jt_has_witness_commitment job) = Inr b)
      else res_coinbase_hex r = None \<and> res_block_hex r = None"
    by (rule validate_share_cases [OF r(1)])
  have "res_is_block r \<Longrightarrow> (\<exists>b. build_block_hex X (share_header X job prefix submit c2 p)
      (share_coinbase job prefix c2 p) (jt_transactions job) (jt_has_witness_commitment job) = Inr b)"
    using hex by auto
  then have "?R p" using p acc blk r(2) unfolding build_block_hex_ok_iff by simp
  then show "\<exists>p. ?R p" by blast
next
  assume "\<exists>p. ?R p"
  then obtain p where p: "parses X submit p" "time_ok now job (ps_ntime p)"
    and acc: "leq_le256 (double_sha256 X (share_header X job prefix submit c2 p)) target"
    and ok: "leq_le256 (double_sha256 X (share_header X job prefix submit c2 p)) (jt_target_le job) \<Longrightarrow>
      \<exists>b. build_block_hex X (share_header X job prefix submit c2 p) (share_coinbase job prefix c2 p)
        (jt_transactions job) (jt_has_witness_commitment job) = Inr b"
    unfolding build_block_hex_ok_iff by blast
  show ?L
    unfolding validate_share_parsed [OF p] Let_def using acc ok by auto
qed

subsection \<open>The block\<close>

text \<open>Specification: the witness serialization without its marker, flag and witness is the legacy one.\<close>

definition strip_witness :: "bytes \<Rightarrow> bytes option" where
  "strip_witness tx =
     (if length tx < 44 \<or> take 2 (drop 4 tx) \<noteq> [0x00, 0x01]
        \<or> take 2 (drop (length tx - 38) tx) \<noteq> [0x01, 0x20]
      then None
      else Some (take 4 tx @ take (length tx - 44) (drop 6 tx) @ drop (length tx - 4) tx))"

lemma build_coinbase_with_witness_strip:
  assumes "build_coinbase_with_witness legacy = Inr tx"
  shows "strip_witness tx = Some legacy" and "length tx = length legacy + 36"
proof -
  have len: "8 \<le> length legacy"
    using assms by (auto simp: build_coinbase_with_witness_def split: if_splits)
  define version where "version = take 4 legacy"
  define core where "core = take (length legacy - 8) (drop 4 legacy)"
  define locktime where "locktime = drop (length legacy - 8) (drop 4 legacy)"
  have tx: "tx = version @ [0x00, 0x01] @ core @ [0x01, 0x20] @ replicate 32 0 @ locktime"
    using assms len
    by (auto simp: build_coinbase_with_witness_def version_def core_def locktime_def Let_def
      split: if_splits)
  have lens: "length version = 4" "length core = length legacy - 8" "length locktime = 4"
    using len by (simp_all add: version_def core_def locktime_def)
  have parts: "legacy = version @ core @ locktime"
    unfolding version_def core_def locktime_def append_take_drop_id ..
  show l: "length tx = length legacy + 36" using lens len by (simp add: tx)
  have n: "length tx - 38 = 6 + length core" "length tx - 44 = length core" "length tx - 4 = 40 + length core"
    using l lens len by simp_all
  have d: "take 4 tx = version" "take 2 (drop 4 tx) = [0x00, 0x01]"
    "take 2 (drop (6 + length core) tx) = [0x01, 0x20]" "take (length core) (drop 6 tx) = core"
    by (simp_all add: tx lens(1,3))
  define pre where "pre = version @ [0x00, 0x01] @ core @ [0x01, 0x20] @ replicate 32 (0 :: u8)"
  have "tx = pre @ locktime" "length pre = 40 + length core"
    by (simp_all add: tx pre_def lens(1))
  then have d5: "drop (40 + length core) tx = locktime" by simp
  have "\<not> length tx < 44" using l len by simp
  then show "strip_witness tx = Some legacy"
    unfolding strip_witness_def n d d5 parts by simp
qed

text \<open>The block that a share gives is the header, the transactions' count, and the transactions.\<close>

lemma build_block_hex_bytes:
  assumes X: "hex_ok X" and "build_block_hex X header coinbase txs_hex use_witness = Inr block_hex"
  obtains txs cb where "map_result (hex_decode X) txs_hex = Inr txs"
    and "hex_decode X block_hex =
      Inr (header @ encode_varint (word_of_nat (length txs_hex) + 1) [] @ cb @ concat txs)"
    and "if use_witness then strip_witness cb = Some coinbase else cb = coinbase"
proof -
  obtain cb txs where cb: "(if use_witness then build_coinbase_with_witness coinbase else Inr coinbase) = Inr cb"
    and txs: "map_result (\<lambda>t. with_context ''decode transaction'' (hex_decode X t)) txs_hex = Inr txs"
    and b: "block_hex = hex_encode X (encode_varint (word_of_nat (length txs_hex) + 1) header @ cb @ concat txs)"
    using assms(2) unfolding build_block_hex_def by (elim rbind_InrE) auto
  have "map_result (hex_decode X) hs = Inr ts"
    if "map_result (\<lambda>t. with_context ''decode transaction'' (hex_decode X t)) hs = Inr ts" for hs ts
    using that by (induction hs arbitrary: ts) (auto simp: rbind_Inr_iff)
  from this [OF txs] show thesis
  proof (rule that)
    show "hex_decode X block_hex =
      Inr (header @ encode_varint (word_of_nat (length txs_hex) + 1) [] @ cb @ concat txs)"
      unfolding b hex_ok_roundtrip [OF X] by (subst encode_varint_append) simp
    show "if use_witness then strip_witness cb = Some coinbase else cb = coinbase"
      using cb build_coinbase_with_witness_strip(1) by (auto split: if_splits)
  qed
qed

lemma block_share_bytes:
  assumes "hex_ok X" and "sha_ok X" and "jt_ok X job"
    and "validate_share X now job prefix submit target c2 = Inr r" and "res_is_block r"
  shows "\<exists>p block_hex txs cb. parses X submit p \<and>
    res_block_hex r = Some block_hex \<and>
    map_result (hex_decode X) (jt_transactions job) = Inr txs \<and>
    hex_decode X block_hex = Inr (share_header X job prefix submit c2 p
      @ encode_varint (word_of_nat (length (jt_transactions job)) + 1) [] @ cb @ concat txs) \<and>
    (if jt_has_witness_commitment job then strip_witness cb = Some (share_coinbase job prefix c2 p)
     else cb = share_coinbase job prefix c2 p) \<and>
    res_hash_hex r = hex_encode X (rev (double_sha256 X (share_header X job prefix submit c2 p))) \<and>
    le_to_nat (double_sha256 X (share_header X job prefix submit c2 p)) \<le> le_to_nat (jt_target_le job) \<and>
    header_fields (share_header X job prefix submit c2 p) =
      (share_version job submit, jt_prevhash_le_bytes job,
       apply_branches X (double_sha256 X (share_coinbase job prefix c2 p)) (jt_merkle_branches_le job),
       ps_ntime p, jt_nbits_u32 job, ps_nonce p)"
proof -
  have "r \<noteq> reject" using assms(5) by auto
  then obtain p where p: "parses X submit p" and blk: "res_is_block r = leq_le256 (double_sha256 X (share_header X job prefix submit c2 p)) (jt_target_le job)"
    and hash: "res_hash_hex r = hex_encode X (rev (double_sha256 X (share_header X job prefix submit c2 p)))"
    and hex: "if res_is_block r
      then res_coinbase_hex r = Some (hex_encode X (share_coinbase job prefix c2 p)) \<and>
        (\<exists>b. res_block_hex r = Some b \<and>
          build_block_hex X (share_header X job prefix submit c2 p) (share_coinbase job prefix c2 p)
            (jt_transactions job) (jt_has_witness_commitment job) = Inr b)
      else res_coinbase_hex r = None \<and> res_block_hex r = None"
    by (rule validate_share_cases [OF assms(4)])
  obtain b where b: "res_block_hex r = Some b"
    "build_block_hex X (share_header X job prefix submit c2 p) (share_coinbase job prefix c2 p)
            (jt_transactions job) (jt_has_witness_commitment job) = Inr b"
    using hex assms(5) by auto
  obtain txs cb where txs: "map_result (hex_decode X) (jt_transactions job) = Inr txs"
    "hex_decode X b = Inr (share_header X job prefix submit c2 p
      @ encode_varint (word_of_nat (length (jt_transactions job)) + 1) [] @ cb @ concat txs)"
    "if jt_has_witness_commitment job then strip_witness cb = Some (share_coinbase job prefix c2 p)
     else cb = share_coinbase job prefix c2 p"
    by (rule build_block_hex_bytes [OF assms(1) b(2)])
  have len: "length (jt_prevhash_le_bytes job) = 32" "length (jt_target_le job) = 32"
    using assms(3) by (simp_all add: jt_ok_def)
  have "length (apply_branches X (double_sha256 X d) bs) = 32" for d bs
    by (induction bs rule: rev_induct) (simp_all add: apply_branches_def assms(2))
  then have "header_fields (share_header X job prefix submit c2 p) =
      (share_version job submit, jt_prevhash_le_bytes job,
       apply_branches X (double_sha256 X (share_coinbase job prefix c2 p)) (jt_merkle_branches_le job),
       ps_ntime p, jt_nbits_u32 job, ps_nonce p)"
    using header_fields_build [OF len(1), of _ _ _ _ _ "[]"] by (simp add: share_header_def)
  moreover have "le_to_nat (double_sha256 X (share_header X job prefix submit c2 p)) \<le> le_to_nat (jt_target_le job)"
    using blk assms(5) len(2) assms(2) by (simp add: leq_le256_le_to_nat)
  ultimately show ?thesis using p b(1) txs hash by blast
qed

subsection \<open>A sample share\<close>

definition sample_submit :: share_submit where
  "sample_submit = \<lparr>sub_extranonce2 = ''01020304'', sub_ntime = ''00000001'', sub_nonce = ''0000002a'',
     sub_version = None\<rparr>"

definition easy_job :: job_template where
  "easy_job = (empty_template 0)\<lparr>jt_target_le := replicate 32 0xff\<rparr>"

definition sample_parsed :: parsed_share where
  "sample_parsed = \<lparr>ps_ntime = 1, ps_extranonce2 = [1, 2, 3, 4], ps_nonce = 42\<rparr>"

lemma sample_parses: "parses ref_externs sample_submit sample_parsed"
  by (simp add: parses_def sample_submit_def sample_parsed_def parse_u32_be_hex_def u32_from_hex_def
    hex_digit_def Let_def)

lemma sample_time: "time_ok 0 easy_job (ps_ntime sample_parsed)"
  by (simp add: time_ok_def easy_job_def empty_template_def sample_parsed_def)

lemma easy_hash: "sha_ok X \<Longrightarrow> leq_le256 (double_sha256 X d) (replicate 32 0xff)"
  using le_to_nat_less [of "double_sha256 X d"] le_to_nat_all_ff [of 32]
  by (simp add: leq_le256_le_to_nat)

lemma sample_validates:
  "\<exists>r. validate_share ref_externs 0 easy_job (replicate 8 7) sample_submit (replicate 32 0xff) None = Inr r \<and>
     res_is_block r \<and> res_accepted r"
  unfolding validate_share_parsed [OF sample_parses sample_time] Let_def
  by (simp add: easy_hash [OF ref_sha_ok] easy_job_def empty_template_def build_block_hex_def Let_def)

subsection \<open>Properties\<close>

text \<open>C2 (\<open>validate_share\<close>): validation returns an accepted share exactly when the fields parse, the
  time is neither before the job's minimum nor more than two hours ahead, the double hash of the
  header built from the job, the coinbase with the submitted extranonce and the submitted fields is
  at most the share target, and, where the hash also meets the job's own target, the block can be
  written: every transaction of the job is hexadecimal and, for a job with a witness commitment,
  the coinbase has the 8 bytes of its version and locktime. In every other case it refuses the share
  or returns an error.\<close>

theorem share_accepted_iff:
  "(\<exists>r. validate_share X now job prefix submit target c2 = Inr r \<and> res_accepted r) \<longleftrightarrow>
   (\<exists>p. parses X submit p \<and> time_ok now job (ps_ntime p) \<and>
     leq_le256 (double_sha256 X (share_header X job prefix submit c2 p)) target \<and>
     (leq_le256 (double_sha256 X (share_header X job prefix submit c2 p)) (jt_target_le job) \<longrightarrow>
        (\<forall>t\<in>set (jt_transactions job). \<exists>b. hex_decode X t = Inr b) \<and>
        (jt_has_witness_commitment job \<longrightarrow> 8 \<le> length (share_coinbase job prefix c2 p))))"
  by (rule validate_share_returns_accepted_iff)

theorem share_accepted_iff_witness:
  "\<exists>r. validate_share ref_externs 0 easy_job (replicate 8 7) sample_submit (replicate 32 0xff) None = Inr r \<and>
    res_accepted r"
  unfolding share_accepted_iff
  using sample_parses sample_time easy_hash [OF ref_sha_ok]
  by (intro exI [of _ sample_parsed]) (auto simp: easy_job_def empty_template_def)

text \<open>\<open>validate_share\<close>, \<open>build_block_hex\<close>, \<open>build_coinbase_with_witness\<close>: a share that is
  reported as a block comes with the hexadecimal block: the 80 bytes of the header whose hash meets
  the job's target and is the one displayed, the number of transactions, the coinbase (in the
  witness serialization when the job has a commitment; without its witness it is the one that was
  hashed) and the job's transactions in order.\<close>

theorem block_share_serializes:
  assumes "hex_ok X" and "sha_ok X" and "jt_ok X job"
    and "validate_share X now job prefix submit target c2 = Inr r" and "res_is_block r"
  shows "\<exists>p block_hex txs cb. parses X submit p \<and>
    res_block_hex r = Some block_hex \<and>
    map_result (hex_decode X) (jt_transactions job) = Inr txs \<and>
    hex_decode X block_hex = Inr (share_header X job prefix submit c2 p
      @ encode_varint (word_of_nat (length (jt_transactions job)) + 1) [] @ cb @ concat txs) \<and>
    (if jt_has_witness_commitment job then strip_witness cb = Some (share_coinbase job prefix c2 p)
     else cb = share_coinbase job prefix c2 p) \<and>
    res_hash_hex r = hex_encode X (rev (double_sha256 X (share_header X job prefix submit c2 p))) \<and>
    le_to_nat (double_sha256 X (share_header X job prefix submit c2 p)) \<le> le_to_nat (jt_target_le job) \<and>
    header_fields (share_header X job prefix submit c2 p) =
      (share_version job submit, jt_prevhash_le_bytes job,
       apply_branches X (double_sha256 X (share_coinbase job prefix c2 p)) (jt_merkle_branches_le job),
       ps_ntime p, jt_nbits_u32 job, ps_nonce p)"
  by (rule block_share_bytes [OF assms])

theorem block_share_serializes_witness:
  "\<exists>r p cb block_hex. validate_share ref_externs 0 easy_job (replicate 8 7) sample_submit (replicate 32 0xff) None = Inr r \<and>
     res_block_hex r = Some block_hex \<and>
     hex_decode ref_externs block_hex = Inr (share_header ref_externs easy_job (replicate 8 7) sample_submit None p @ [1] @ cb)"
proof -
  obtain r where r: "validate_share ref_externs 0 easy_job (replicate 8 7) sample_submit (replicate 32 0xff) None = Inr r"
    "res_is_block r" using sample_validates by blast
  have "jt_ok ref_externs easy_job" by (simp add: jt_ok_def easy_job_def empty_template_def)
  from block_share_serializes [OF ref_hex_ok ref_sha_ok this r] r(1) show ?thesis
    by (auto simp: easy_job_def empty_template_def encode_varint_def)
qed

end
