(* ===== verification/Vardiff.thy ===== *)
theory Vardiff
  imports Interfaces Externs
begin

text \<open>
  \<open>src/vardiff.rs\<close>: the controller that adapts a miner's share difficulty to the rate of its
  shares. \<open>maybe_retarget\<close> returns the new difficulty, if there is one, and the controller after
  the call; its outer \<open>None\<close> is the panic of \<open>f64::clamp\<close> on an empty range.
\<close>

definition EMA_ALPHA :: f64 where "EMA_ALPHA = Fin (1 / 4)"
definition HYSTERESIS :: f64 where "HYSTERESIS = Fin (3 / 2)"
definition OFFLINE_SECS :: f64 where "OFFLINE_SECS = Fin 120"
definition CACHE_SIZE :: nat where "CACHE_SIZE = 30"

record vardiff =
  vd_target_share_time :: f64
  vd_retarget_time :: f64
  vd_min_diff :: f64
  vd_max_diff :: f64
  vd_last_retarget :: instant
  vd_session_start :: instant
  vd_ema_rate :: f64
  vd_ema_seeded :: bool
  vd_samples :: "(instant \<times> f64) list"

definition vardiff_new :: "instant \<Rightarrow> f64 \<Rightarrow> f64 \<Rightarrow> f64 \<Rightarrow> f64 \<Rightarrow> vardiff" where
  "vardiff_new now target_share_time retarget_time min_diff max_diff =
     (let min_diff = fmax min_diff f64_MIN_POSITIVE in
      \<lparr>vd_target_share_time = fmax target_share_time 1,
       vd_retarget_time = fmax retarget_time 1,
       vd_min_diff = min_diff,
       vd_max_diff = fmax max_diff min_diff,
       vd_last_retarget = now,
       vd_session_start = now,
       vd_ema_rate = 0,
       vd_ema_seeded = False,
       vd_samples = []\<rparr>)"

definition vd_record_share :: "instant \<times> f64 \<Rightarrow> vardiff \<Rightarrow> vardiff" where
  "vd_record_share sample self =
     (let samples = vd_samples self @ [sample] in
      self\<lparr>vd_samples := (if length samples > CACHE_SIZE then tl samples else samples)\<rparr>)"

definition nearest_p2 :: "externs \<Rightarrow> vardiff \<Rightarrow> f64 \<Rightarrow> f64 option" where
  "nearest_p2 X self value =
     (if \<not> is_finite value \<or> value \<le> 0 then Some (vd_min_diff self)
      else Option.bind (fclamp value (vd_min_diff self) (vd_max_diff self)) (\<lambda>clamped.
        let exponent = f64_log2 X clamped;
            lower = f64_powf X (Fin 2) (ffloor exponent);
            upper = f64_powf X (Fin 2) (fceil exponent);
            chosen = (if clamped - lower \<le> upper - clamped then lower else upper)
        in fclamp chosen (vd_min_diff self) (vd_max_diff self)))"

definition maybe_retarget ::
  "externs \<Rightarrow> vardiff \<Rightarrow> f64 \<Rightarrow> instant \<Rightarrow> (f64 option \<times> vardiff) option" where
  "maybe_retarget X self current_diff now =
     (let since_ms = num_milliseconds (now - vd_last_retarget self) in
      if since_ms < f64_to_i64 (vd_retarget_time self * Fin 1000) then Some (None, self)
      else
        let self = self\<lparr>vd_last_retarget := now\<rparr> in
        if vd_samples self = [] then
          (let age_secs = f64_of_int (num_seconds (now - vd_session_start self)) in
           if OFFLINE_SECS < age_secs then
             Option.bind (nearest_p2 X self (fmax (current_diff / Fin 6) (vd_min_diff self)))
               (\<lambda>stepped.
                 if f64_EPSILON < fabs (stepped - current_diff) then Some (Some stepped, self)
                 else Some (None, self))
           else Some (None, self))
        else
          let sum_diff = fsum (map snd (vd_samples self));
              span_secs = f64_of_int (num_milliseconds
                (fst (last (vd_samples self)) - fst (hd (vd_samples self)))) / Fin 1000
          in
          if span_secs \<le> 0 then Some (None, self)
          else
            let instant_rate = sum_diff / span_secs;
                self =
                  (if vd_ema_seeded self
                   then self\<lparr>vd_ema_rate :=
                     EMA_ALPHA * instant_rate + (1 - EMA_ALPHA) * vd_ema_rate self\<rparr>
                   else self\<lparr>vd_ema_rate := instant_rate, vd_ema_seeded := True\<rparr>);
                raw_target = vd_ema_rate self * vd_target_share_time self
            in
            Option.bind (fclamp raw_target (vd_min_diff self) (vd_max_diff self)) (\<lambda>clamped.
              Option.bind (nearest_p2 X self clamped) (\<lambda>target_diff.
                let should_up = current_diff * HYSTERESIS \<le> target_diff;
                    should_down = target_diff \<le> current_diff / HYSTERESIS
                in
                if should_up \<or> should_down then Some (Some target_diff, self)
                else Some (None, self))))"

subsection \<open>Invariant\<close>

definition vd_ok :: "vardiff \<Rightarrow> bool" where
  "vd_ok v \<longleftrightarrow> f64_MIN_POSITIVE \<le> vd_min_diff v \<and> vd_min_diff v \<le> vd_max_diff v \<and>
     is_finite (vd_max_diff v) \<and> length (vd_samples v) \<le> CACHE_SIZE"

interpretation vd_log: fifo_log vd_samples vd_record_share "\<lambda>_. CACHE_SIZE"
proof
  fix s :: vardiff and x
  assume "length (vd_samples s) \<le> CACHE_SIZE"
  from push_pop_last_n [OF this, of x]
  show "vd_samples (vd_record_share x s) = last_n CACHE_SIZE (vd_samples s @ [x])"
    by (simp add: vd_record_share_def Let_def)
qed simp

lemma f64_MIN_POSITIVE_not_nan [simp]: "f64_MIN_POSITIVE \<noteq> NaN"
  by (simp add: f64_MIN_POSITIVE_def)

lemma vardiff_new_ok [bee_inv]:
  "is_finite lo \<Longrightarrow> is_finite hi \<Longrightarrow> vd_ok (vardiff_new now t r lo hi)"
proof -
  assume "is_finite lo" "is_finite hi"
  then have fin: "is_finite (fmax hi (fmax lo f64_MIN_POSITIVE))"
    by (simp add: fmax_def f64_MIN_POSITIVE_def)
  have a: "f64_MIN_POSITIVE \<le> fmax lo f64_MIN_POSITIVE" by (rule fmax_ge2) simp
  then have "fmax lo f64_MIN_POSITIVE \<noteq> NaN" by auto
  then have "fmax lo f64_MIN_POSITIVE \<le> fmax hi (fmax lo f64_MIN_POSITIVE)" by (rule fmax_ge2)
  with a fin show ?thesis by (simp add: vd_ok_def vardiff_new_def Let_def)
qed

lemma vd_record_share_frame [simp]:
  "vd_min_diff (vd_record_share s v) = vd_min_diff v"
  "vd_max_diff (vd_record_share s v) = vd_max_diff v"
  "vd_last_retarget (vd_record_share s v) = vd_last_retarget v"
  "vd_retarget_time (vd_record_share s v) = vd_retarget_time v"
  by (simp_all add: vd_record_share_def Let_def)

lemma vd_record_share_ok [bee_inv]: "vd_ok v \<Longrightarrow> vd_ok (vd_record_share s v)"
  using vd_log.bounded_push [of v s] by (simp add: vd_ok_def vd_log.bounded_def)

lemma vd_ok_range: "vd_ok v \<Longrightarrow> vd_min_diff v \<le> vd_max_diff v \<and> vd_min_diff v \<noteq> NaN"
  by (auto simp: vd_ok_def)

text \<open>Every result of \<open>nearest_p2\<close> is in range and the calls of \<open>clamp\<close> never panic.\<close>

lemma ffloor_fceil_between:
  assumes "Fin (of_int n) \<le> e" and "e \<le> Fin (of_int (n + 1))"
  shows "ffloor e = Fin (of_int n) \<or> ffloor e = Fin (of_int (n + 1))"
    and "fceil e = Fin (of_int n) \<or> fceil e = Fin (of_int (n + 1))"
proof -
  obtain r where e: "e = Fin r" using assms by (cases e) auto
  then have r: "of_int n \<le> r" "r \<le> of_int (n + 1)" using assms by auto
  then have "n \<le> \<lfloor>r\<rfloor>" "\<lfloor>r\<rfloor> \<le> n + 1" "n \<le> \<lceil>r\<rceil>" "\<lceil>r\<rceil> \<le> n + 1"
    by (simp_all add: le_floor_iff ceiling_le_iff floor_le_iff le_ceiling_iff)
  then have "\<lfloor>r\<rfloor> = n \<or> \<lfloor>r\<rfloor> = n + 1" "\<lceil>r\<rceil> = n \<or> \<lceil>r\<rceil> = n + 1" by linarith+
  then show "ffloor e = Fin (of_int n) \<or> ffloor e = Fin (of_int (n + 1))"
    and "fceil e = Fin (of_int n) \<or> fceil e = Fin (of_int (n + 1))"
    by (auto simp: e)
qed

text \<open>The two candidates of \<open>nearest_p2\<close> are powers of two next to the value.\<close>

lemma p2_candidates:
  assumes X: "libm_ok X" and r: "1 / 2 ^ 1022 \<le> r"
  shows "\<exists>k \<in> {flog2 r, flog2 r + 1}.
      f64_powf X (Fin 2) (ffloor (f64_log2 X (Fin r))) = (if k < 1024 then Fin (2 powi k) else PInf)"
    and "\<exists>k \<in> {flog2 r, flog2 r + 1}.
      f64_powf X (Fin 2) (fceil (f64_log2 X (Fin r))) = (if k < 1024 then Fin (2 powi k) else PInf)"
proof -
  let ?n = "flog2 r" and ?e = "f64_log2 X (Fin r)"
  have "(0::rat) < 1 / 2 ^ 1022" by simp
  with r have pos: "0 < r" by linarith
  have "flog2 (1 / 2 ^ 1022) \<le> ?n"
    by (rule flog2_mono) (use r in auto)
  moreover have "- 1023 \<le> flog2 (1 / 2 ^ 1022)"
  proof (rule ccontr)
    assume "\<not> ?thesis"
    then have "(2::rat) powi (flog2 (1 / 2 ^ 1022) + 1) \<le> 2 powi (- 1023)"
      by (intro power_int_increasing) auto
    moreover have "(1 / 2 ^ 1022 :: rat) < 2 powi (flog2 (1 / 2 ^ 1022) + 1)"
      by (rule flog2_bounds) simp
    moreover have "(2::rat) powi (- 1023) < 1 / 2 ^ 1022"
      by (simp add: power_int_def divide_simps)
    ultimately show False by linarith
  qed
  ultimately have n: "- 1074 \<le> ?n" by linarith
  have e: "Fin (of_int ?n) \<le> ?e" "?e \<le> Fin (of_int (?n + 1))"
    using libm_ok_log2 [OF X, of ?n r] flog2_bounds [OF pos] by auto
  note fc = ffloor_fceil_between [OF e]
  show "\<exists>k \<in> {?n, ?n + 1}. f64_powf X (Fin 2) (ffloor ?e) = (if k < 1024 then Fin (2 powi k) else PInf)"
    using fc(1) libm_ok_powf [OF X n] libm_ok_powf [OF X, of "?n + 1"] n by auto
  show "\<exists>k \<in> {?n, ?n + 1}. f64_powf X (Fin 2) (fceil ?e) = (if k < 1024 then Fin (2 powi k) else PInf)"
    using fc(2) libm_ok_powf [OF X n] libm_ok_powf [OF X, of "?n + 1"] n by auto
qed

lemma nearest_p2_candidates:
  assumes X: "libm_ok X" and v: "vd_ok v" and fin: "value = Fin x" "0 < x"
    and clamped: "fclamp value (vd_min_diff v) (vd_max_diff v) = Some (Fin r)"
  shows "\<exists>k \<in> {flog2 r, flog2 r + 1}.
     nearest_p2 X v value =
       fclamp (if k < 1024 then Fin (2 powi k) else PInf) (vd_min_diff v) (vd_max_diff v)"
proof -
  have "vd_min_diff v \<le> Fin r" using fclamp_bounds(1) [OF clamped] fin by simp
  then have "f64_MIN_POSITIVE \<le> Fin r" using v f64_le_trans unfolding vd_ok_def by blast
  then have r: "1 / 2 ^ 1022 \<le> r" by (simp add: f64_MIN_POSITIVE_def)
  from p2_candidates [OF X r] show ?thesis
    using clamped fin by (auto simp: nearest_p2_def Let_def zero_f64_def)
qed

lemma vd_ok_pos: "vd_ok v \<Longrightarrow> vd_min_diff v \<le> y \<Longrightarrow> 0 < y"
proof -
  assume "vd_ok v" and "vd_min_diff v \<le> y"
  then have "f64_MIN_POSITIVE \<le> y" unfolding vd_ok_def by (blast intro: f64_le_trans)
  moreover have "(0 :: f64) < f64_MIN_POSITIVE" by (simp add: f64_MIN_POSITIVE_def zero_f64_def)
  ultimately show ?thesis by (rule f64_less_le_trans [rotated])
qed

lemma clamp_finite:
  assumes "vd_ok v" and "fclamp x (vd_min_diff v) (vd_max_diff v) = Some y" and "x \<noteq> NaN"
  obtains r where "y = Fin r" and "0 < r"
proof -
  have "vd_min_diff v \<le> y" "y \<le> vd_max_diff v" using fclamp_bounds [OF assms(2,3)] by auto
  moreover have "is_finite (vd_max_diff v)" using assms(1) by (simp add: vd_ok_def)
  moreover have "0 < y" by (rule vd_ok_pos [OF assms(1)]) fact
  ultimately have "\<exists>r. y = Fin r \<and> 0 < r"
    by (cases y; cases "vd_max_diff v") (auto simp: zero_f64_def)
  with that show ?thesis by blast
qed

lemma nearest_p2_range:
  assumes X: "libm_ok X" and v: "vd_ok v"
  shows "\<exists>y. nearest_p2 X v val = Some y \<and> vd_min_diff v \<le> y \<and> y \<le> vd_max_diff v"
proof (cases "is_finite val \<and> 0 < val")
  case False
  then have "\<not> is_finite val \<or> val \<le> 0"
    by (cases val) (auto simp: zero_f64_def)
  then have "nearest_p2 X v val = Some (vd_min_diff v)" by (simp add: nearest_p2_def)
  then show ?thesis using vd_ok_range [OF v] by simp
next
  case True
  then obtain x where x: "val = Fin x" "0 < x" by (cases "val") (auto simp: zero_f64_def)
  obtain y where y: "fclamp val (vd_min_diff v) (vd_max_diff v) = Some y"
    using fclamp_Some vd_ok_range [OF v] by blast
  then obtain r where r: "y = Fin r" "0 < r" using clamp_finite [OF v] x by blast
  obtain k where k: "nearest_p2 X v val =
      fclamp (if k < 1024 then Fin (2 powi k) else PInf) (vd_min_diff v) (vd_max_diff v)"
    using nearest_p2_candidates [OF X v x] y r by blast
  obtain z where z: "fclamp (if k < 1024 then Fin (2 powi k) else PInf) (vd_min_diff v) (vd_max_diff v) = Some z"
    using fclamp_Some vd_ok_range [OF v] by blast
  with k fclamp_bounds [OF z] show ?thesis by (simp split: if_splits)
qed

subsection \<open>Retargeting\<close>

text \<open>What one call may change: the sample window and the bounds stay.\<close>

definition vd_same_policy :: "vardiff \<Rightarrow> vardiff \<Rightarrow> bool" where
  "vd_same_policy v w \<longleftrightarrow>
     vd_min_diff w = vd_min_diff v \<and> vd_max_diff w = vd_max_diff v \<and>
     vd_target_share_time w = vd_target_share_time v \<and> vd_retarget_time w = vd_retarget_time v \<and>
     vd_session_start w = vd_session_start v \<and> vd_samples w = vd_samples v"

lemma vd_same_policy_ok: "vd_same_policy v w \<Longrightarrow> vd_ok v \<Longrightarrow> vd_ok w"
  by (simp add: vd_same_policy_def vd_ok_def)

lemma nearest_p2_updates [simp]:
  "nearest_p2 X (v\<lparr>vd_last_retarget := t\<rparr>) x = nearest_p2 X v x"
  "nearest_p2 X (v\<lparr>vd_ema_rate := e\<rparr>) x = nearest_p2 X v x"
  "nearest_p2 X (v\<lparr>vd_ema_seeded := b\<rparr>) x = nearest_p2 X v x"
  by (simp_all add: nearest_p2_def)

lemma maybe_retarget_frame:
  "maybe_retarget X v cur now = Some (r, w) \<Longrightarrow> vd_same_policy v w"
  by (auto simp: maybe_retarget_def vd_same_policy_def Let_def split: if_splits bind_splits)

lemma maybe_retarget_total:
  assumes "libm_ok X" and "vd_ok v"
  shows "\<exists>r w. maybe_retarget X v cur now = Some (r, w)"
proof -
  have "\<forall>x. \<exists>y. nearest_p2 X v x = Some y" using nearest_p2_range [OF assms] by blast
  then obtain p where p: "\<And>x. nearest_p2 X v x = Some (p x)" by metis
  have "\<forall>x. \<exists>y. fclamp x (vd_min_diff v) (vd_max_diff v) = Some y"
    using fclamp_Some vd_ok_range [OF assms(2)] by blast
  then obtain c where c: "\<And>x. fclamp x (vd_min_diff v) (vd_max_diff v) = Some (c x)" by metis
  show ?thesis by (simp add: maybe_retarget_def Let_def p c)
qed

lemma maybe_retarget_from_p2:
  "maybe_retarget X v cur now = Some (Some d, w) \<Longrightarrow> \<exists>x. nearest_p2 X v x = Some d"
  by (auto simp: maybe_retarget_def Let_def split: if_splits bind_splits)

lemma maybe_retarget_range:
  assumes "libm_ok X" and "vd_ok v" and "maybe_retarget X v cur now = Some (Some d, w)"
  shows "vd_min_diff v \<le> d \<and> d \<le> vd_max_diff v"
proof -
  obtain x where "nearest_p2 X v x = Some d" using maybe_retarget_from_p2 [OF assms(3)] by blast
  with nearest_p2_range [OF assms(1,2), of x] show ?thesis by simp
qed

lemma maybe_retarget_last:
  "maybe_retarget X v cur now = Some (r, w) \<Longrightarrow>
   (if num_milliseconds (now - vd_last_retarget v) < f64_to_i64 (vd_retarget_time v * Fin 1000)
    then r = None \<and> w = v else vd_last_retarget w = now)"
  by (auto simp: maybe_retarget_def Let_def split: if_splits bind_splits)

lemma maybe_retarget_hysteresis:
  "maybe_retarget X v cur now = Some (Some d, w) \<Longrightarrow> vd_samples v \<noteq> [] \<Longrightarrow>
   cur * HYSTERESIS \<le> d \<or> d \<le> cur / HYSTERESIS"
  by (auto simp: maybe_retarget_def Let_def split: if_splits bind_splits)

lemma maybe_retarget_from_rate:
  "maybe_retarget X v cur now = Some (Some d, w) \<Longrightarrow> vd_samples v \<noteq> [] \<Longrightarrow>
   \<exists>c. fclamp (vd_ema_rate w * vd_target_share_time v) (vd_min_diff v) (vd_max_diff v) = Some c \<and>
     nearest_p2 X v c = Some d"
  by (auto simp: maybe_retarget_def Let_def split: if_splits bind_splits)

lemma maybe_retarget_idle:
  "maybe_retarget X v cur now = Some (r, w) \<Longrightarrow> vd_samples v = [] \<Longrightarrow>
   r = Some d \<longleftrightarrow>
     f64_to_i64 (vd_retarget_time v * Fin 1000) \<le> num_milliseconds (now - vd_last_retarget v) \<and>
     OFFLINE_SECS < f64_of_int (num_seconds (now - vd_session_start v)) \<and>
     nearest_p2 X v (fmax (cur / Fin 6) (vd_min_diff v)) = Some d \<and>
     f64_EPSILON < fabs (d - cur)"
  by (auto simp: maybe_retarget_def Let_def split: if_splits bind_splits)

subsection \<open>Any history of a controller\<close>

datatype vd_op = VdShare "instant \<times> f64" | VdRetarget f64 instant

text \<open>A history ends (\<open>None\<close>) with a panic.\<close>

fun vd_run :: "externs \<Rightarrow> vd_op list \<Rightarrow> vardiff \<Rightarrow> vardiff option" where
  "vd_run X [] v = Some v"
| "vd_run X (VdShare s # ops) v = vd_run X ops (vd_record_share s v)"
| "vd_run X (VdRetarget cur now # ops) v =
     Option.bind (maybe_retarget X v cur now) (\<lambda>(r, v). vd_run X ops v)"

lemma vd_run_ok:
  assumes "libm_ok X" and "vd_ok v"
  shows "\<exists>w. vd_run X ops v = Some w \<and> vd_ok w \<and> vd_min_diff w = vd_min_diff v \<and> vd_max_diff w = vd_max_diff v"
  using assms(2)
proof (induction ops arbitrary: v)
  case (Cons p ops)
  show ?case
  proof (cases p)
    case (VdShare s)
    with Cons.IH [OF vd_record_share_ok [OF Cons.prems, of s]] show ?thesis by simp
  next
    case (VdRetarget cur now)
    obtain r w where r: "maybe_retarget X v cur now = Some (r, w)"
      using maybe_retarget_total [OF assms(1) Cons.prems] by blast
    have pol: "vd_same_policy v w" by (rule maybe_retarget_frame [OF r])
    from Cons.IH [OF vd_same_policy_ok [OF pol Cons.prems]] pol r VdRetarget show ?thesis
      by (auto simp: vd_same_policy_def)
  qed
qed simp

definition power_of_two :: "f64 \<Rightarrow> bool" where
  "power_of_two d \<longleftrightarrow> (\<exists>k. d = Fin (2 powi k))"

lemma nearest_p2_shape:
  assumes X: "libm_ok X" and v: "vd_ok v" and p: "nearest_p2 X v x = Some d"
  shows "d = vd_min_diff v \<or> d = vd_max_diff v \<or> power_of_two d"
proof (cases "is_finite x \<and> 0 < x")
  case False
  then have "\<not> is_finite x \<or> x \<le> 0" by (cases x) (auto simp: zero_f64_def)
  with p show ?thesis by (simp add: nearest_p2_def split: if_splits)
next
  case True
  then obtain q where x: "x = Fin q" "0 < q" by (cases x) (auto simp: zero_f64_def)
  obtain y where y: "fclamp x (vd_min_diff v) (vd_max_diff v) = Some y"
    using fclamp_Some vd_ok_range [OF v] by blast
  then obtain r where r: "y = Fin r" using clamp_finite [OF v] x by blast
  obtain k where k: "nearest_p2 X v x =
      fclamp (if k < 1024 then Fin (2 powi k) else PInf) (vd_min_diff v) (vd_max_diff v)"
    using nearest_p2_candidates [OF X v x] y r by blast
  have fin: "is_finite (vd_max_diff v)" using v by (simp add: vd_ok_def)
  then have "\<not> (\<not> vd_max_diff v < PInf)" by (cases "vd_max_diff v") auto
  with p k show ?thesis
    by (auto simp: fclamp_def power_of_two_def split: if_splits)
qed

subsection \<open>Properties\<close>

text \<open>C29 (\<open>VardiffController\<close>): a controller created with finite bounds never panics, whatever shares
  and retargets follow, and every difficulty it proposes is within its bounds and is a power of two
  or one of the bounds.\<close>

theorem vardiff_proposals_in_range:
  assumes "libm_ok X" and "is_finite lo" and "is_finite hi"
  shows "\<exists>v. vd_run X ops (vardiff_new t0 share_time retarget_time lo hi) = Some v \<and>
    (\<exists>r w. maybe_retarget X v cur now = Some (r, w)) \<and>
    (\<forall>d w. maybe_retarget X v cur now = Some (Some d, w) \<longrightarrow>
       fmax lo f64_MIN_POSITIVE \<le> d \<and> d \<le> fmax hi (fmax lo f64_MIN_POSITIVE) \<and>
       (d = fmax lo f64_MIN_POSITIVE \<or> d = fmax hi (fmax lo f64_MIN_POSITIVE) \<or> power_of_two d))"
proof -
  let ?v0 = "vardiff_new t0 share_time retarget_time lo hi"
  obtain v where v: "vd_run X ops ?v0 = Some v" "vd_ok v"
    "vd_min_diff v = vd_min_diff ?v0" "vd_max_diff v = vd_max_diff ?v0"
    using vd_run_ok [OF assms(1) vardiff_new_ok [OF assms(2,3)]] by blast
  have b: "vd_min_diff v = fmax lo f64_MIN_POSITIVE" "vd_max_diff v = fmax hi (fmax lo f64_MIN_POSITIVE)"
    using v(3,4) by (simp_all add: vardiff_new_def Let_def)
  have "fmax lo f64_MIN_POSITIVE \<le> d \<and> d \<le> fmax hi (fmax lo f64_MIN_POSITIVE) \<and>
      (d = fmax lo f64_MIN_POSITIVE \<or> d = fmax hi (fmax lo f64_MIN_POSITIVE) \<or> power_of_two d)"
    if r: "maybe_retarget X v cur now = Some (Some d, w)" for d w
  proof -
    obtain x where x: "nearest_p2 X v x = Some d" using maybe_retarget_from_p2 [OF r] by blast
    from maybe_retarget_range [OF assms(1) v(2) r] nearest_p2_shape [OF assms(1) v(2) x]
    show ?thesis by (simp add: b)
  qed
  with v(1) maybe_retarget_total [OF assms(1) v(2)] show ?thesis by blast
qed

theorem vardiff_proposals_in_range_witness:
  "\<exists>v. vd_run ref_externs [VdShare (1, Fin 8), VdRetarget (Fin 8) 2] (vardiff_new 0 (Fin 15) (Fin 90) (Fin 1) (Fin 64)) = Some v
     \<and> (\<exists>r w. maybe_retarget ref_externs v (Fin 8) 200000000000 = Some (r, w))"
  using vardiff_proposals_in_range [OF ref_libm_ok, of "Fin 1" "Fin 64"
    "[VdShare (1, Fin 8), VdRetarget (Fin 8) 2]" 0 "Fin 15" "Fin 90" "Fin 8" 200000000000]
  by auto

text \<open>C35 (\<open>maybe_retarget\<close>): before the retarget time has passed a call changes nothing and proposes
  nothing, after it the call restarts the time; bounds, policy and samples stay. With samples in the
  window a proposal is the rounding of the (new) average rate times the target share time, cut to the
  bounds, and it is at least half as large again as the current difficulty, or at most two thirds
  of it. With no samples a due call proposes exactly when the session is older than 120 seconds and
  the rounding of a sixth of the current difficulty, or of the minimum where that is larger, differs
  from the current difficulty by more than the machine epsilon; then it proposes that rounding,
  whether or not the change reaches the factor.\<close>

theorem vardiff_rate_and_hysteresis:
  assumes "maybe_retarget X v cur now = Some (r, w)"
  shows "vd_same_policy v w \<and>
    (if num_milliseconds (now - vd_last_retarget v) < f64_to_i64 (vd_retarget_time v * Fin 1000)
     then r = None \<and> w = v else vd_last_retarget w = now) \<and>
    (\<forall>d. r = Some d \<and> vd_samples v \<noteq> [] \<longrightarrow> (cur * HYSTERESIS \<le> d \<or> d \<le> cur / HYSTERESIS) \<and>
       (\<exists>c. fclamp (vd_ema_rate w * vd_target_share_time v) (vd_min_diff v) (vd_max_diff v) = Some c \<and>
         nearest_p2 X v c = Some d)) \<and>
    (\<forall>d. vd_samples v = [] \<longrightarrow> (r = Some d \<longleftrightarrow>
       f64_to_i64 (vd_retarget_time v * Fin 1000) \<le> num_milliseconds (now - vd_last_retarget v) \<and>
       OFFLINE_SECS < f64_of_int (num_seconds (now - vd_session_start v)) \<and>
       nearest_p2 X v (fmax (cur / Fin 6) (vd_min_diff v)) = Some d \<and>
       f64_EPSILON < fabs (d - cur)))"
proof (intro conjI)
  show "vd_same_policy v w" by (rule maybe_retarget_frame [OF assms])
  show "if num_milliseconds (now - vd_last_retarget v) < f64_to_i64 (vd_retarget_time v * Fin 1000)
     then r = None \<and> w = v else vd_last_retarget w = now" by (rule maybe_retarget_last [OF assms])
  show "\<forall>d. r = Some d \<and> vd_samples v \<noteq> [] \<longrightarrow> (cur * HYSTERESIS \<le> d \<or> d \<le> cur / HYSTERESIS) \<and>
       (\<exists>c. fclamp (vd_ema_rate w * vd_target_share_time v) (vd_min_diff v) (vd_max_diff v) = Some c \<and>
         nearest_p2 X v c = Some d)"
    using assms maybe_retarget_hysteresis maybe_retarget_from_rate by blast
qed (use maybe_retarget_idle [OF assms] in blast)

theorem vardiff_rate_and_hysteresis_witness:
  "\<exists>r w. maybe_retarget ref_externs (vardiff_new 0 (Fin 15) (Fin 90) (Fin 1) (Fin 64)) (Fin 8) 90000000000
     = Some (r, w) \<and> vd_last_retarget w = 90000000000"
proof -
  let ?v = "vardiff_new 0 (Fin 15) (Fin 90) (Fin 1) (Fin 64)"
  have rt: "vd_retarget_time ?v = Fin 90" by (simp add: vardiff_new_def fmax_def one_f64_def Let_def)
  have "f64_to_i64 (Fin 90 * Fin 1000) = 90000"
    using f64_of_int_small [of 90000] by (simp add: f64_of_int_def f64_to_i64_def rat_trunc_def)
  then have t: "\<not> num_milliseconds (90000000000 - vd_last_retarget ?v) < f64_to_i64 (vd_retarget_time ?v * Fin 1000)"
    unfolding rt by (simp add: num_milliseconds_def trunc_div_def vardiff_new_def Let_def)
  obtain r w where r: "maybe_retarget ref_externs ?v (Fin 8) 90000000000 = Some (r, w)"
    using maybe_retarget_total [OF ref_libm_ok vardiff_new_ok] by fastforce
  from vardiff_rate_and_hysteresis [OF r] t r show ?thesis by auto
qed

end
