(* ===== verification/Session.thy ===== *)
theory Session
  imports Tasks Share Vardiff Config Bitcoin_Encoding
begin

text \<open>
  The state of a Stratum V1 session (\<open>SessionState\<close>, \<open>SessionJob\<close>, \<open>NotifyBucket\<close> of
  \<open>src/stratum.rs\<close>) and its operations: jobs and their identifiers, the window of submitted
  shares, the difficulty and its target, the bootstrap of an authorized session. A job is shared
  between the queue and the shares being checked (\<open>Arc<SessionJob>\<close>): its mutable flag
  \<open>is_stale_block\<close> lives in the list \<open>v1_flags\<close>, at the address the job carries.
\<close>

subsection \<open>\<open>NotifyBucket\<close>\<close>

record notify_bucket =
  nb_tokens :: f64
  nb_capacity :: f64
  nb_fill_per_ms :: f64
  nb_last_fill_ms :: u64

definition notify_bucket_new :: "f64 \<Rightarrow> f64 \<Rightarrow> notify_bucket" where
  "notify_bucket_new capacity refill_ms =
     \<lparr>nb_tokens = capacity, nb_capacity = capacity,
      nb_fill_per_ms = (if 0 < refill_ms then 1 / refill_ms else 1), nb_last_fill_ms = 0\<rparr>"

definition try_consume :: "u64 \<Rightarrow> notify_bucket \<Rightarrow> bool \<times> notify_bucket" where
  "try_consume now self =
     (let self = (if nb_last_fill_ms self = 0 then self\<lparr>nb_last_fill_ms := now\<rparr> else self);
          elapsed_ms = f64_of_int (int (unat (sat_sub now (nb_last_fill_ms self))));
          self = self\<lparr>nb_tokens := fmin (nb_tokens self + elapsed_ms * nb_fill_per_ms self) (nb_capacity self),
            nb_last_fill_ms := now\<rparr>
      in if 1 \<le> nb_tokens self then (True, self\<lparr>nb_tokens := nb_tokens self - 1\<rparr>) else (False, self))"

subsection \<open>Session jobs\<close>

definition SESSION_JOB_ID_HEX_LEN :: nat where "SESSION_JOB_ID_HEX_LEN = 8"
definition MAX_DUP_HASHES :: nat where "MAX_DUP_HASHES = 4096"

definition format_session_job_id :: "u32 \<Rightarrow> string" where
  "format_session_job_id job_id = fmt_08x job_id"

definition parse_session_job_id :: "string \<Rightarrow> u32 option" where
  "parse_session_job_id job_id =
     (if length job_id \<noteq> SESSION_JOB_ID_HEX_LEN \<or> \<not> list_all is_hexdigit job_id then None
      else u32_from_hex job_id)"

definition normalize_session_job_id :: "string \<Rightarrow> string option" where
  "normalize_session_job_id job_id = map_option format_session_job_id (parse_session_job_id job_id)"

record session_job =
  sj_job :: job_template
  sj_difficulty :: f64
  sj_share_target_le :: bytes
  sj_coinbase_prefix :: bytes
  sj_session_job_id :: string
  sj_notify_ntime :: string
  sj_version_rolling_enabled :: bool
  sj_version_mask :: u32
  sj_custom_coinbase2_hex :: "string option"
  sj_custom_coinbase2_bytes :: "bytes option"
  sj_flag :: nat

text \<open>The key of a share: job, nonce, time, the first 16 bytes of the extranonce and how many, version.\<close>

type_synonym dup_key = "u32 \<times> u32 \<times> u32 \<times> bytes \<times> u8 \<times> u32"

definition build_dup_key :: "externs \<Rightarrow> string \<Rightarrow> string \<Rightarrow> string \<Rightarrow> string \<Rightarrow> string \<Rightarrow> dup_key" where
  "build_dup_key X job_id nonce_hex ntime_hex extranonce2_hex version_hex =
     (let decoded = (case hex_decode X extranonce2_hex of Inl e \<Rightarrow> [] | Inr bs \<Rightarrow> bs);
          extra_len = min (length decoded) 16;
          extranonce2 = take extra_len decoded @ replicate (16 - extra_len) 0
      in (unwrap_or 0 (parse_session_job_id job_id), unwrap_or 0 (u32_from_hex nonce_hex),
          unwrap_or 0 (u32_from_hex ntime_hex), extranonce2, word_of_nat extra_len,
          unwrap_or 0 (u32_from_hex version_hex)))"

record notify_post_send =
  np_prevhash :: string
  np_clean_jobs :: bool
  np_complete_bootstrap :: bool

record session =
  v1_authorized :: bool
  v1_bootstrap_complete :: bool
  v1_bootstrap_inflight :: bool
  v1_worker :: string
  v1_user_agent :: "string option"
  v1_extranonce1 :: string
  v1_extranonce1_bytes :: bytes
  v1_difficulty :: f64
  v1_share_target_cache :: bytes
  v1_vardiff :: vardiff
  v1_vardiff_enabled :: bool
  v1_jobs :: "session_job list"
  v1_next_job_id :: u32
  v1_last_notify :: instant
  v1_last_prevhash :: "string option"
  v1_session_start :: instant
  v1_last_clean_jobs_time :: "instant option"
  v1_notify_bucket :: notify_bucket
  v1_version_mask :: u32
  v1_version_rolling_enabled :: bool
  v1_submitted_hashes :: "dup_key set"
  v1_submitted_hashes_order :: "dup_key list"
  v1_flags :: "bool list"

text \<open>The three readings of the clock: of the controller, \<open>last_notify\<close> and \<open>session_start\<close>.\<close>

definition session_new ::
  "string \<Rightarrow> bytes \<Rightarrow> f64 \<Rightarrow> f64 \<Rightarrow> f64 \<Rightarrow> f64 \<Rightarrow> f64 \<Rightarrow> bool \<Rightarrow> f64 \<Rightarrow> f64 \<Rightarrow>
   instant \<Rightarrow> instant \<Rightarrow> instant \<Rightarrow> session" where
  "session_new extranonce1 extranonce1_bytes initial_diff target_share_time retarget_time min_diff
     max_diff enabled bucket_capacity bucket_refill_ms vardiff_now notify_now start_now =
     \<lparr>v1_authorized = False, v1_bootstrap_complete = False, v1_bootstrap_inflight = False,
      v1_worker = [], v1_user_agent = None, v1_extranonce1 = extranonce1,
      v1_extranonce1_bytes = extranonce1_bytes, v1_difficulty = initial_diff,
      v1_share_target_cache =
        (case share_target_le initial_diff of Inl e \<Rightarrow> replicate 32 0xff | Inr t \<Rightarrow> t),
      v1_vardiff = vardiff_new vardiff_now target_share_time retarget_time min_diff max_diff,
      v1_vardiff_enabled = enabled, v1_jobs = [], v1_next_job_id = 1,
      v1_last_notify = notify_now, v1_last_prevhash = None, v1_session_start = start_now,
      v1_last_clean_jobs_time = None,
      v1_notify_bucket = notify_bucket_new bucket_capacity bucket_refill_ms,
      v1_version_mask = 0x1fffe000, v1_version_rolling_enabled = False,
      v1_submitted_hashes = {}, v1_submitted_hashes_order = [], v1_flags = []\<rparr>"

definition begin_authorized_session :: "session \<Rightarrow> session" where
  "begin_authorized_session self =
     self\<lparr>v1_authorized := True, v1_bootstrap_complete := False, v1_bootstrap_inflight := False,
       v1_jobs := [], v1_last_prevhash := None, v1_last_clean_jobs_time := None,
       v1_submitted_hashes := {}, v1_submitted_hashes_order := []\<rparr>"

definition claim_bootstrap_notify :: "session \<Rightarrow> bool \<times> session" where
  "claim_bootstrap_notify self =
     (if v1_bootstrap_complete self \<or> v1_bootstrap_inflight self then (False, self)
      else (True, self\<lparr>v1_bootstrap_inflight := True\<rparr>))"

text \<open>\<open>job.is_stale_block.store(true)\<close> for every job of the queue, then \<open>retain\<close>.\<close>

definition mark_jobs_stale_block :: "session \<Rightarrow> session" where
  "mark_jobs_stale_block self =
     (let flags = fold (\<lambda>job fs. fs[sj_flag job := True]) (v1_jobs self) (v1_flags self)
      in self\<lparr>v1_flags := flags, v1_jobs := filter (\<lambda>job. \<not> flags ! sj_flag job) (v1_jobs self)\<rparr>)"

definition should_clean_jobs :: "job_template \<Rightarrow> session \<Rightarrow> bool" where
  "should_clean_jobs job self \<longleftrightarrow>
     \<not> jt_submit_old job \<or>
     (case v1_last_prevhash self of None \<Rightarrow> True | Some prev \<Rightarrow> prev \<noteq> jt_prevhash_le job)"

definition note_notify_sent :: "instant \<Rightarrow> notify_post_send \<Rightarrow> session \<Rightarrow> session" where
  "note_notify_sent now post_send self =
     (let self = self\<lparr>v1_last_notify := now, v1_last_prevhash := Some (np_prevhash post_send)\<rparr>;
          self = (if np_clean_jobs post_send then self\<lparr>v1_last_clean_jobs_time := Some now\<rparr> else self)
      in if np_complete_bootstrap post_send
         then self\<lparr>v1_bootstrap_complete := True, v1_bootstrap_inflight := False\<rparr> else self)"

definition set_difficulty :: "f64 \<Rightarrow> session \<Rightarrow> session" where
  "set_difficulty difficulty self =
     (case share_target_le difficulty of
        Inr target \<Rightarrow> self\<lparr>v1_difficulty := difficulty, v1_share_target_cache := target\<rparr>
      | Inl err \<Rightarrow> self)"

text \<open>The identifier that \<open>push_job\<close> takes, and the queue it appends to.\<close>

definition alloc_session_job_id :: "session \<Rightarrow> u32 \<times> session" where
  "alloc_session_job_id self =
     (let self = (if v1_next_job_id self = 0 then self\<lparr>v1_next_job_id := 1\<rparr> else self)
      in (v1_next_job_id self, self\<lparr>v1_next_job_id := max (v1_next_job_id self + 1) 1\<rparr>))"

definition enqueue_job :: "session_job \<Rightarrow> session \<Rightarrow> session" where
  "enqueue_job entry self = self\<lparr>v1_jobs := drop_to 32 (v1_jobs self @ [entry])\<rparr>"

definition push_job ::
  "job_template \<Rightarrow> f64 \<Rightarrow> bytes \<Rightarrow> string option \<Rightarrow> session \<Rightarrow> session_job \<times> session" where
  "push_job job difficulty extranonce1_bytes notify_ntime self =
     (case alloc_session_job_id self of (job_number, self) \<Rightarrow>
        let session_job_id = format_session_job_id job_number;
            self = set_difficulty difficulty self;
            share_target = v1_share_target_cache self;
            coinbase_prefix = jt_coinbase1_bytes job @ extranonce1_bytes;
            notify_ntime = unwrap_or (jt_ntime job) notify_ntime;
            version_mask = v1_version_mask self AND NOT (jt_vbrequired job);
            entry = \<lparr>sj_job = job, sj_difficulty = difficulty, sj_share_target_le = share_target,
              sj_coinbase_prefix = coinbase_prefix, sj_session_job_id = session_job_id,
              sj_notify_ntime = notify_ntime,
              sj_version_rolling_enabled = v1_version_rolling_enabled self,
              sj_version_mask = version_mask, sj_custom_coinbase2_hex = None,
              sj_custom_coinbase2_bytes = None, sj_flag = length (v1_flags self)\<rparr>;
            self = self\<lparr>v1_flags := v1_flags self @ [False]\<rparr>
        in (entry, enqueue_job entry self))"

definition find_job :: "string \<Rightarrow> session \<Rightarrow> session_job option" where
  "find_job job_id self =
     Option.bind (normalize_session_job_id job_id) (\<lambda>job_id.
       find (\<lambda>entry. sj_session_job_id entry = job_id \<and> \<not> v1_flags self ! sj_flag entry)
         (rev (v1_jobs self)))"

text \<open>The check of a share's key in \<open>handle_submit\<close>: whether it is new.\<close>

definition remember_submission :: "dup_key \<Rightarrow> session \<Rightarrow> bool \<times> session" where
  "remember_submission dup_key self =
     (if dup_key \<in> v1_submitted_hashes self then (False, self)
      else
        let self =
          (if card (v1_submitted_hashes self) \<ge> MAX_DUP_HASHES then
             (case v1_submitted_hashes_order self of
                [] \<Rightarrow> self
              | oldest # rest \<Rightarrow>
                  self\<lparr>v1_submitted_hashes_order := rest,
                    v1_submitted_hashes := v1_submitted_hashes self - {oldest}\<rparr>)
           else self)
        in (True, self\<lparr>v1_submitted_hashes := insert dup_key (v1_submitted_hashes self),
             v1_submitted_hashes_order := v1_submitted_hashes_order self @ [dup_key]\<rparr>))"

subsection \<open>The window of submitted shares\<close>

definition submissions_ok :: "session \<Rightarrow> bool" where
  "submissions_ok s \<longleftrightarrow>
     distinct (v1_submitted_hashes_order s) \<and>
     v1_submitted_hashes s = set (v1_submitted_hashes_order s) \<and>
     length (v1_submitted_hashes_order s) \<le> MAX_DUP_HASHES"

lemma card_submissions:
  "submissions_ok s \<Longrightarrow> card (v1_submitted_hashes s) = length (v1_submitted_hashes_order s)"
  by (simp add: submissions_ok_def distinct_card)

text \<open>The set and the queue together are the last \<open>MAX_DUP_HASHES\<close> new keys.\<close>

lemma remember_submission_new:
  assumes "submissions_ok s" and "k \<notin> v1_submitted_hashes s"
  shows "fst (remember_submission k s)"
    and "v1_submitted_hashes_order (snd (remember_submission k s)) =
      last_n MAX_DUP_HASHES (v1_submitted_hashes_order s @ [k])"
    and "submissions_ok (snd (remember_submission k s))"
proof -
  let ?q = "v1_submitted_hashes_order s"
  have q: "distinct ?q" "v1_submitted_hashes s = set ?q" "length ?q \<le> MAX_DUP_HASHES"
    using assms(1) by (simp_all add: submissions_ok_def)
  have cap: "0 < MAX_DUP_HASHES" by (simp add: MAX_DUP_HASHES_def)
  have "fst (remember_submission k s) \<and>
    v1_submitted_hashes_order (snd (remember_submission k s)) = last_n MAX_DUP_HASHES (?q @ [k]) \<and>
    v1_submitted_hashes (snd (remember_submission k s)) = set (last_n MAX_DUP_HASHES (?q @ [k]))"
  proof (cases "length ?q \<ge> MAX_DUP_HASHES")
    case True
    with q(3) cap obtain x xs where x: "?q = x # xs" "length ?q = MAX_DUP_HASHES"
      by (cases ?q) auto
    then have "last_n MAX_DUP_HASHES (?q @ [k]) = xs @ [k]"
      by (simp add: last_n_def)
    with x q(1,2) assms(2) card_submissions [OF assms(1)] show ?thesis
      by (auto simp: remember_submission_def)
  next
    case False
    with q assms(2) card_submissions [OF assms(1)] show ?thesis
      by (auto simp: remember_submission_def last_n_all)
  qed
  then show "fst (remember_submission k s)"
    and order: "v1_submitted_hashes_order (snd (remember_submission k s)) = last_n MAX_DUP_HASHES (?q @ [k])"
    and "submissions_ok (snd (remember_submission k s))"
    using q assms(2) by (auto simp: submissions_ok_def distinct_last_n)
qed

lemma remember_submission_known:
  "k \<in> v1_submitted_hashes s \<Longrightarrow> remember_submission k s = (False, s)"
  by (simp add: remember_submission_def)

lemma remember_submission_ok [bee_inv]: "submissions_ok s \<Longrightarrow> submissions_ok (snd (remember_submission k s))"
  by (cases "k \<in> v1_submitted_hashes s")
    (auto simp: remember_submission_known remember_submission_new(3))

interpretation v1_window: dedup_filter v1_submitted_hashes_order remember_submission submissions_ok MAX_DUP_HASHES
proof
  show "0 < MAX_DUP_HASHES" by (simp add: MAX_DUP_HASHES_def)
next
  fix s k
  assume s: "submissions_ok s"
  then show "distinct (v1_submitted_hashes_order s) \<and> length (v1_submitted_hashes_order s) \<le> MAX_DUP_HASHES"
    by (simp add: submissions_ok_def)
  show "submissions_ok (snd (remember_submission k s))" using s by (rule remember_submission_ok)
  show "remember_submission k s = (False, s)" if "k \<in> set (v1_submitted_hashes_order s)"
    using s that by (simp add: submissions_ok_def remember_submission_known)
  show "fst (remember_submission k s) \<and> v1_submitted_hashes_order (snd (remember_submission k s)) =
      last_n MAX_DUP_HASHES (v1_submitted_hashes_order s @ [k])"
    if "k \<notin> set (v1_submitted_hashes_order s)"
    using s that by (simp add: submissions_ok_def remember_submission_new [OF s])
qed

lemma remember_submission_frame [simp]:
  "v1_authorized (snd (remember_submission k s)) = v1_authorized s"
  "v1_bootstrap_complete (snd (remember_submission k s)) = v1_bootstrap_complete s"
  "v1_bootstrap_inflight (snd (remember_submission k s)) = v1_bootstrap_inflight s"
  "v1_jobs (snd (remember_submission k s)) = v1_jobs s"
  "v1_flags (snd (remember_submission k s)) = v1_flags s"
  "v1_next_job_id (snd (remember_submission k s)) = v1_next_job_id s"
  "v1_difficulty (snd (remember_submission k s)) = v1_difficulty s"
  "v1_share_target_cache (snd (remember_submission k s)) = v1_share_target_cache s"
  "v1_vardiff (snd (remember_submission k s)) = v1_vardiff s"
  "v1_version_mask (snd (remember_submission k s)) = v1_version_mask s"
  "v1_extranonce1_bytes (snd (remember_submission k s)) = v1_extranonce1_bytes s"
  "v1_session_start (snd (remember_submission k s)) = v1_session_start s"
  by (simp_all add: remember_submission_def Let_def split: list.split)

subsection \<open>Identifiers\<close>

interpretation v1_ids: id_source v1_next_job_id alloc_session_job_id
  by unfold_locales (simp_all add: alloc_session_job_id_def next_id_def Let_def)

interpretation v1_queue: fifo_log v1_jobs enqueue_job "\<lambda>_. 32"
  by unfold_locales (simp_all add: enqueue_job_def drop_to_eq)

lemma parse_format_session_job_id [simp]: "parse_session_job_id (format_session_job_id w) = Some w"
  using is_hexdigit_fmt_08x [of _ w]
  by (simp add: parse_session_job_id_def format_session_job_id_def SESSION_JOB_ID_HEX_LEN_def list_all_iff)

lemma normalize_format_session_job_id [simp]:
  "normalize_session_job_id (format_session_job_id w) = Some (format_session_job_id w)"
  by (simp add: normalize_session_job_id_def)

lemma normalize_session_job_id_idem:
  "normalize_session_job_id s = Some t \<Longrightarrow> normalize_session_job_id t = Some t"
  by (auto simp: normalize_session_job_id_def)

text \<open>The assertion of \<open>format_session_job_id\<close>.\<close>

lemma length_format_session_job_id: "length (format_session_job_id w) = SESSION_JOB_ID_HEX_LEN"
  by (simp add: format_session_job_id_def SESSION_JOB_ID_HEX_LEN_def)

lemma format_session_job_id_inj: "format_session_job_id v = format_session_job_id w \<Longrightarrow> v = w"
  by (metis option.inject parse_format_session_job_id)

subsection \<open>Invariant\<close>

text \<open>The difficulties a session may announce under a configuration.\<close>

definition diff_range :: "config \<Rightarrow> f64 \<Rightarrow> bool" where
  "diff_range cfg d \<longleftrightarrow> min_difficulty cfg \<le> d \<and>
     d \<le> fmax (max_difficulty cfg) (fmax (min_difficulty cfg) f64_MIN_POSITIVE)"

definition vardiff_for :: "config \<Rightarrow> vardiff \<Rightarrow> bool" where
  "vardiff_for cfg v \<longleftrightarrow> vd_ok v \<and> vd_min_diff v = fmax (min_difficulty cfg) f64_MIN_POSITIVE \<and>
     vd_max_diff v = fmax (max_difficulty cfg) (fmax (min_difficulty cfg) f64_MIN_POSITIVE)"

text \<open>
  The queue: at most 32 jobs with consecutive identifiers that end before the next one, each at an
  address of its own whose flag is not set.
\<close>

definition queue_ok :: "session \<Rightarrow> bool" where
  "queue_ok s \<longleftrightarrow>
     length (v1_jobs s) \<le> 32 \<and>
     (\<exists>w. w \<noteq> 0 \<and> v1_next_job_id s = (next_id ^^ length (v1_jobs s)) w \<and>
        map sj_session_job_id (v1_jobs s) =
          map (\<lambda>i. format_session_job_id ((next_id ^^ i) w)) [0..<length (v1_jobs s)]) \<and>
     distinct (map sj_flag (v1_jobs s)) \<and>
     (\<forall>e \<in> set (v1_jobs s). sj_flag e < length (v1_flags s) \<and> \<not> v1_flags s ! sj_flag e)"

text \<open>\<open>J\<close> holds of the templates that the engine publishes.\<close>

definition entry_ok :: "(job_template \<Rightarrow> bool) \<Rightarrow> config \<Rightarrow> bytes \<Rightarrow> session_job \<Rightarrow> bool" where
  "entry_ok J cfg extranonce1 e \<longleftrightarrow>
     J (sj_job e) \<and> diff_range cfg (sj_difficulty e) \<and>
     share_target_le (sj_difficulty e) = Inr (sj_share_target_le e) \<and>
     sj_coinbase_prefix e = jt_coinbase1_bytes (sj_job e) @ extranonce1 \<and>
     sj_version_mask e AND jt_vbrequired (sj_job e) = 0 \<and>
     sj_version_mask e AND NOT 0x1fffe000 = 0 \<and>
     sj_custom_coinbase2_hex e = None \<and> sj_custom_coinbase2_bytes e = None"

definition session_ok :: "(job_template \<Rightarrow> bool) \<Rightarrow> config \<Rightarrow> session \<Rightarrow> bool" where
  "session_ok J cfg s \<longleftrightarrow>
     queue_ok s \<and> submissions_ok s \<and> vardiff_for cfg (v1_vardiff s) \<and>
     (\<forall>e \<in> set (v1_jobs s). entry_ok J cfg (v1_extranonce1_bytes s) e) \<and>
     diff_range cfg (v1_difficulty s) \<and>
     share_target_le (v1_difficulty s) = Inr (v1_share_target_cache s) \<and>
     v1_version_mask s AND NOT 0x1fffe000 = 0 \<and>
     (v1_jobs s \<noteq> [] \<longrightarrow> v1_authorized s) \<and>
     (v1_bootstrap_complete s \<or> v1_bootstrap_inflight s \<longrightarrow> v1_authorized s) \<and>
     \<not> (v1_bootstrap_complete s \<and> v1_bootstrap_inflight s)"

text \<open>Fields that the queue and the window do not depend on.\<close>

lemma queue_ok_updates [simp]:
  "queue_ok (s\<lparr>v1_authorized := x_v1_authorized\<rparr>) = queue_ok s"
  "queue_ok (s\<lparr>v1_bootstrap_complete := x_v1_bootstrap_complete\<rparr>) = queue_ok s"
  "queue_ok (s\<lparr>v1_bootstrap_inflight := x_v1_bootstrap_inflight\<rparr>) = queue_ok s"
  "queue_ok (s\<lparr>v1_worker := x_v1_worker\<rparr>) = queue_ok s"
  "queue_ok (s\<lparr>v1_user_agent := x_v1_user_agent\<rparr>) = queue_ok s"
  "queue_ok (s\<lparr>v1_difficulty := x_v1_difficulty\<rparr>) = queue_ok s"
  "queue_ok (s\<lparr>v1_share_target_cache := x_v1_share_target_cache\<rparr>) = queue_ok s"
  "queue_ok (s\<lparr>v1_vardiff := x_v1_vardiff\<rparr>) = queue_ok s"
  "queue_ok (s\<lparr>v1_last_notify := x_v1_last_notify\<rparr>) = queue_ok s"
  "queue_ok (s\<lparr>v1_last_prevhash := x_v1_last_prevhash\<rparr>) = queue_ok s"
  "queue_ok (s\<lparr>v1_last_clean_jobs_time := x_v1_last_clean_jobs_time\<rparr>) = queue_ok s"
  "queue_ok (s\<lparr>v1_notify_bucket := x_v1_notify_bucket\<rparr>) = queue_ok s"
  "queue_ok (s\<lparr>v1_version_mask := x_v1_version_mask\<rparr>) = queue_ok s"
  "queue_ok (s\<lparr>v1_version_rolling_enabled := x_v1_version_rolling_enabled\<rparr>) = queue_ok s"
  "queue_ok (s\<lparr>v1_submitted_hashes := x_v1_submitted_hashes\<rparr>) = queue_ok s"
  "queue_ok (s\<lparr>v1_submitted_hashes_order := x_v1_submitted_hashes_order\<rparr>) = queue_ok s"
  by (simp_all add: queue_ok_def)

lemma submissions_ok_updates [simp]:
  "submissions_ok (s\<lparr>v1_authorized := x_v1_authorized\<rparr>) = submissions_ok s"
  "submissions_ok (s\<lparr>v1_bootstrap_complete := x_v1_bootstrap_complete\<rparr>) = submissions_ok s"
  "submissions_ok (s\<lparr>v1_bootstrap_inflight := x_v1_bootstrap_inflight\<rparr>) = submissions_ok s"
  "submissions_ok (s\<lparr>v1_worker := x_v1_worker\<rparr>) = submissions_ok s"
  "submissions_ok (s\<lparr>v1_user_agent := x_v1_user_agent\<rparr>) = submissions_ok s"
  "submissions_ok (s\<lparr>v1_difficulty := x_v1_difficulty\<rparr>) = submissions_ok s"
  "submissions_ok (s\<lparr>v1_share_target_cache := x_v1_share_target_cache\<rparr>) = submissions_ok s"
  "submissions_ok (s\<lparr>v1_vardiff := x_v1_vardiff\<rparr>) = submissions_ok s"
  "submissions_ok (s\<lparr>v1_last_notify := x_v1_last_notify\<rparr>) = submissions_ok s"
  "submissions_ok (s\<lparr>v1_last_prevhash := x_v1_last_prevhash\<rparr>) = submissions_ok s"
  "submissions_ok (s\<lparr>v1_last_clean_jobs_time := x_v1_last_clean_jobs_time\<rparr>) = submissions_ok s"
  "submissions_ok (s\<lparr>v1_notify_bucket := x_v1_notify_bucket\<rparr>) = submissions_ok s"
  "submissions_ok (s\<lparr>v1_version_mask := x_v1_version_mask\<rparr>) = submissions_ok s"
  "submissions_ok (s\<lparr>v1_version_rolling_enabled := x_v1_version_rolling_enabled\<rparr>) = submissions_ok s"
  "submissions_ok (s\<lparr>v1_jobs := x_v1_jobs\<rparr>) = submissions_ok s"
  "submissions_ok (s\<lparr>v1_flags := x_v1_flags\<rparr>) = submissions_ok s"
  "submissions_ok (s\<lparr>v1_next_job_id := x_v1_next_job_id\<rparr>) = submissions_ok s"
  by (simp_all add: submissions_ok_def)

lemma session_okD:
  assumes "session_ok J cfg s"
  shows "queue_ok s" and "submissions_ok s" and "vardiff_for cfg (v1_vardiff s)"
    and "diff_range cfg (v1_difficulty s)"
    and "e \<in> set (v1_jobs s) \<Longrightarrow> entry_ok J cfg (v1_extranonce1_bytes s) e"
  using assms by (simp_all add: session_ok_def)

text \<open>What every task leaves in place, whatever it changes.\<close>

definition session_rel :: "session \<Rightarrow> session \<Rightarrow> bool" where
  "session_rel s t \<longleftrightarrow>
     (v1_authorized s \<longrightarrow> v1_authorized t) \<and>
     v1_extranonce1 t = v1_extranonce1 s \<and> v1_extranonce1_bytes t = v1_extranonce1_bytes s \<and>
     v1_session_start t = v1_session_start s \<and> v1_vardiff_enabled t = v1_vardiff_enabled s \<and>
     length (v1_flags s) \<le> length (v1_flags t) \<and>
     (\<forall>i < length (v1_flags s). v1_flags s ! i \<longrightarrow> v1_flags t ! i)"

lemma session_rel_refl [simp]: "session_rel s s"
  by (simp add: session_rel_def)

lemma session_rel_trans [trans]: "session_rel s t \<Longrightarrow> session_rel t u \<Longrightarrow> session_rel s u"
  by (auto simp: session_rel_def)

lemma diff_range_pos:
  assumes "difficulty_ok cfg" and "diff_range cfg d"
  shows "is_finite d \<and> 0 < d"
proof -
  have fin: "is_finite (min_difficulty cfg)" "is_finite (max_difficulty cfg)" "0 < min_difficulty cfg"
    using assms(1) by (simp_all add: difficulty_ok_def)
  then have "is_finite (fmax (max_difficulty cfg) (fmax (min_difficulty cfg) f64_MIN_POSITIVE))"
    by (simp add: fmax_def f64_MIN_POSITIVE_def)
  moreover have "0 < d" using fin(3) assms(2) unfolding diff_range_def by (blast intro: f64_less_le_trans)
  ultimately show ?thesis using assms(2) unfolding diff_range_def
    by (cases d; cases "fmax (max_difficulty cfg) (fmax (min_difficulty cfg) f64_MIN_POSITIVE)")
      (auto simp: zero_f64_def)
qed

lemma diff_range_target:
  "difficulty_ok cfg \<Longrightarrow> diff_range cfg d \<Longrightarrow> \<exists>t. share_target_le d = Inr t"
  by (simp add: share_target_le_ok_iff diff_range_pos)

lemma start_diff_range: "difficulty_ok cfg \<Longrightarrow> diff_range cfg (start_difficulty cfg)"
proof -
  assume ok: "difficulty_ok cfg"
  then have "max_difficulty cfg \<noteq> NaN" by (cases "max_difficulty cfg") (auto simp: difficulty_ok_def)
  then have "max_difficulty cfg \<le> fmax (max_difficulty cfg) (fmax (min_difficulty cfg) f64_MIN_POSITIVE)"
    by (rule fmax_ge1)
  with ok show ?thesis by (auto simp: difficulty_ok_def diff_range_def intro: f64_le_trans)
qed

lemma vardiff_for_range:
  assumes "libm_ok X" and "vardiff_for cfg v" and "difficulty_ok cfg"
    and "maybe_retarget X v cur now = Some (Some d, w)"
  shows "diff_range cfg d"
proof -
  have "vd_min_diff v \<le> d \<and> d \<le> vd_max_diff v"
    using maybe_retarget_range [OF assms(1) _ assms(4)] assms(2) by (simp add: vardiff_for_def)
  moreover have "min_difficulty cfg \<le> fmax (min_difficulty cfg) f64_MIN_POSITIVE"
    using assms(3) by (intro fmax_ge1) (cases "min_difficulty cfg"; simp add: difficulty_ok_def)
  ultimately show ?thesis using assms(2) by (auto simp: vardiff_for_def diff_range_def intro: f64_le_trans)
qed

lemma vardiff_for_retarget:
  assumes "libm_ok X" and "vardiff_for cfg v"
  shows "\<exists>r w. maybe_retarget X v cur now = Some (r, w) \<and> vardiff_for cfg w"
proof -
  obtain r w where r: "maybe_retarget X v cur now = Some (r, w)"
    using maybe_retarget_total [OF assms(1)] assms(2) unfolding vardiff_for_def by blast
  from maybe_retarget_frame [OF r] vd_same_policy_ok [of v w] assms(2) r show ?thesis
    by (auto simp: vardiff_for_def vd_same_policy_def)
qed

lemma vardiff_for_share: "vardiff_for cfg v \<Longrightarrow> vardiff_for cfg (vd_record_share x v)"
  by (simp add: vardiff_for_def vd_record_share_ok)

lemma session_new_ok:
  assumes "difficulty_ok cfg"
  shows "session_ok J cfg (session_new en1 bytes (start_difficulty cfg) share_time retarget_time
    (min_difficulty cfg) (max_difficulty cfg) enabled cap refill t1 t2 t3)"
proof -
  obtain t where "share_target_le (start_difficulty cfg) = Inr t"
    using diff_range_target [OF assms start_diff_range [OF assms]] by blast
  moreover have "vd_ok (vardiff_new t1 share_time retarget_time (min_difficulty cfg) (max_difficulty cfg))"
    using assms by (intro vardiff_new_ok) (simp_all add: difficulty_ok_def)
  moreover have "\<exists>w. w \<noteq> 0 \<and> (1 :: u32) = w" by simp
  ultimately show ?thesis
    using start_diff_range [OF assms]
    by (simp add: session_ok_def session_new_def queue_ok_def submissions_ok_def vardiff_for_def
      vardiff_new_def Let_def)
qed

subsection \<open>The operations keep the invariant\<close>

lemma set_difficulty_eq:
  assumes "difficulty_ok cfg" and "diff_range cfg d"
  obtains t where "share_target_le d = Inr t"
    and "set_difficulty d s = s\<lparr>v1_difficulty := d, v1_share_target_cache := t\<rparr>"
  using diff_range_target [OF assms] by (auto simp: set_difficulty_def)

lemma set_difficulty_ok [bee_inv]:
  "difficulty_ok cfg \<Longrightarrow> diff_range cfg d \<Longrightarrow> session_ok J cfg s \<Longrightarrow>
   session_ok J cfg (set_difficulty d s) \<and> session_rel s (set_difficulty d s)"
  by (rule set_difficulty_eq [of cfg d s]) (auto simp: session_ok_def session_rel_def)

lemma begin_authorized_session_ok [bee_inv]:
  "session_ok J cfg s \<Longrightarrow>
   session_ok J cfg (begin_authorized_session s) \<and> session_rel s (begin_authorized_session s)"
proof -
  assume s: "session_ok J cfg s"
  then obtain w where "w \<noteq> 0" "v1_next_job_id s = (next_id ^^ length (v1_jobs s)) w"
    by (auto simp: session_ok_def queue_ok_def)
  then have "v1_next_job_id s \<noteq> 0" by (simp add: next_id_pow_nonzero)
  with s show ?thesis
    by (auto simp: session_ok_def begin_authorized_session_def queue_ok_def submissions_ok_def session_rel_def)
qed

lemma nth_list_update_read: "i < length xs \<Longrightarrow> xs[j := v] ! i = (if i = j then v else xs ! i)"
  by (cases "i = j") auto

lemma fold_set_flags:
  "length (fold (\<lambda>job fs. fs[sj_flag job := True]) jobs fs) = length fs"
  "i < length fs \<Longrightarrow>
   fold (\<lambda>job fs. fs[sj_flag job := True]) jobs fs ! i \<longleftrightarrow> fs ! i \<or> i \<in> sj_flag ` set jobs"
  by (induction jobs arbitrary: fs) (auto simp: nth_list_update_read)

text \<open>Marking empties the queue: every flag of it is set.\<close>

lemma mark_jobs_stale_block_jobs:
  "queue_ok s \<Longrightarrow> v1_jobs (mark_jobs_stale_block s) = []"
  by (auto simp: mark_jobs_stale_block_def queue_ok_def fold_set_flags filter_empty_conv Let_def)

lemma mark_jobs_stale_block_flags:
  "queue_ok s \<Longrightarrow> length (v1_flags (mark_jobs_stale_block s)) = length (v1_flags s) \<and>
   (\<forall>i < length (v1_flags s). v1_flags (mark_jobs_stale_block s) ! i \<longleftrightarrow>
      v1_flags s ! i \<or> i \<in> sj_flag ` set (v1_jobs s))"
  by (simp add: mark_jobs_stale_block_def fold_set_flags Let_def)

lemma mark_jobs_stale_block_frame [simp]:
  "v1_authorized (mark_jobs_stale_block s) = v1_authorized s"
  "v1_bootstrap_complete (mark_jobs_stale_block s) = v1_bootstrap_complete s"
  "v1_bootstrap_inflight (mark_jobs_stale_block s) = v1_bootstrap_inflight s"
  "v1_next_job_id (mark_jobs_stale_block s) = v1_next_job_id s"
  "v1_difficulty (mark_jobs_stale_block s) = v1_difficulty s"
  "v1_share_target_cache (mark_jobs_stale_block s) = v1_share_target_cache s"
  "v1_vardiff (mark_jobs_stale_block s) = v1_vardiff s"
  "v1_vardiff_enabled (mark_jobs_stale_block s) = v1_vardiff_enabled s"
  "v1_version_mask (mark_jobs_stale_block s) = v1_version_mask s"
  "v1_extranonce1 (mark_jobs_stale_block s) = v1_extranonce1 s"
  "v1_extranonce1_bytes (mark_jobs_stale_block s) = v1_extranonce1_bytes s"
  "v1_session_start (mark_jobs_stale_block s) = v1_session_start s"
  "v1_submitted_hashes (mark_jobs_stale_block s) = v1_submitted_hashes s"
  "v1_submitted_hashes_order (mark_jobs_stale_block s) = v1_submitted_hashes_order s"
  by (simp_all add: mark_jobs_stale_block_def Let_def)

lemma queue_ok_next: "queue_ok s \<Longrightarrow> v1_next_job_id s \<noteq> 0"
  by (auto simp: queue_ok_def next_id_pow_nonzero)

lemma queue_ok_empty: "v1_jobs s = [] \<Longrightarrow> v1_next_job_id s \<noteq> 0 \<Longrightarrow> queue_ok s"
  by (auto simp: queue_ok_def)

lemma mark_jobs_stale_block_ok [bee_inv]:
  "session_ok J cfg s \<Longrightarrow>
   session_ok J cfg (mark_jobs_stale_block s) \<and> session_rel s (mark_jobs_stale_block s)"
proof -
  assume s: "session_ok J cfg s"
  then have q: "queue_ok s" by (simp add: session_ok_def)
  have "queue_ok (mark_jobs_stale_block s)"
    using queue_ok_next [OF q] by (intro queue_ok_empty) (simp_all add: mark_jobs_stale_block_jobs [OF q])
  with s mark_jobs_stale_block_jobs [OF q] mark_jobs_stale_block_flags [OF q] show ?thesis
    by (auto simp: session_ok_def session_rel_def submissions_ok_def)
qed

lemma note_notify_sent_ok [bee_inv]:
  "session_ok J cfg s \<Longrightarrow> (np_complete_bootstrap p \<longrightarrow> v1_authorized s) \<Longrightarrow>
   session_ok J cfg (note_notify_sent now p s) \<and> session_rel s (note_notify_sent now p s)"
  by (auto simp: session_ok_def session_rel_def note_notify_sent_def Let_def)

lemma claim_bootstrap_notify_ok [bee_inv]:
  "session_ok J cfg s \<Longrightarrow> v1_authorized s \<Longrightarrow>
   session_ok J cfg (snd (claim_bootstrap_notify s)) \<and> session_rel s (snd (claim_bootstrap_notify s))"
  by (auto simp: session_ok_def session_rel_def claim_bootstrap_notify_def)

lemma remember_submission_session_ok [bee_inv]:
  "session_ok J cfg s \<Longrightarrow>
   session_ok J cfg (snd (remember_submission k s)) \<and> session_rel s (snd (remember_submission k s))"
proof -
  assume "session_ok J cfg s"
  moreover from this have "submissions_ok (snd (remember_submission k s))"
    by (simp add: session_ok_def remember_submission_ok)
  moreover have "v1_extranonce1 (snd (remember_submission k s)) = v1_extranonce1 s"
    "v1_vardiff_enabled (snd (remember_submission k s)) = v1_vardiff_enabled s"
    by (simp_all add: remember_submission_def Let_def split: list.split)
  ultimately show ?thesis
    by (simp add: session_ok_def session_rel_def queue_ok_def)
qed

subsection \<open>Pushing and finding jobs\<close>

lemma tl_last_n: "length xs = n \<Longrightarrow> last_n n (xs @ [x]) = tl (xs @ [x])"
  by (cases xs) (auto simp: last_n_def)

lemma queue_ok_push:
  assumes q: "queue_ok s" and id: "sj_session_job_id e = format_session_job_id (v1_next_job_id s)"
    and flag: "sj_flag e = length (v1_flags s)" and jobs: "v1_jobs t = last_n 32 (v1_jobs s @ [e])"
    and flags: "v1_flags t = v1_flags s @ [False]" and nxt: "v1_next_job_id t = next_id (v1_next_job_id s)"
  shows "queue_ok t"
proof -
  let ?f = "\<lambda>w i. format_session_job_id ((next_id ^^ i) w)"
  let ?n = "length (v1_jobs s)"
  obtain w where w: "w \<noteq> 0" "v1_next_job_id s = (next_id ^^ ?n) w"
    "map sj_session_job_id (v1_jobs s) = map (?f w) [0..<?n]" and len: "?n \<le> 32"
    using q by (auto simp: queue_ok_def)
  have ids: "map sj_session_job_id (v1_jobs s @ [e]) = map (?f w) [0..<Suc ?n]"
    using w id by simp
  have "\<exists>v. v \<noteq> 0 \<and> v1_next_job_id t = (next_id ^^ length (v1_jobs t)) v \<and>
      map sj_session_job_id (v1_jobs t) = map (?f v) [0..<length (v1_jobs t)]"
  proof (cases "?n = 32")
    case True
    have "map sj_session_job_id (v1_jobs t) = tl (map (?f w) [0..<33])"
      using ids True by (simp add: jobs tl_last_n map_tl)
    also have "\<dots> = map (?f w) [1..<33]" by (simp add: upt_conv_Cons)
    also have "\<dots> = map (?f (next_id w)) [0..<32]"
      by (rule nth_equalityI) (simp_all add: funpow_swap1 del: upt_Suc)
    finally have "map sj_session_job_id (v1_jobs t) = map (?f (next_id w)) [0..<length (v1_jobs t)]"
      using True by (simp add: jobs)
    moreover have "v1_next_job_id t = (next_id ^^ length (v1_jobs t)) (next_id w)"
      using True by (simp add: jobs nxt w(2) funpow_swap1)
    ultimately show ?thesis by (metis next_id_nonzero)
  next
    case False
    with len have "v1_jobs t = v1_jobs s @ [e]" by (simp add: jobs last_n_all)
    with ids w(1,2) nxt show ?thesis by (intro exI [of _ w]) simp
  qed
  moreover have "distinct (map sj_flag (v1_jobs s @ [e]))"
    using q flag by (auto simp: queue_ok_def)
  then have "distinct (map sj_flag (v1_jobs t))"
    by (simp only: jobs last_n_map distinct_last_n)
  moreover have "sj_flag x < length (v1_flags t) \<and> \<not> v1_flags t ! sj_flag x" if "x \<in> set (v1_jobs t)" for x
  proof -
    have "x \<in> set (v1_jobs s @ [e])" using that set_last_n [of 32 "v1_jobs s @ [e]"] jobs by auto
    with q flag flags show ?thesis by (auto simp: queue_ok_def nth_append)
  qed
  ultimately show ?thesis by (simp add: queue_ok_def jobs)
qed

lemma push_job_entry:
  assumes cfg: "difficulty_ok cfg" and d: "diff_range cfg d" and J: "J job"
    and auth: "v1_authorized s" and s: "session_ok J cfg s"
    and push: "push_job job d (v1_extranonce1_bytes s) ntime s = (e, t)"
  shows "session_ok J cfg t" and "session_rel s t"
    and "entry_ok J cfg (v1_extranonce1_bytes s) e" and "sj_job e = job"
    and "sj_session_job_id e = format_session_job_id (v1_next_job_id s)"
    and "v1_jobs t = last_n 32 (v1_jobs s @ [e])"
    and "v1_flags t = v1_flags s @ [False]" and "sj_flag e = length (v1_flags s)"
    and "sj_difficulty e = d" and "v1_difficulty t = d"
    and "v1_authorized t" and "v1_bootstrap_complete t = v1_bootstrap_complete s"
    and "v1_bootstrap_inflight t = v1_bootstrap_inflight s"
    and "sj_version_rolling_enabled e = v1_version_rolling_enabled s"
    and "v1_vardiff t = v1_vardiff s"
proof -
  obtain tgt where tgt: "share_target_le d = Inr tgt"
    and sd: "\<And>s. set_difficulty d s = s\<lparr>v1_difficulty := d, v1_share_target_cache := tgt\<rparr>"
    using diff_range_target [OF cfg d] by (auto simp: set_difficulty_def)
  have q: "queue_ok s" using s by (simp add: session_ok_def)
  note nz = queue_ok_next [OF q]
  have e: "e = \<lparr>sj_job = job, sj_difficulty = d, sj_share_target_le = tgt,
      sj_coinbase_prefix = jt_coinbase1_bytes job @ v1_extranonce1_bytes s,
      sj_session_job_id = format_session_job_id (v1_next_job_id s),
      sj_notify_ntime = unwrap_or (jt_ntime job) ntime,
      sj_version_rolling_enabled = v1_version_rolling_enabled s,
      sj_version_mask = v1_version_mask s AND NOT (jt_vbrequired job), sj_custom_coinbase2_hex = None,
      sj_custom_coinbase2_bytes = None, sj_flag = length (v1_flags s)\<rparr>"
    and t: "t = s\<lparr>v1_next_job_id := next_id (v1_next_job_id s), v1_difficulty := d,
      v1_share_target_cache := tgt, v1_flags := v1_flags s @ [False],
      v1_jobs := last_n 32 (v1_jobs s @ [e])\<rparr>"
    using push nz
    by (auto simp: push_job_def alloc_session_job_id_def sd enqueue_job_def drop_to_eq next_id_def Let_def)
  show ent: "entry_ok J cfg (v1_extranonce1_bytes s) e"
  proof -
    have "v1_version_mask s AND NOT (jt_vbrequired job) AND NOT 0x1fffe000 = 0"
      using s by (simp add: session_ok_def and.assoc [symmetric]) (metis and.commute and.left_commute and_zero_eq)
    then show ?thesis using J d tgt by (simp add: entry_ok_def e and.assoc)
  qed
  have "queue_ok t" by (rule queue_ok_push [OF q, of e]) (simp_all add: e t)
  moreover have "\<forall>x \<in> set (v1_jobs t). entry_ok J cfg (v1_extranonce1_bytes s) x"
    using s ent set_last_n [of 32 "v1_jobs s @ [e]"] by (auto simp: session_ok_def t)
  moreover have "submissions_ok t" using s by (simp add: session_ok_def submissions_ok_def t)
  ultimately show "session_ok J cfg t"
    using s d tgt auth by (simp add: session_ok_def t)
  show "session_rel s t" by (auto simp: session_rel_def t nth_append)
  show "sj_job e = job" "sj_session_job_id e = format_session_job_id (v1_next_job_id s)"
    "v1_jobs t = last_n 32 (v1_jobs s @ [e])" "v1_flags t = v1_flags s @ [False]"
    "sj_flag e = length (v1_flags s)" "sj_difficulty e = d" "v1_difficulty t = d" "v1_authorized t"
    "v1_bootstrap_complete t = v1_bootstrap_complete s" "v1_bootstrap_inflight t = v1_bootstrap_inflight s"
    "sj_version_rolling_enabled e = v1_version_rolling_enabled s" "v1_vardiff t = v1_vardiff s"
    by (simp_all add: e t auth)
qed

text \<open>What \<open>find_job\<close> finds: a job of the queue with the normalized identifier and no flag.\<close>

lemma find_job_Some:
  assumes "find_job txt s = Some e"
  shows "e \<in> set (v1_jobs s)" and "normalize_session_job_id txt = Some (sj_session_job_id e)"
    and "\<not> v1_flags s ! sj_flag e"
proof -
  obtain i where i: "normalize_session_job_id txt = Some i"
    "find (\<lambda>entry. sj_session_job_id entry = i \<and> \<not> v1_flags s ! sj_flag entry) (rev (v1_jobs s)) = Some e"
    using assms by (auto simp: find_job_def bind_eq_Some_conv)
  then have "e \<in> set (rev (v1_jobs s)) \<and> sj_session_job_id e = i \<and> \<not> v1_flags s ! sj_flag e"
    unfolding find_Some_iff by (metis nth_mem)
  with i(1) show "e \<in> set (v1_jobs s)" "normalize_session_job_id txt = Some (sj_session_job_id e)"
    "\<not> v1_flags s ! sj_flag e" by simp_all
qed

lemma queue_ok_distinct_ids: "queue_ok s \<Longrightarrow> distinct (map sj_session_job_id (v1_jobs s))"
proof -
  assume "queue_ok s"
  then obtain w where w: "w \<noteq> 0" "length (v1_jobs s) \<le> 32"
    "map sj_session_job_id (v1_jobs s) =
       map (\<lambda>i. format_session_job_id ((next_id ^^ i) w)) [0..<length (v1_jobs s)]"
    by (auto simp: queue_ok_def)
  have "i = j" if "i < 32" "j < 32" "(next_id ^^ i) w = (next_id ^^ j) w" for i j
  proof -
    have "j - i < 2 ^ 32 - 1" "i - j < 2 ^ 32 - 1" using that(1,2) by (auto intro: le_less_trans [OF diff_le_self])
    with that(3) next_id_pow_distinct [OF w(1), of i j] next_id_pow_distinct [OF w(1), of j i]
    show ?thesis by (metis linorder_neqE_nat)
  qed
  with w(2) show ?thesis
    unfolding w(3) by (auto simp: distinct_map inj_on_def dest!: format_session_job_id_inj)
qed

lemma find_job_complete:
  assumes "queue_ok s" and "e \<in> set (v1_jobs s)"
  shows "find_job (sj_session_job_id e) s = Some e"
proof -
  obtain w where "sj_session_job_id e = format_session_job_id w"
  proof -
    have "sj_session_job_id e \<in> set (map sj_session_job_id (v1_jobs s))" using assms(2) by simp
    with that assms(1) show thesis unfolding queue_ok_def by (metis (no_types, lifting) imageE set_map)
  qed
  then have n: "normalize_session_job_id (sj_session_job_id e) = Some (sj_session_job_id e)" by simp
  have fl: "\<not> v1_flags s ! sj_flag e" using assms by (simp add: queue_ok_def)
  have "\<exists>x. find_job (sj_session_job_id e) s = Some x"
    using n fl assms(2) find_None_iff [of _ "rev (v1_jobs s)"]
    by (auto simp: find_job_def not_None_eq [symmetric] simp del: not_None_eq)
  then obtain x where x: "find_job (sj_session_job_id e) s = Some x" by blast
  from find_job_Some [OF x] n have "x \<in> set (v1_jobs s)" "sj_session_job_id x = sj_session_job_id e" by auto
  with assms(2) queue_ok_distinct_ids [OF assms(1)] have "x = e"
    by (simp add: distinct_map inj_on_def)
  with x show ?thesis by simp
qed

end
