(* ===== verification/Line_Reader.thy ===== *)
theory Line_Reader
  imports RustStd
begin

text \<open>
  The bounded line reader of the Stratum V1 server (\<open>read_limited_line\<close> of \<open>src/stratum.rs\<close>) and
  the decoding of a line. What the socket delivers is the list of the chunks that successive calls
  of \<open>fill_buf\<close> return (an error, or bytes, none of them at the end of the stream); a chunk that is
  consumed in part stays with its rest.
\<close>

subsection \<open>\<open>read_limited_line\<close>\<close>

datatype limited_line_read = Eof | Line nat | TooLong nat

definition NEWLINE :: u8 where "NEWLINE = 10"

text \<open>\<open>iter().position(|b| *b == b'\n')\<close>.\<close>

fun position :: "('a \<Rightarrow> bool) \<Rightarrow> 'a list \<Rightarrow> nat option" where
  "position p [] = None"
| "position p (x # xs) = (if p x then Some 0 else map_option Suc (position p xs))"

text \<open>What is left of a chunk after \<open>reader.consume(n)\<close>.\<close>

definition consume :: "nat \<Rightarrow> bytes \<Rightarrow> bytes result list \<Rightarrow> bytes result list" where
  "consume n available rest = (if n < length available then Inr (drop n available) # rest else rest)"

function read_chunks ::
  "nat \<Rightarrow> bytes \<Rightarrow> bytes result list \<Rightarrow> limited_line_read result \<times> bytes \<times> bytes result list" where
  "read_chunks max_bytes out [] =
     (Inr (if out = [] then Eof else Line (length out)), out, [])"
| "read_chunks max_bytes out (Inl e # rest) = (Inl e, out, rest)"
| "read_chunks max_bytes out (Inr available # rest) =
     (if available = [] then (Inr (if out = [] then Eof else Line (length out)), out, rest)
      else
        case position (\<lambda>byte. byte = NEWLINE) available of
          Some newline_pos \<Rightarrow>
            let bite = newline_pos + 1; observed = length out + bite in
            if observed > max_bytes then (Inr (TooLong observed), out, consume bite available rest)
            else (Inr (Line (length (out @ take bite available))), out @ take bite available,
              consume bite available rest)
        | None \<Rightarrow>
            let chunk_len = length available; observed = length out + chunk_len in
            if observed > max_bytes then
              (Inr (TooLong observed), out, consume chunk_len available rest)
            else read_chunks max_bytes (out @ available) (consume chunk_len available rest))"
  by pat_completeness auto
termination
  by (relation "measure (\<lambda>(max_bytes, out, stream). length stream)") (auto simp: consume_def)

definition read_limited_line ::
  "nat \<Rightarrow> bytes result list \<Rightarrow> limited_line_read result \<times> bytes \<times> bytes result list" where
  "read_limited_line max_bytes stream = read_chunks max_bytes [] stream"

subsection \<open>A line does not depend on the chunks\<close>

text \<open>A stream without errors whose chunks carry bytes, and its bytes.\<close>

definition clean_stream :: "bytes result list \<Rightarrow> bool" where
  "clean_stream stream \<longleftrightarrow> (\<forall>c \<in> set stream. \<exists>bs. c = Inr bs \<and> bs \<noteq> [])"

definition stream_bytes :: "bytes result list \<Rightarrow> bytes" where
  "stream_bytes stream = concat (map (case_sum (\<lambda>_. []) (\<lambda>bs. bs)) stream)"

text \<open>Specification: the first line with its newline, the whole input when there is none; \<open>None\<close> when
  that is longer than the limit.\<close>

definition line_spec :: "nat \<Rightarrow> bytes \<Rightarrow> (bytes \<times> bytes) option" where
  "line_spec max_bytes bs =
     (let n = (case position (\<lambda>byte. byte = NEWLINE) bs of Some p \<Rightarrow> p + 1 | None \<Rightarrow> length bs)
      in if n \<le> max_bytes then Some (take n bs, drop n bs) else None)"

lemma position_None: "position p xs = None \<longleftrightarrow> (\<forall>x \<in> set xs. \<not> p x)"
  by (induction xs) auto

lemma position_Some: "position p xs = Some i \<Longrightarrow> i < length xs \<and> p (xs ! i)"
  by (induction xs arbitrary: i) (auto split: if_splits)

lemma position_append:
  "position p (xs @ ys) =
     (case position p xs of Some i \<Rightarrow> Some i | None \<Rightarrow> map_option (\<lambda>i. i + length xs) (position p ys))"
  by (induction xs) (auto simp: option.map_comp option.map_ident o_def split: option.splits)

lemma stream_bytes_simps [simp]:
  "stream_bytes [] = []" "stream_bytes (Inr bs # s) = bs @ stream_bytes s"
  by (simp_all add: stream_bytes_def)

lemma clean_stream_simps [simp]:
  "clean_stream []" "clean_stream (Inr bs # s) \<longleftrightarrow> bs \<noteq> [] \<and> clean_stream s"
  "\<not> clean_stream (Inl e # s)"
  by (auto simp: clean_stream_def)

lemma stream_bytes_consume: "stream_bytes (consume n bs s) = drop n bs @ stream_bytes s"
  by (simp add: consume_def)

lemma clean_stream_consume: "clean_stream s \<Longrightarrow> clean_stream (consume n bs s)"
  by (simp add: consume_def)

lemma read_chunks_spec:
  assumes "position (\<lambda>b. b = NEWLINE) out = None" and "length out \<le> max_bytes" and "clean_stream s"
  shows "case line_spec max_bytes (out @ stream_bytes s) of
      Some (line, rest) \<Rightarrow> \<exists>s'. clean_stream s' \<and> stream_bytes s' = rest \<and>
        read_chunks max_bytes out s = (Inr (if line = [] then Eof else Line (length line)), line, s')
    | None \<Rightarrow> \<exists>n out' s'. max_bytes < n \<and> length out' \<le> max_bytes \<and> clean_stream s' \<and>
        read_chunks max_bytes out s = (Inr (TooLong n), out', s')"
  using assms
proof (induction max_bytes out s rule: read_chunks.induct)
  case (1 max_bytes out)
  then show ?case by (simp add: line_spec_def)
next
  case (2 max_bytes out e s)
  then show ?case by simp
next
  case (3 max_bytes out bs s)
  then have bs: "bs \<noteq> []" "clean_stream s" by auto
  show ?case
  proof (cases "position (\<lambda>b. b = NEWLINE) bs")
    case (Some p)
    have p: "p < length bs" using position_Some [OF Some] by simp
    have pos: "position (\<lambda>b. b = NEWLINE) (out @ bs @ stream_bytes s) = Some (p + length out)"
      using 3(2) Some by (simp add: position_append)
    show ?thesis
      using bs p Some 3(3) clean_stream_consume [OF bs(2)] stream_bytes_consume [of "p + 1" bs s]
      by (auto simp: line_spec_def pos Let_def)
  next
    case None
    show ?thesis
    proof (cases "length out + length bs > max_bytes")
      case True
      have "max_bytes < (case position (\<lambda>byte. byte = NEWLINE) (out @ bs @ stream_bytes s) of
          Some p \<Rightarrow> p + 1 | None \<Rightarrow> length (out @ bs @ stream_bytes s))"
        using None 3(2) True by (auto simp: position_append split: option.split)
      with bs None 3(3) True clean_stream_consume [OF bs(2)] show ?thesis
        by (auto simp: line_spec_def Let_def)
    next
      case False
      have "position (\<lambda>b. b = NEWLINE) (out @ bs) = None" using 3(2) None by (simp add: position_append)
      moreover have all: "consume (length bs) bs s = s" by (simp add: consume_def)
      ultimately
      have "case line_spec max_bytes ((out @ bs) @ stream_bytes s) of
          Some (line, rest) \<Rightarrow> \<exists>s'. clean_stream s' \<and> stream_bytes s' = rest \<and>
            read_chunks max_bytes (out @ bs) s = (Inr (if line = [] then Eof else Line (length line)), line, s')
        | None \<Rightarrow> \<exists>n out' s'. max_bytes < n \<and> length out' \<le> max_bytes \<and> clean_stream s' \<and>
            read_chunks max_bytes (out @ bs) s = (Inr (TooLong n), out', s')"
        using 3(1) [OF bs(1) None refl refl, unfolded all] False bs by simp
      moreover have "read_chunks max_bytes out (Inr bs # s) = read_chunks max_bytes (out @ bs) s"
        using bs None False by (simp add: all Let_def)
      ultimately show ?thesis by (simp only: append_assoc stream_bytes_simps)
    qed
  qed
qed

subsection \<open>UTF-8\<close>

text \<open>
  \<open>std::str::from_utf8\<close>: well-formed sequences of one to four bytes (no overlong forms, no
  surrogates, nothing beyond U+10FFFF).
\<close>

definition cont_byte :: "u8 \<Rightarrow> bool" where
  "cont_byte b \<longleftrightarrow> 0x80 \<le> b \<and> b \<le> 0xbf"

fun utf8_valid :: "bytes \<Rightarrow> bool" where
  "utf8_valid [] = True"
| "utf8_valid (a # bs) =
     (if a \<le> 0x7f then utf8_valid bs
      else case bs of
        [] \<Rightarrow> False
      | b # cs \<Rightarrow>
          if 0xc2 \<le> a \<and> a \<le> 0xdf then cont_byte b \<and> utf8_valid cs
          else case cs of
            [] \<Rightarrow> False
          | c # ds \<Rightarrow>
              if (a = 0xe0 \<and> 0xa0 \<le> b \<and> b \<le> 0xbf) \<or> (0xe1 \<le> a \<and> a \<le> 0xec \<and> cont_byte b)
                \<or> (a = 0xed \<and> 0x80 \<le> b \<and> b \<le> 0x9f) \<or> (0xee \<le> a \<and> a \<le> 0xef \<and> cont_byte b)
              then cont_byte c \<and> utf8_valid ds
              else case ds of
                [] \<Rightarrow> False
              | d # es \<Rightarrow>
                  ((a = 0xf0 \<and> 0x90 \<le> b \<and> b \<le> 0xbf) \<or> (0xf1 \<le> a \<and> a \<le> 0xf3 \<and> cont_byte b)
                    \<or> (a = 0xf4 \<and> 0x80 \<le> b \<and> b \<le> 0x8f))
                  \<and> cont_byte c \<and> cont_byte d \<and> utf8_valid es)"

definition from_utf8 :: "bytes \<Rightarrow> string option" where
  "from_utf8 bs = (if utf8_valid bs then Some (map (\<lambda>b. char_of (unat b)) bs) else None)"

text \<open>\<open>trim_end_matches(|c| c == '\n' || c == '\r')\<close>.\<close>

definition trim_end_crlf :: "string \<Rightarrow> string" where
  "trim_end_crlf s = rev (dropWhile (\<lambda>c. c = CHR 0x0A \<or> c = CHR 0x0D) (rev s))"

end
