(* ===== verification/Stratum.thy ===== *)
theory Stratum
  imports Session Line_Reader
begin

text \<open>
  The Stratum V1 server of \<open>src/stratum.rs\<close>: the messages, the handlers of the client's requests
  and the two tasks that run beside the reader of a session (new templates, retargeting), as
  programs of \<open>Tasks\<close>; a session is the interleaving of the three with the tasks that submit
  blocks. The decoding of a request from its line is \<open>serde_json\<close>, the argument \<open>parse\<close>.
\<close>

subsection \<open>Messages\<close>

text \<open>A line for the client: the text of a JSON value, or the text that the notification writes.\<close>

datatype out_msg = Json json | Text string

type_synonym v1_prog = "(session, out_msg) prog"

record stratum_request =
  rq_id :: "json option"
  rq_method :: string
  rq_params :: json

definition reply :: "json option \<Rightarrow> json \<Rightarrow> json \<Rightarrow> out_msg" where
  "reply i r e = Json (JObj [(''id'', json_opt i), (''result'', r), (''error'', e)])"

definition refuse :: "json option \<Rightarrow> int \<Rightarrow> string \<Rightarrow> out_msg" where
  "refuse i code message = reply i (JBool False) (JArr [JInt code, JStr message, JNull])"

definition build_set_difficulty :: "f64 \<Rightarrow> out_msg" where
  "build_set_difficulty diff =
     Json (JObj [(''id'', JNull), (''method'', JStr ''mining.set_difficulty''), (''params'', JArr [json_f64 diff])])"

definition build_set_version_mask :: "u32 \<Rightarrow> out_msg" where
  "build_set_version_mask version_mask =
     Json (JObj [(''id'', JNull), (''method'', JStr ''mining.set_version_mask''),
       (''params'', JArr [JStr (fmt_08x version_mask)])])"

definition quoted :: "string \<Rightarrow> string" where
  "quoted s = ''\"'' @ s @ ''\"''"

definition build_notify_with_ntime ::
  "string \<Rightarrow> job_template \<Rightarrow> string \<Rightarrow> bool \<Rightarrow> string option \<Rightarrow> string" where
  "build_notify_with_ntime job_id job ntime clean_jobs custom_coinbase2 =
     (let coinbase2 = unwrap_or (jt_coinbase2 job) custom_coinbase2 in
      ''{\"id\":null,\"method\":\"mining.notify\",\"params\":[\"'' @ job_id
      @ ''\",\"'' @ jt_prevhash job @ ''\",\"'' @ jt_coinbase1 job @ ''\",\"'' @ coinbase2 @ ''\",[''
      @ join '','' (map quoted (jt_merkle_branches job))
      @ ''],\"'' @ jt_version job @ ''\",\"'' @ jt_nbits job @ ''\",\"'' @ ntime @ ''\"'' @ '',''
      @ (if clean_jobs then ''true]}'' else ''false]}''))"

record notify_trace =
  nt_trigger :: string
  nt_template_source :: template_source
  nt_miner :: string
  nt_difficulty :: f64
  nt_session_job_id :: string
  nt_template_job_id :: string
  nt_height :: u64
  nt_clean_jobs :: bool
  nt_notify_ntime :: string
  nt_template_created_at :: instant

record notify_dispatch =
  nd_messages :: "out_msg list"
  nd_trace :: notify_trace

definition build_notify_dispatch ::
  "string \<Rightarrow> f64 \<Rightarrow> session_job \<Rightarrow> bool \<Rightarrow> string \<Rightarrow> notify_dispatch" where
  "build_notify_dispatch miner difficulty session_job clean_jobs trigger =
     \<lparr>nd_messages =
        (if sj_version_rolling_enabled session_job
         then [build_set_version_mask (sj_version_mask session_job)] else [])
        @ [Text (build_notify_with_ntime (sj_session_job_id session_job) (sj_job session_job)
             (sj_notify_ntime session_job) clean_jobs (sj_custom_coinbase2_hex session_job))],
      nd_trace =
        \<lparr>nt_trigger = trigger, nt_template_source = jt_template_source (sj_job session_job),
         nt_miner = miner, nt_difficulty = difficulty,
         nt_session_job_id = sj_session_job_id session_job,
         nt_template_job_id = jt_job_id (sj_job session_job),
         nt_height = jt_height (sj_job session_job), nt_clean_jobs = clean_jobs,
         nt_notify_ntime = sj_notify_ntime session_job,
         nt_template_created_at = jt_created_at (sj_job session_job)\<rparr>\<rparr>"

text \<open>\<open>send_notify\<close>: the trace when the channel took every message.\<close>

definition send_notify :: "notify_dispatch \<Rightarrow> (notify_trace option \<Rightarrow> v1_prog) \<Rightarrow> v1_prog" where
  "send_notify dispatch k =
     send_all (nd_messages dispatch) (\<lambda>ok. k (if ok then Some (nd_trace dispatch) else None))"

text \<open>The lock section that follows a notification that was sent.\<close>

definition note_sent :: "notify_post_send \<Rightarrow> v1_prog \<Rightarrow> v1_prog" where
  "note_sent post_send p = Locked (\<lambda>rd guard. (note_notify_sent (rd_now rd) post_send guard, p))"

definition normalize_user_agent :: "string \<Rightarrow> string option" where
  "normalize_user_agent value =
     (let trimmed = trim value in if trimmed = [] then None else Some (take_chars 96 trimmed))"

definition build_miner_label :: "string option \<Rightarrow> string \<Rightarrow> string" where
  "build_miner_label user_agent session_id =
     unwrap_or ''Unknown'' user_agent @ '' #'' @ take_chars 8 session_id"

text \<open>\<open>None\<close> is the panic of \<open>clamp\<close>.\<close>

definition suggested_initial_difficulty :: "f64 option \<Rightarrow> f64 \<Rightarrow> f64 \<Rightarrow> f64 \<Rightarrow> f64 option" where
  "suggested_initial_difficulty suggested start lo hi =
     fclamp
       (case suggested of
          Some d \<Rightarrow> if is_finite d \<and> start < d then d else start
        | None \<Rightarrow> start)
       lo hi"

text \<open>A new difficulty goes out with the latest template, as a job of its own.\<close>

definition notify_latest ::
  "string \<Rightarrow> f64 \<Rightarrow> session \<Rightarrow> (notify_dispatch \<times> notify_post_send) option \<times> session" where
  "notify_latest trigger new_diff guard =
     (if v1_jobs guard = [] then (None, guard)
      else
        let job_latest = sj_job (last (v1_jobs guard)) in
        case push_job job_latest new_diff (v1_extranonce1_bytes guard) None guard of
          (session_job, guard) \<Rightarrow>
            (Some (build_notify_dispatch (v1_worker guard) new_diff session_job False trigger,
               \<lparr>np_prevhash = jt_prevhash_le job_latest, np_clean_jobs = False,
                np_complete_bootstrap = False\<rparr>),
             guard))"

text \<open>\<open>if send_notify(tx, notify).await.is_ok() { note_notify_sent }\<close>.\<close>

definition send_and_note :: "(notify_dispatch \<times> notify_post_send) option \<Rightarrow> v1_prog \<Rightarrow> v1_prog" where
  "send_and_note notify p =
     (case notify of
        None \<Rightarrow> p
      | Some (dispatch, post_send) \<Rightarrow>
          send_notify dispatch (\<lambda>r. case r of None \<Rightarrow> p | Some trace \<Rightarrow> note_sent post_send p))"

subsection \<open>The task of new templates\<close>

definition seen :: "string \<Rightarrow> f64 \<Rightarrow> v1_prog \<Rightarrow> v1_prog" where
  "seen miner difficulty p =
     (if miner = [] then p
      else Metric (\<lambda>now. record_miner_seen miner difficulty None None None now) p)"

text \<open>
  One round of the loop inside the task: what the lock section decides, with \<open>wait\<close> for the round
  that finds the bootstrap in flight. The assertion that the claim succeeds panics where assertions
  are checked. A round whose message the channel refuses ends the task in the code; here it ends
  the turn, and its next messages are refused as well.
\<close>

definition notify_decision ::
  "externs \<Rightarrow> job_template \<Rightarrow> u64 \<Rightarrow> v1_prog \<Rightarrow> session \<Rightarrow> session \<times> v1_prog" where
  "notify_decision X job now_ms wait guard =
     (if \<not> v1_authorized guard then (guard, Return)
      else if \<not> v1_bootstrap_complete guard \<and> v1_bootstrap_inflight guard then (guard, wait)
      else
        let bootstrap_notify = (\<not> v1_bootstrap_complete guard);
            (claimed, guard) = (if bootstrap_notify then claim_bootstrap_notify guard else (True, guard))
        in if debug_assertions X \<and> \<not> claimed then (guard, Panic)
        else
        let clean_jobs = (if bootstrap_notify then True else should_clean_jobs job guard);
            (allowed, guard) =
              (if \<not> bootstrap_notify \<and> \<not> clean_jobs then
                 (case try_consume now_ms (v1_notify_bucket guard) of
                    (ok, bucket) \<Rightarrow> (ok, guard\<lparr>v1_notify_bucket := bucket\<rparr>))
               else (True, guard))
        in if \<not> allowed then (guard, Count inc_notify_rate_limited Return)
           else
             let guard = (if clean_jobs then mark_jobs_stale_block guard else guard);
                 diff = v1_difficulty guard
             in case push_job job diff (v1_extranonce1_bytes guard) None guard of
                  (session_job, guard) \<Rightarrow>
                    (guard,
                     send_notify
                       (build_notify_dispatch (v1_worker guard) diff session_job clean_jobs
                          (if bootstrap_notify then ''template_update_bootstrap'' else ''template_update''))
                       (\<lambda>r. case r of
                          None \<Rightarrow> Return
                        | Some trace \<Rightarrow>
                            note_sent
                              \<lparr>np_prevhash = jt_prevhash_le job, np_clean_jobs = clean_jobs,
                               np_complete_bootstrap = bootstrap_notify\<rparr>
                              (Count (inc_jobs_sent (nt_clean_jobs trace))
                                (seen (nt_miner trace) (nt_difficulty trace) Return)))))"

text \<open>
  The inner loop, for a change of the template: a round that finds the bootstrap in flight leaves
  when the channel is closed, and otherwise sleeps 5 ms and goes round again with the job that is
  then current. The argument is a number of rounds after which the run is cut; the code has no
  such bound, and every number is a start of the task (\<open>v1_starts\<close>), so that whatever the loop
  does up to some moment is a run of one of these programs.
\<close>

fun notify_turn :: "externs \<Rightarrow> nat \<Rightarrow> v1_prog" where
  "notify_turn X 0 = Return"
| "notify_turn X (Suc rounds) =
     Read (\<lambda>rd.
       let job = rd_watch rd in
       if \<not> jt_ready job then Return
       else Locked (\<lambda>rd guard. notify_decision X job (rd_ms rd)
         (Read (\<lambda>rd. if rd_closed rd then Return else notify_turn X rounds)) guard))"

subsection \<open>The retargeting task\<close>

definition vardiff_interval_ms :: "config \<Rightarrow> int" where
  "vardiff_interval_ms cfg = f64_to_u64 (fmax (vardiff_retarget_time_secs cfg * Fin 1000) (Fin 1000))"

text \<open>
  A proposal of the controller, applied: the message of the new difficulty, and the notification.
  The outer \<open>None\<close> is a panic.
\<close>

definition apply_retarget ::
  "externs \<Rightarrow> string \<Rightarrow> instant \<Rightarrow> session \<Rightarrow>
   (out_msg list \<times> (notify_dispatch \<times> notify_post_send) option \<times> session) option" where
  "apply_retarget X trigger now guard =
     Option.bind (maybe_retarget X (v1_vardiff guard) (v1_difficulty guard) now) (\<lambda>(proposal, vardiff).
       let guard = guard\<lparr>v1_vardiff := vardiff\<rparr> in
       case proposal of
         None \<Rightarrow> Some ([], None, guard)
       | Some new_diff \<Rightarrow>
           let guard = set_difficulty new_diff guard in
           case notify_latest trigger new_diff guard of
             (notify, guard) \<Rightarrow> Some ([build_set_difficulty new_diff], notify, guard))"

definition vardiff_tick :: "externs \<Rightarrow> config \<Rightarrow> v1_prog" where
  "vardiff_tick X cfg =
     (if \<not> vardiff_enabled cfg then Return
      else Read (\<lambda>rd. let now = rd_now rd in
        Locked (\<lambda>rd guard.
          if \<not> v1_authorized guard \<or> \<not> v1_bootstrap_complete guard then (guard, Return)
          else
            case apply_retarget X ''vardiff_retarget'' now guard of
              None \<Rightarrow> (guard, Panic)
            | Some (msgs, notify, guard) \<Rightarrow>
                (guard,
                 send_all msgs (\<lambda>ok.
                   if \<not> ok then Return
                   else case notify of
                     None \<Rightarrow> Return
                   | Some (dispatch, post_send) \<Rightarrow>
                       send_notify dispatch (\<lambda>r. case r of
                           None \<Rightarrow> Return
                         | Some trace \<Rightarrow>
                             note_sent post_send (seen (nt_miner trace) (nt_difficulty trace) Return)))))))"

subsection \<open>Requests that do not submit\<close>

definition param_array :: "stratum_request \<Rightarrow> json list" where
  "param_array request = unwrap_or [] (as_array (rq_params request))"

definition on_subscribe :: "config \<Rightarrow> string \<Rightarrow> stratum_request \<Rightarrow> v1_prog" where
  "on_subscribe cfg extranonce1_hex request =
     (let user_agent = Option.bind (Option.bind (nth_opt (param_array request) 0) as_str_opt) normalize_user_agent;
          answer = Tell (reply (rq_id request)
            (JArr [JArr [JArr [JStr ''mining.set_difficulty'', JStr ''1''], JArr [JStr ''mining.notify'', JStr ''1'']],
               JStr extranonce1_hex, JInt (int (extranonce2_size cfg))]) JNull) Return
      in if user_agent \<noteq> None
         then Locked (\<lambda>rd guard. (guard\<lparr>v1_user_agent := user_agent\<rparr>, answer))
         else answer)"

definition handle_authorize :: "config \<Rightarrow> stratum_request \<Rightarrow> bool" where
  "handle_authorize cfg request =
     (let password = unwrap_or [] (Option.bind (nth_opt (param_array request) 1) as_str_opt)
      in case auth_token cfg of None \<Rightarrow> True | Some token \<Rightarrow> password = token)"

text \<open>The second half of an authorization: the bootstrap notification, when there is a job.\<close>

definition bootstrap_notify :: "string \<Rightarrow> f64 \<Rightarrow> (v1_prog) \<Rightarrow> v1_prog" where
  "bootstrap_notify worker difficulty p =
     Read (\<lambda>rd. let current_job = rd_current rd in
       if jt_ready current_job then
         Locked (\<lambda>rd guard.
           if v1_authorized guard \<and> v1_bootstrap_inflight guard \<and> \<not> v1_bootstrap_complete guard then
             (case push_job current_job difficulty (v1_extranonce1_bytes guard) None guard of
                (session_job, guard) \<Rightarrow>
                  (guard, send_and_note
                     (Some (build_notify_dispatch worker difficulty session_job True ''authorize'',
                        \<lparr>np_prevhash = jt_prevhash_le current_job, np_clean_jobs = True,
                         np_complete_bootstrap = True\<rparr>)) p))
           else (guard, p))
       else
         Locked (\<lambda>rd guard.
           if v1_authorized guard \<and> v1_bootstrap_inflight guard \<and> \<not> v1_bootstrap_complete guard
           then (guard\<lparr>v1_bootstrap_inflight := False\<rparr>, p)
           else (guard, p)))"

text \<open>\<open>handle\<close> is the number of the connection in the latency registry.\<close>

definition on_authorize :: "config \<Rightarrow> nat \<Rightarrow> stratum_request \<Rightarrow> v1_prog" where
  "on_authorize cfg handle request =
     (let authorized = handle_authorize cfg request in
      Tell (reply (rq_id request) (JBool authorized) JNull)
        (if \<not> authorized then Return
         else Locked (\<lambda>rd guard.
           let guard = begin_authorized_session guard;
               guard = guard\<lparr>v1_bootstrap_inflight := True\<rparr>;
               difficulty = v1_difficulty guard; user_agent = v1_user_agent guard;
               extranonce1 = v1_extranonce1 guard;
               worker = build_miner_label user_agent extranonce1;
               guard = guard\<lparr>v1_worker := worker\<rparr>
           in (guard,
               Tell (build_set_difficulty difficulty)
                 (bootstrap_notify worker difficulty
                   (Metric (\<lambda>now. record_miner_seen worker difficulty user_agent (Some extranonce1)
                        (Some ''SV1'') now)
                     (Shared (\<lambda>now sh. sh\<lparr>sh_registry := AList.update worker handle (sh_registry sh)\<rparr>)
                       Return)))))))"

definition on_ping :: "stratum_request \<Rightarrow> v1_prog" where
  "on_ping request =
     Load (\<lambda>guard.
       let heartbeat =
         (if v1_authorized guard \<and> v1_worker guard \<noteq> [] then Some (v1_worker guard, v1_difficulty guard)
          else None)
       in Send (reply (rq_id request) (JBool True) JNull) (\<lambda>sent.
            if sent then
              (case heartbeat of
                 None \<Rightarrow> Return
               | Some (worker, difficulty) \<Rightarrow>
                   Metric (\<lambda>now. record_miner_seen worker difficulty None None None now) Return)
            else Return))"

definition handle_suggest_difficulty :: "config \<Rightarrow> stratum_request \<Rightarrow> v1_prog" where
  "handle_suggest_difficulty cfg request =
     (let suggested = Option.bind (nth_opt (param_array request) 0) as_f64 in
      Locked (\<lambda>rd guard.
        case suggested_initial_difficulty suggested (start_difficulty cfg) (min_difficulty cfg) (max_difficulty cfg) of
          None \<Rightarrow> (guard, Panic)
        | Some target \<Rightarrow>
            let (diff_msg, notify, guard) =
              (if f64_EPSILON < fabs (target - v1_difficulty guard) then
                 let guard = set_difficulty target guard in
                 if v1_bootstrap_complete guard then
                   (case notify_latest ''suggest_difficulty'' target guard of
                      (notify, guard) \<Rightarrow> (build_set_difficulty target, notify, guard))
                 else (build_set_difficulty target, None, guard)
               else (build_set_difficulty (v1_difficulty guard), None, guard))
            in (guard, Tell diff_msg
                  (send_and_note notify (Tell (reply (rq_id request) (JBool True) JNull) Return)))))"

definition ALLOWED_MASK :: u32 where "ALLOWED_MASK = 0x1fffe000"

definition configured_mask_of :: "(string \<times> json) list option \<Rightarrow> job_template \<Rightarrow> u32" where
  "configured_mask_of options job =
     (let requested_mask = unwrap_or ''1fffe000''
            (Option.bind (Option.bind options (\<lambda>m. map_of m ''version-rolling.mask'')) as_str_opt);
          parsed_mask = unwrap_or ALLOWED_MASK (u32_from_hex (trim_0x requested_mask));
          current_vbrequired = (if jt_ready job then jt_vbrequired job else 0)
      in parsed_mask AND ALLOWED_MASK AND NOT current_vbrequired)"

definition configure_result :: "u32 \<Rightarrow> json list \<Rightarrow> (string \<times> json) list" where
  "configure_result configured_mask requested_extensions =
     foldl (\<lambda>result extension.
         if extension = ''version-rolling'' then
           AList.update ''version-rolling.mask'' (JStr (fmt_08x configured_mask))
             (AList.update extension (JBool True) result)
         else AList.update extension (JBool False) result)
       [] (List.map_filter as_str_opt requested_extensions)"

definition on_configure :: "stratum_request \<Rightarrow> v1_prog" where
  "on_configure request =
     (let requested_extensions = unwrap_or [] (Option.bind (nth_opt (param_array request) 0) as_array);
          options = Option.bind (nth_opt (param_array request) 1) as_object;
          version_rolling_requested =
            list_ex (\<lambda>v. as_str_opt v = Some ''version-rolling'') requested_extensions
      in Read (\<lambda>rd. let configured_mask = configured_mask_of options (rd_current rd) in
        Locked (\<lambda>rd guard.
          let guard = guard\<lparr>v1_version_rolling_enabled := version_rolling_requested\<rparr>;
              guard = (if version_rolling_requested then guard\<lparr>v1_version_mask := configured_mask\<rparr> else guard)
          in (guard, Tell (reply (rq_id request)
                (JObj (configure_result configured_mask requested_extensions)) JNull) Return))))"

subsection \<open>Submitted shares\<close>

record submit_fields =
  sf_worker :: string
  sf_job_id :: string
  sf_extranonce2 :: string
  sf_ntime :: string
  sf_nonce :: string
  sf_version :: "string option"

text \<open>The parameters of a share, filled up to their widths; an error is the text of error 20.\<close>

definition even_digits :: "string \<Rightarrow> string" where
  "even_digits s = (if length s mod 2 \<noteq> 0 then CHR ''0'' # s else s)"

definition parse_submit :: "config \<Rightarrow> json list \<Rightarrow> submit_fields result" where
  "parse_submit cfg params =
     (if length params < 5 then Inl ''Invalid params''
      else
        let text = (\<lambda>i. unwrap_or [] (as_str_opt (params ! i))) in
        case Option.bind (Option.bind (nth_opt params 1) as_str_opt) normalize_session_job_id of
          None \<Rightarrow> Inl ''Invalid job_id''
        | Some job_id \<Rightarrow>
            let submit_version = map_option trim_0x (Option.bind (nth_opt params 5) as_str_opt);
                extranonce2_clean = trim_0x (text 2);
                ntime_clean = trim_0x (text 3);
                nonce_clean = trim_0x (text 4);
                expected_extra2 = extranonce2_size cfg * 2
            in
            if length extranonce2_clean > 256 then Inl ''Invalid extranonce2 length''
            else
              let extranonce2_clean = even_digits extranonce2_clean;
                  extranonce2_clean =
                    (if length extranonce2_clean < expected_extra2 then pad0 expected_extra2 extranonce2_clean
                     else extranonce2_clean)
              in
              if length extranonce2_clean \<noteq> expected_extra2 then Inl ''Invalid extranonce2 length''
              else
                let ntime_clean = even_digits ntime_clean;
                    nonce_clean = even_digits nonce_clean;
                    ntime_clean = (if length ntime_clean < 8 then pad0 8 ntime_clean else ntime_clean);
                    nonce_clean = (if length nonce_clean < 8 then pad0 8 nonce_clean else nonce_clean)
                in
                if length ntime_clean \<noteq> 8 \<or> length nonce_clean \<noteq> 8 then Inl ''Invalid ntime/nonce length''
                else Inr \<lparr>sf_worker = text 0, sf_job_id = job_id, sf_extranonce2 = extranonce2_clean,
                  sf_ntime = ntime_clean, sf_nonce = nonce_clean, sf_version = submit_version\<rparr>)"

record submit_lookup =
  sl_authorized :: bool
  sl_version_mask :: u32
  sl_session_job :: "session_job option"
  sl_last_notify :: instant
  sl_session_start :: instant
  sl_vardiff_enabled :: bool
  sl_worker :: string
  sl_stale_reason :: "stale_reason option"

text \<open>What the share's lock section reads; \<open>now\<close> is only read when there is no such job.\<close>

definition lookup_submit :: "string \<Rightarrow> instant \<Rightarrow> session \<Rightarrow> submit_lookup" where
  "lookup_submit job_id now guard =
     (let found = (\<lambda>authorized job reason.
        \<lparr>sl_authorized = authorized, sl_version_mask = v1_version_mask guard, sl_session_job = job,
         sl_last_notify = v1_last_notify guard, sl_session_start = v1_session_start guard,
         sl_vardiff_enabled = v1_vardiff_enabled guard, sl_worker = v1_worker guard,
         sl_stale_reason = reason\<rparr>)
      in if \<not> v1_authorized guard then found False None None
         else case find_job job_id guard of
           Some job \<Rightarrow> found True (Some job) None
         | None \<Rightarrow>
             let reason =
               (if num_seconds (now - v1_session_start guard) < 30 then Reconnect
                else case v1_last_clean_jobs_time guard of
                  Some t \<Rightarrow> if num_seconds (now - t) \<le> 60 then NewBlock else Expired
                | None \<Rightarrow> Expired)
             in found True None (Some reason))"

text \<open>The version of the header, and whether bits outside the mask differ from the job's.\<close>

definition roll_version :: "session_job \<Rightarrow> string option \<Rightarrow> string option \<times> bool" where
  "roll_version session_job submit_version =
     (let version_mask = sj_version_mask session_job; job = sj_job session_job in
      case Option.bind submit_version parse_u32_be_hex of
        Some submit_val \<Rightarrow>
          let job_val = unwrap_or (jt_version_u32 job) (parse_u32_be_hex (jt_version job));
              submit_outside = submit_val AND NOT version_mask;
              job_outside = job_val AND NOT version_mask;
              outside_mismatch = (submit_outside \<noteq> 0 \<and> submit_outside \<noteq> job_outside);
              combined = (job_val AND NOT version_mask) OR (submit_val AND version_mask)
          in (Some (fmt_08x combined), outside_mismatch)
      | None \<Rightarrow> (None, False))"

definition refused_share :: "string \<Rightarrow> f64 \<Rightarrow> v1_prog \<Rightarrow> v1_prog" where
  "refused_share worker difficulty p =
     Metric (\<lambda>now. record_share worker difficulty 0 False False 0 0 0 0 False now) p"

text \<open>The block of a share: recorded, and handed to the engine by a task of its own.\<close>

definition outcome_status :: "submit_block_outcome result \<Rightarrow> string \<times> string option" where
  "outcome_status outcome =
     (case outcome of
        Inr Submitted \<Rightarrow> (''submitted'', None)
      | Inr Duplicate \<Rightarrow> (''duplicate'', None)
      | Inr (Rejected reason) \<Rightarrow> (''rejected'', Some reason)
      | Inl err \<Rightarrow> (''submit_failed'', Some err))"

definition submission_task :: "submission \<Rightarrow> (instant \<Rightarrow> string \<times> string option \<Rightarrow> string \<Rightarrow> block_event) \<Rightarrow> ('s, 'm) prog" where
  "submission_task b event =
     SubmitBlock b (\<lambda>outcome.
       let (status, reason) = outcome_status outcome;
           reward_status = (if status = ''submitted'' \<or> status = ''duplicate'' then ''pending_confirmation''
             else ''unavailable'')
       in Metric (\<lambda>now. upsert_block (event now (status, reason) reward_status)) Return)"

definition submit_candidate ::
  "session_job \<Rightarrow> string \<Rightarrow> share_result \<Rightarrow> instant \<Rightarrow> v1_prog \<Rightarrow> v1_prog" where
  "submit_candidate session_job worker r now p =
     (if \<not> res_is_block r then p
      else Load (\<lambda>guard.
        if v1_flags guard ! sj_flag session_job then p
        else case res_block_hex r of
          None \<Rightarrow> p
        | Some block_hex \<Rightarrow>
            let job = sj_job session_job;
                event = (\<lambda>created_at (status, reason) reward_status.
                  \<lparr>be_height = jt_height job, be_hash = res_hash_hex r, be_worker = worker,
                   be_difficulty = res_difficulty r, be_status = status, be_reason = reason,
                   be_confirmations = None, be_in_active_chain = None,
                   be_reward_status = reward_status, be_created_at = created_at\<rparr>);
                b = \<lparr>su_block_hex = block_hex, su_block_hash = res_hash_hex r,
                  su_template_key = jt_template_key job,
                  su_coinbase_hex = unwrap_or [] (res_coinbase_hex r),
                  su_txid_root = jt_txid_partial_root job,
                  su_witness = unwrap_or [] (jt_witness_commitment_script job)\<rparr>
            in Metric (\<lambda>_. upsert_block (event now (''candidate'', None) ''pending_submission''))
                 (Spawn (submission_task b event) p)))"

text \<open>The last lock section of a share, and what follows it.\<close>

definition finish_share ::
  "externs \<Rightarrow> submit_lookup \<Rightarrow> session_job \<Rightarrow> bool \<Rightarrow> instant \<Rightarrow>
   (out_msg list \<Rightarrow> (notify_dispatch \<times> notify_post_send) option \<Rightarrow> v1_prog) \<Rightarrow>
   session \<Rightarrow> session \<times> v1_prog" where
  "finish_share X lk session_job accepted_for_miner now k guard =
     (let guard = (if accepted_for_miner
           then guard\<lparr>v1_vardiff := vd_record_share (now, sj_difficulty session_job) (v1_vardiff guard)\<rparr>
           else guard)
      in if sl_vardiff_enabled lk \<and> v1_bootstrap_complete guard then
           (case apply_retarget X ''submit_retarget'' now guard of
              None \<Rightarrow> (guard, Panic)
            | Some (outbound_msgs, outbound_notify, guard) \<Rightarrow> (guard, k outbound_msgs outbound_notify))
         else (guard, k [] None))"

definition share_ack :: "json option \<Rightarrow> bool \<Rightarrow> out_msg" where
  "share_ack i accepted_for_miner =
     reply i (JBool accepted_for_miner)
       (if accepted_for_miner then JNull else JArr [JInt 23, JStr ''Low difficulty share'', JNull])"

text \<open>A share whose key is new: its validation, the answer, the block, the statistics.\<close>

definition check_share ::
  "externs \<Rightarrow> json option \<Rightarrow> submit_lookup \<Rightarrow> session_job \<Rightarrow> string \<Rightarrow> share_submit \<Rightarrow> v1_prog" where
  "check_share X i lk session_job worker submit =
     Read (\<lambda>rd.
       case validate_share X (rd_secs rd) (sj_job session_job) (sj_coinbase_prefix session_job) submit
           (sj_share_target_le session_job) (sj_custom_coinbase2_bytes session_job) of
         Inl err \<Rightarrow> Tell (refuse i 20 (''Invalid share params: '' @ err)) Return
       | Inr r \<Rightarrow> Read (\<lambda>rd.
           let now = rd_now rd;
               notify_to_submit_ms = max (num_milliseconds (now - sl_last_notify lk)) 0;
               notify_delay_ms = word_of_int notify_to_submit_ms;
               job_age_secs = word_of_int (max (num_seconds (now - jt_created_at (sj_job session_job))) 0);
               reconnect_recent = (num_seconds (now - sl_session_start lk) < 30);
               submit_rtt_ms = f64_of_int (int (rd_elapsed_us rd)) / Fin 1000;
               accepted_for_miner = (res_accepted r \<or> res_is_block r)
           in Tell (share_ack i accepted_for_miner)
                (submit_candidate session_job worker r now
                  (Locked (\<lambda>_. finish_share X lk session_job accepted_for_miner now
                    (\<lambda>outbound_msgs outbound_notify.
                      Metric (record_share worker (sj_difficulty session_job) (res_difficulty r)
                          accepted_for_miner (res_is_block r) notify_to_submit_ms submit_rtt_ms
                          job_age_secs notify_delay_ms reconnect_recent)
                        (tell_all outbound_msgs (send_and_note outbound_notify Return))))))))"

text \<open>
  A share of a job of the session. Where assertions are checked, the mask of the job must be the one
  that the session has now.
\<close>

definition submit_share ::
  "externs \<Rightarrow> json option \<Rightarrow> submit_fields \<Rightarrow> submit_lookup \<Rightarrow> session_job \<Rightarrow> v1_prog" where
  "submit_share X i f lk session_job =
     (let worker = (if sl_worker lk \<noteq> [] then sl_worker lk else sf_worker f);
          (version, version_outside_mask) = roll_version session_job (sf_version f)
      in if debug_assertions X \<and>
           sj_version_mask session_job \<noteq> sl_version_mask lk AND NOT (jt_vbrequired (sj_job session_job))
         then Panic
         else if version_outside_mask then
           Count inc_version_rolling_violation
             (Tell (refuse i 20 ''Version bits outside negotiated mask'')
               (refused_share worker (sj_difficulty session_job) Return))
         else
           let submit = \<lparr>sub_extranonce2 = sf_extranonce2 f, sub_ntime = sf_ntime f, sub_nonce = sf_nonce f,
                 sub_version = version\<rparr>;
               version_key = unwrap_or (jt_version (sj_job session_job)) version;
               dup_key = build_dup_key X (sf_job_id f) (sf_nonce f) (sf_ntime f) (sf_extranonce2 f) version_key
           in Locked (\<lambda>_ guard.
             case remember_submission dup_key guard of
               (is_new, guard) \<Rightarrow>
                 (guard,
                  if \<not> is_new then
                    Count inc_duplicate_share
                      (Tell (refuse i 22 ''Duplicate share'')
                        (refused_share worker (sj_difficulty session_job) Return))
                  else check_share X i lk session_job worker submit)))"

definition handle_submit :: "externs \<Rightarrow> config \<Rightarrow> stratum_request \<Rightarrow> v1_prog" where
  "handle_submit X cfg request =
     (let i = rq_id request in
      case parse_submit cfg (param_array request) of
        Inl message \<Rightarrow> Tell (refuse i 20 message) Return
      | Inr f \<Rightarrow> Locked (\<lambda>rd guard.
          let lk = lookup_submit (sf_job_id f) (rd_now rd) guard in
          (guard,
           if \<not> sl_authorized lk then Tell (refuse i 24 ''Unauthorized'') Return
           else case sl_session_job lk of
             None \<Rightarrow> Tell (refuse i 21 ''Stale share'')
               (if sl_worker lk \<noteq> []
                then Metric (record_stale (sl_worker lk) (unwrap_or Expired (sl_stale_reason lk))) Return
                else Return)
           | Some session_job \<Rightarrow> submit_share X i f lk session_job)))"

subsection \<open>The reader\<close>

definition on_unsupported :: "stratum_request \<Rightarrow> v1_prog" where
  "on_unsupported request =
     Tell (reply (rq_id request) JNull (JArr [JInt 20, JStr ''Unsupported method'', JNull])) Return"

definition handle_request ::
  "externs \<Rightarrow> config \<Rightarrow> nat \<Rightarrow> string \<Rightarrow> stratum_request \<Rightarrow> v1_prog" where
  "handle_request X cfg handle extranonce1_hex request =
     (let m = rq_method request in
      if m = ''mining.subscribe'' then on_subscribe cfg extranonce1_hex request
      else if m = ''mining.extranonce.subscribe'' then
        Tell (reply (rq_id request) (JBool True) JNull) Return
      else if m = ''mining.authorize'' then on_authorize cfg handle request
      else if m = ''mining.get_version'' then
        Tell (reply (rq_id request) (JStr ''StratumBee'') JNull) Return
      else if m = ''mining.ping'' then on_ping request
      else if m = ''mining.suggest_difficulty'' then handle_suggest_difficulty cfg request
      else if m = ''mining.submit'' then handle_submit X cfg request
      else if m = ''mining.configure'' then on_configure request
      else on_unsupported request)"

text \<open>The end of a session.\<close>

definition close_session :: v1_prog where
  "close_session =
     Load (\<lambda>guard.
       if v1_worker guard = [] then Return
       else Shared (\<lambda>now sh. sh\<lparr>sh_registry := AList.delete (v1_worker guard) (sh_registry sh)\<rparr>) Return)"

text \<open>
  One turn of the read loop: the handler of what was read (\<open>None\<close>: the session is closed, with the
  error of the reader if there is one).
\<close>

definition read_turn ::
  "externs \<Rightarrow> config \<Rightarrow> (string \<Rightarrow> stratum_request option) \<Rightarrow> nat \<Rightarrow> string \<Rightarrow>
   limited_line_read result option \<Rightarrow> bytes \<Rightarrow> v1_prog option" where
  "read_turn X cfg parse handle extranonce1_hex read_result buf =
     (case read_result of
        None \<Rightarrow> None
      | Some (Inl io_err) \<Rightarrow> None
      | Some (Inr Eof) \<Rightarrow> None
      | Some (Inr (TooLong observed)) \<Rightarrow> None
      | Some (Inr (Line n)) \<Rightarrow>
          Some (case from_utf8 (take n buf) of
              None \<Rightarrow> Return
            | Some s \<Rightarrow>
                let line = trim_end_crlf s in
                if line = [] then Return
                else case parse line of
                  None \<Rightarrow> Return
                | Some request \<Rightarrow> handle_request X cfg handle extranonce1_hex request))"

text \<open>A new session: its state, and the counter of connections; the messages that its channel holds.\<close>

definition CHANNEL_CAPACITY :: nat where "CHANNEL_CAPACITY = 64"

definition session_open ::
  "externs \<Rightarrow> config \<Rightarrow> bytes \<Rightarrow> instant \<Rightarrow> instant \<Rightarrow> instant \<Rightarrow> session" where
  "session_open X cfg extranonce1 t1 t2 t3 =
     session_new (hex_encode X extranonce1) extranonce1 (start_difficulty cfg)
       (target_share_time_secs cfg) (vardiff_retarget_time_secs cfg) (min_difficulty cfg)
       (max_difficulty cfg) (vardiff_enabled cfg) (notify_bucket_capacity cfg)
       (notify_bucket_refill_ms cfg) t1 t2 t3"

subsection \<open>The session as interleaved tasks\<close>

text \<open>
  Task 0 is the reader, task 1 the task of new templates, task 2 the retargeting task; the tasks
  behind them submit blocks. Ending a session aborts tasks 1 and 2, which only removes steps.
\<close>

inductive v1_starts ::
  "externs \<Rightarrow> config \<Rightarrow> (string \<Rightarrow> stratum_request option) \<Rightarrow> nat \<Rightarrow> string \<Rightarrow> nat \<Rightarrow> v1_prog \<Rightarrow> bool"
  for X cfg parse handle en1 where
  line: "read_turn X cfg parse handle en1 res buf = Some p \<Longrightarrow> v1_starts X cfg parse handle en1 0 p"
| close: "read_turn X cfg parse handle en1 res buf = None \<Longrightarrow> v1_starts X cfg parse handle en1 0 close_session"
| template: "v1_starts X cfg parse handle en1 1 (notify_turn X rounds)"
| tick: "v1_starts X cfg parse handle en1 2 (vardiff_tick X cfg)"

definition v1_tasks :: "v1_prog list" where
  "v1_tasks = [Count inc_reconnect Return, Return, Return]"

text \<open>What a session may send: notifications and version masks once it is authorized, difficulties in
  the configured range.\<close>

definition v1_msg_ok :: "config \<Rightarrow> session \<Rightarrow> out_msg \<Rightarrow> bool" where
  "v1_msg_ok cfg s m \<longleftrightarrow>
     (case m of
        Text t \<Rightarrow> v1_authorized s
      | Json j \<Rightarrow>
          (\<forall>d. m = build_set_difficulty d \<longrightarrow> diff_range cfg d) \<and>
          (\<forall>w. m = build_set_version_mask w \<longrightarrow> v1_authorized s))"

text \<open>The jobs that a task reads satisfy \<open>J\<close>.\<close>

definition v1_env :: "(job_template \<Rightarrow> bool) \<Rightarrow> reading \<Rightarrow> bool" where
  "v1_env J rd \<longleftrightarrow> J (rd_current rd) \<and> J (rd_watch rd)"

abbreviation v1_section :: "(job_template \<Rightarrow> bool) \<Rightarrow> config \<Rightarrow> session \<Rightarrow> session \<times> v1_prog \<Rightarrow> bool" where
  "v1_section J cfg \<equiv> section_ok (session_ok J cfg) session_rel (v1_msg_ok cfg) (v1_env J)"

abbreviation v1_safe :: "(job_template \<Rightarrow> bool) \<Rightarrow> config \<Rightarrow> session \<Rightarrow> v1_prog \<Rightarrow> bool" where
  "v1_safe J cfg \<equiv> safe (session_ok J cfg) session_rel (v1_msg_ok cfg) (v1_env J)"

interpretation v1: rely_guarantee "session_ok J cfg" session_rel "v1_msg_ok cfg" for J cfg
proof
  show "session_rel s s" for s by simp
  show "session_rel s u" if "session_rel s t" "session_rel t u" for s t u
    using that by (rule session_rel_trans)
  show "v1_msg_ok cfg t m" if "v1_msg_ok cfg s m" "session_rel s t" for s m t
    using that by (auto simp: v1_msg_ok_def session_rel_def split: out_msg.splits)
qed

subsection \<open>The messages are allowed\<close>

lemma reply_ok [simp]: "v1_msg_ok cfg s (reply i r e)"
  by (simp add: v1_msg_ok_def reply_def build_set_difficulty_def build_set_version_mask_def)

lemma refuse_ok [simp]: "v1_msg_ok cfg s (refuse i c m)"
  by (simp add: refuse_def)

lemma share_ack_ok [simp]: "v1_msg_ok cfg s (share_ack i b)"
  by (simp add: share_ack_def)

lemma set_difficulty_msg_ok:
  assumes "difficulty_ok cfg" and "diff_range cfg d"
  shows "v1_msg_ok cfg s (build_set_difficulty d)"
proof -
  have "d' = d" if "build_set_difficulty d = build_set_difficulty d'" for d'
    using that diff_range_pos [OF assms] by (auto simp: build_set_difficulty_def json_f64_def split: if_splits)
  then have "\<forall>d'. build_set_difficulty d = build_set_difficulty d' \<longrightarrow> diff_range cfg d'"
    using assms(2) by blast
  moreover have "build_set_difficulty d \<noteq> build_set_version_mask w" for w
    by (simp add: build_set_difficulty_def build_set_version_mask_def)
  moreover obtain j where "build_set_difficulty d = Json j" by (simp add: build_set_difficulty_def)
  ultimately show ?thesis by (auto simp: v1_msg_ok_def)
qed

lemma dispatch_messages_ok:
  "m \<in> set (nd_messages (build_notify_dispatch w d e c tr)) \<Longrightarrow> v1_authorized s \<Longrightarrow> v1_msg_ok cfg s m"
  by (auto simp: build_notify_dispatch_def v1_msg_ok_def build_set_version_mask_def
    build_set_difficulty_def split: if_splits)

text \<open>A notification that may be sent from a state on.\<close>

definition notify_ok :: "config \<Rightarrow> session \<Rightarrow> (notify_dispatch \<times> notify_post_send) option \<Rightarrow> bool" where
  "notify_ok cfg s n \<longleftrightarrow>
     (\<forall>d p. n = Some (d, p) \<longrightarrow> v1_authorized s \<and>
        (\<forall>m \<in> set (nd_messages d). \<forall>t. v1_authorized t \<longrightarrow> v1_msg_ok cfg t m))"

lemma session_rel_authorized: "session_rel s t \<Longrightarrow> v1_authorized s \<Longrightarrow> v1_authorized t"
  by (simp add: session_rel_def)

lemma note_sent_safe:
  "v1_authorized s \<Longrightarrow> v1_safe J cfg s p \<Longrightarrow> v1_safe J cfg s (note_sent ps p)"
  unfolding note_sent_def
proof (rule safe.Locked, intro conjI)
  fix rd t
  assume s: "v1_authorized s" "v1_safe J cfg s p" and t: "session_rel s t" "session_ok J cfg t"
  have n: "session_ok J cfg (note_notify_sent (rd_now rd) ps t) \<and> session_rel t (note_notify_sent (rd_now rd) ps t)"
    using note_notify_sent_ok [OF t(2)] session_rel_authorized [OF t(1) s(1)] by blast
  show "session_ok J cfg (fst (note_notify_sent (rd_now rd) ps t, p))"
    "session_rel t (fst (note_notify_sent (rd_now rd) ps t, p))" using n by simp_all
  show "v1_safe J cfg (fst (note_notify_sent (rd_now rd) ps t, p)) (snd (note_notify_sent (rd_now rd) ps t, p))"
    using v1.safe_env [OF s(2)] n session_rel_trans [OF t(1)] by auto
qed

lemma send_notify_safe:
  assumes "notify_ok cfg s (Some (d, ps))" and "\<And>r. v1_safe J cfg s (k r)"
  shows "v1_safe J cfg s (send_notify d k)"
  unfolding send_notify_def
  by (rule safe_send_all) (use assms session_rel_authorized in \<open>auto simp: notify_ok_def\<close>)

lemma send_and_note_safe:
  "notify_ok cfg s n \<Longrightarrow> v1_safe J cfg s p \<Longrightarrow> v1_safe J cfg s (send_and_note n p)"
  by (auto simp: send_and_note_def notify_ok_def split: option.split prod.split
    intro!: send_notify_safe note_sent_safe)

lemma notify_ok_dispatch:
  "v1_authorized s \<Longrightarrow> notify_ok cfg s (Some (build_notify_dispatch w d e c tr, ps))"
  by (auto simp: notify_ok_def dest: dispatch_messages_ok)

lemma notify_ok_None [simp]: "notify_ok cfg s None"
  by (simp add: notify_ok_def)

subsection \<open>The lock sections\<close>

lemma notify_latest_ok:
  assumes cfg: "difficulty_ok cfg" and d: "diff_range cfg d" and s: "session_ok J cfg s"
    and n: "notify_latest tr d s = (n, t)"
  shows "session_ok J cfg t \<and> session_rel s t \<and> notify_ok cfg t n"
proof (cases "v1_jobs s = []")
  case True
  with n s show ?thesis by (simp add: notify_latest_def)
next
  case False
  then have last: "last (v1_jobs s) \<in> set (v1_jobs s)" by simp
  with s have auth: "v1_authorized s" and J: "J (sj_job (last (v1_jobs s)))"
    by (auto simp: session_ok_def entry_ok_def)
  obtain e u where p: "push_job (sj_job (last (v1_jobs s))) d (v1_extranonce1_bytes s) None s = (e, u)"
    by fastforce
  note pj = push_job_entry [OF cfg d J auth s p]
  from n p False have "t = u" "notify_ok cfg u n"
    using notify_ok_dispatch [OF pj(11)] by (auto simp: notify_latest_def Let_def)
  with pj(1,2) show ?thesis by simp
qed

lemma apply_retarget_ok:
  assumes X: "libm_ok X" and cfg: "difficulty_ok cfg" and s: "session_ok J cfg s"
  obtains msgs n t where "apply_retarget X tr now s = Some (msgs, n, t)"
    and "session_ok J cfg t" and "session_rel s t" and "notify_ok cfg t n"
    and "\<forall>m \<in> set msgs. \<forall>u. v1_msg_ok cfg u m"
proof -
  obtain r w where r: "maybe_retarget X (v1_vardiff s) (v1_difficulty s) now = Some (r, w)" "vardiff_for cfg w"
    using vardiff_for_retarget [OF X session_okD(3) [OF s]] by blast
  let ?s = "s\<lparr>v1_vardiff := w\<rparr>"
  have s1: "session_ok J cfg ?s" "session_rel s ?s"
    using s r(2) by (simp_all add: session_ok_def session_rel_def)
  show thesis
  proof (cases r)
    case None
    with r s1 show thesis by (intro that [of "[]" None ?s]) (simp_all add: apply_retarget_def Let_def)
  next
    case (Some d)
    have d: "diff_range cfg d"
      using vardiff_for_range [OF X session_okD(3) [OF s] cfg] r(1) Some by blast
    note s2 = set_difficulty_ok [OF cfg d s1(1)]
    obtain n t where n: "notify_latest tr d (set_difficulty d ?s) = (n, t)" by fastforce
    note nl = notify_latest_ok [OF cfg d s2 [THEN conjunct1] n]
    show thesis
    proof (rule that [of "[build_set_difficulty d]" n t])
      show "apply_retarget X tr now s = Some ([build_set_difficulty d], n, t)"
        using r(1) Some n by (simp add: apply_retarget_def Let_def)
      show "session_rel s t"
        using s1(2) s2 nl session_rel_trans by blast
    qed (use nl set_difficulty_msg_ok [OF cfg d] in auto)
  qed
qed

lemma seen_safe: "v1_safe J cfg s p \<Longrightarrow> v1_safe J cfg s (seen m d p)"
  by (auto simp: seen_def)

lemma try_consume_session_ok:
  "session_ok J cfg s \<Longrightarrow> session_ok J cfg (s\<lparr>v1_notify_bucket := b\<rparr>) \<and> session_rel s (s\<lparr>v1_notify_bucket := b\<rparr>)"
  by (simp add: session_ok_def session_rel_def)

lemma notify_decision_safe:
  assumes cfg: "difficulty_ok cfg" and J: "J job" and s: "session_ok J cfg s"
    and wait: "v1_safe J cfg s wait" and r: "notify_decision X job ms wait s = (t, p)"
  shows "v1_section J cfg s (t, p)"
proof (cases "v1_authorized s \<and> (v1_bootstrap_complete s \<or> \<not> v1_bootstrap_inflight s)")
  case False
  then have "notify_decision X job ms wait s = (s, if v1_authorized s then wait else Return)"
    by (cases "v1_authorized s") (simp_all add: notify_decision_def)
  with r s wait show ?thesis by (simp add: safe.Return section_ok_def split: if_splits)
next
  case True
  define boot where "boot = (\<not> v1_bootstrap_complete s)"
  define s1 where "s1 = (if boot then snd (claim_bootstrap_notify s) else s)"
  define clean where "clean = (if boot then True else should_clean_jobs job s1)"
  define b where "b = try_consume ms (v1_notify_bucket s1)"
  define s2 where "s2 = (if \<not> boot \<and> \<not> clean then s1\<lparr>v1_notify_bucket := snd b\<rparr> else s1)"
  define s3 where "s3 = (if clean then mark_jobs_stale_block s2 else s2)"
  have s1: "session_ok J cfg s1" "session_rel s s1" "v1_authorized s1"
    using claim_bootstrap_notify_ok [OF s] True s by (auto simp: s1_def session_rel_def)
  have s2: "session_ok J cfg s2" "session_rel s s2" "v1_authorized s2"
    using try_consume_session_ok [OF s1(1)] s1 session_rel_trans [OF s1(2)] by (auto simp: s2_def)
  have s3: "session_ok J cfg s3" "session_rel s s3" "v1_authorized s3"
    using mark_jobs_stale_block_ok [OF s2(1)] s2 session_rel_trans [OF s2(2)] by (auto simp: s3_def)
  obtain e u where pu: "push_job job (v1_difficulty s3) (v1_extranonce1_bytes s3) None s3 = (e, u)"
    by fastforce
  have "diff_range cfg (v1_difficulty s3)" using s3(1) by (rule session_okD)
  note pj = push_job_entry [OF cfg this J s3(3,1) pu]
  let ?d = "build_notify_dispatch (v1_worker u) (v1_difficulty s3) e clean
    (if boot then ''template_update_bootstrap'' else ''template_update'')"
  let ?ps = "\<lparr>np_prevhash = jt_prevhash_le job, np_clean_jobs = clean, np_complete_bootstrap = boot\<rparr>"
  let ?p = "send_notify ?d (\<lambda>r. case r of None \<Rightarrow> Return
    | Some trace \<Rightarrow> note_sent ?ps (Count (inc_jobs_sent (nt_clean_jobs trace))
        (seen (nt_miner trace) (nt_difficulty trace) Return)))"
  have pair: "(if \<not> boot \<and> \<not> clean then (fst b, s1\<lparr>v1_notify_bucket := snd b\<rparr>) else (True, s1)) =
      ((\<not> boot \<and> \<not> clean \<longrightarrow> fst b), s2)"
    by (simp add: s2_def)
  have claim: "(if boot then claim_bootstrap_notify s else (True, s)) = (True, s1)"
    using True by (auto simp: boot_def s1_def claim_bootstrap_notify_def)
  have "\<not> (\<not> v1_authorized s)" "\<not> (boot \<and> v1_bootstrap_inflight s)" using True by (auto simp: boot_def)
  then have "notify_decision X job ms wait s =
      (if \<not> (\<not> boot \<and> \<not> clean \<longrightarrow> fst b) then (s2, Count inc_notify_rate_limited Return) else (u, ?p))"
    unfolding notify_decision_def Let_def boot_def [symmetric] claim prod.case clean_def [symmetric]
      not_True_eq_False simp_thms b_def [symmetric] split_beta pair fst_conv snd_conv s3_def [symmetric] pu
    by (simp only: if_False not_True_eq_False)
  then consider "t = s2" "p = Count inc_notify_rate_limited Return" | "t = u" "p = ?p"
    using r by (auto split: if_splits)
  then show ?thesis
  proof cases
    case 1
    with s2 show ?thesis by (auto simp: section_ok_def intro: safe.Return)
  next
    case 2
    have "v1_safe J cfg u ?p"
      by (rule send_notify_safe [OF notify_ok_dispatch [OF pj(11), of _ _ _ _ _ _ ?ps]])
        (auto split: option.split intro!: note_sent_safe [OF pj(11)] seen_safe safe.Return)
    moreover have "session_rel s u" using s3(2) pj(2) by (rule session_rel_trans)
    ultimately show ?thesis using pj(1) 2 by (simp add: section_ok_def)
  qed
qed

subsection \<open>The tasks are safe\<close>

lemma section_same: "session_ok J cfg t \<Longrightarrow> v1_safe J cfg t p \<Longrightarrow> v1_section J cfg t (t, p)"
  by (rule section_okI) simp_all

lemma notify_turn_safe:
  assumes "difficulty_ok cfg"
  shows "v1_safe J cfg s (notify_turn X rounds)"
proof (induction rounds arbitrary: s)
  case (Suc n)
  show ?case
    unfolding notify_turn.simps Let_def
  proof (rule safe.Read)
    fix rd assume "v1_env J rd"
    then have J: "J (rd_watch rd)" by (simp add: v1_env_def)
    let ?wait = "Read (\<lambda>rd. if rd_closed rd then Return else notify_turn X n)"
    have wait: "v1_safe J cfg t ?wait" for t
      by (rule safe.Read) (simp add: Suc.IH safe.Return)
    have "v1_safe J cfg s (Locked (\<lambda>rd' guard. notify_decision X (rd_watch rd) (rd_ms rd') ?wait guard))"
      by (rule safe_LockedI) (metis notify_decision_safe [where J = J, OF assms J _ wait] prod.exhaust)
    then show "v1_safe J cfg s (if \<not> jt_ready (rd_watch rd) then Return
      else Locked (\<lambda>rd' guard. notify_decision X (rd_watch rd) (rd_ms rd') ?wait guard))"
      by (simp add: safe.Return)
  qed
qed (simp add: safe.Return)

lemma vardiff_tick_safe:
  assumes X: "libm_ok X" and cfg: "difficulty_ok cfg"
  shows "v1_safe J cfg s (vardiff_tick X cfg)"
proof (cases "vardiff_enabled cfg")
  case False
  then show ?thesis by (simp add: vardiff_tick_def safe.Return)
next
  case True
  show ?thesis
    unfolding vardiff_tick_def Let_def if_not_P [OF not_not [THEN iffD2, OF True]]
  proof (intro safe.Read safe_LockedI)
    fix rd rd' t assume t: "session_ok J cfg t"
    obtain msgs n u where u: "apply_retarget X ''vardiff_retarget'' (rd_now rd) t = Some (msgs, n, u)"
      "session_ok J cfg u" "session_rel t u" "notify_ok cfg u n" "\<forall>m \<in> set msgs. \<forall>v. v1_msg_ok cfg v m"
      by (rule apply_retarget_ok [OF X cfg t])
    have "v1_safe J cfg u (send_all msgs (\<lambda>ok.
        if \<not> ok then Return
        else case n of None \<Rightarrow> Return
          | Some (dispatch, post_send) \<Rightarrow>
              send_notify dispatch (\<lambda>r. case r of None \<Rightarrow> Return
                | Some trace \<Rightarrow> note_sent post_send (seen (nt_miner trace) (nt_difficulty trace) Return))))"
      using u(4,5)
      by (intro safe_send_all)
        (auto split: option.split intro!: safe.Return send_notify_safe note_sent_safe seen_safe
          simp: notify_ok_def)
    with u(1-3) t show "v1_section J cfg t (if \<not> v1_authorized t \<or> \<not> v1_bootstrap_complete t then (t, Return)
            else case apply_retarget X ''vardiff_retarget'' (rd_now rd) t of None \<Rightarrow> (t, Panic)
              | Some (msgs, notify, guard) \<Rightarrow> (guard, send_all msgs (\<lambda>ok.
                 if \<not> ok then Return
                 else case notify of None \<Rightarrow> Return
                   | Some (dispatch, post_send) \<Rightarrow> send_notify dispatch (\<lambda>r. case r of None \<Rightarrow> Return
                       | Some trace \<Rightarrow> note_sent post_send (seen (nt_miner trace) (nt_difficulty trace) Return)))))"
      by (simp add: section_okI section_same safe.Return)
  qed
qed

lemma answer_safe: "(\<And>t. v1_msg_ok cfg t m) \<Longrightarrow> v1_safe J cfg s (Tell m Return)"
  by (intro safe_Tell safe.Return)

lemma on_subscribe_safe: "v1_safe J cfg s (on_subscribe cfg' en1 request)"
proof -
  have "v1_section J cfg t (t\<lparr>v1_user_agent := ua\<rparr>, Tell (reply i r e) Return)"
    if "session_ok J cfg t" for t ua i r e
    by (rule section_okI)
      (use that in \<open>simp_all add: session_ok_def session_rel_def answer_safe\<close>)
  then show ?thesis
    by (auto simp: on_subscribe_def Let_def intro!: answer_safe safe_LockedI)
qed

lemma bootstrap_notify_safe:
  assumes cfg: "difficulty_ok cfg" and d: "diff_range cfg d" and p: "\<And>t. v1_safe J cfg t p"
  shows "v1_safe J cfg s (bootstrap_notify w d p)"
  unfolding bootstrap_notify_def Let_def
proof (rule safe.Read)
  fix rd assume "v1_env J rd"
  then have J: "J (rd_current rd)" by (simp add: v1_env_def)
  have a: "v1_section J cfg t
      (if v1_authorized t \<and> v1_bootstrap_inflight t \<and> \<not> v1_bootstrap_complete t then
         (case push_job (rd_current rd) d (v1_extranonce1_bytes t) None t of
            (session_job, guard) \<Rightarrow> (guard, send_and_note
              (Some (build_notify_dispatch w d session_job True ''authorize'',
                 \<lparr>np_prevhash = jt_prevhash_le (rd_current rd), np_clean_jobs = True,
                  np_complete_bootstrap = True\<rparr>)) p))
       else (t, p))" if t: "session_ok J cfg t" for t
  proof (cases "v1_authorized t \<and> v1_bootstrap_inflight t \<and> \<not> v1_bootstrap_complete t")
    case True
    obtain e u where pu: "push_job (rd_current rd) d (v1_extranonce1_bytes t) None t = (e, u)" by fastforce
    note pj = push_job_entry [OF cfg d J _ t pu]
    show ?thesis using True pj(1,2,11) pu
      by (auto intro!: section_okI send_and_note_safe notify_ok_dispatch p)
  qed (use t p in \<open>auto simp: section_same\<close>)
  have b: "v1_section J cfg t
      (if v1_authorized t \<and> v1_bootstrap_inflight t \<and> \<not> v1_bootstrap_complete t
       then (t\<lparr>v1_bootstrap_inflight := False\<rparr>, p) else (t, p))" if t: "session_ok J cfg t" for t
    using t p by (auto simp: section_ok_def session_ok_def session_rel_def)
  show "v1_safe J cfg s (if jt_ready (rd_current rd) then
         Locked (\<lambda>rd' guard.
           if v1_authorized guard \<and> v1_bootstrap_inflight guard \<and> \<not> v1_bootstrap_complete guard then
             (case push_job (rd_current rd) d (v1_extranonce1_bytes guard) None guard of
                (session_job, guard) \<Rightarrow>
                  (guard, send_and_note
                     (Some (build_notify_dispatch w d session_job True ''authorize'',
                        \<lparr>np_prevhash = jt_prevhash_le (rd_current rd), np_clean_jobs = True,
                         np_complete_bootstrap = True\<rparr>)) p))
           else (guard, p))
       else
         Locked (\<lambda>rd' guard.
           if v1_authorized guard \<and> v1_bootstrap_inflight guard \<and> \<not> v1_bootstrap_complete guard
           then (guard\<lparr>v1_bootstrap_inflight := False\<rparr>, p)
           else (guard, p)))"
    using a b by (auto intro!: safe_LockedI)
qed

lemma on_authorize_safe:
  assumes "difficulty_ok cfg"
  shows "v1_safe J cfg s (on_authorize cfg' handle request)"
proof -
  have sec: "v1_section J cfg t (begin_authorized_session t\<lparr>v1_bootstrap_inflight := True, v1_worker := w\<rparr>,
      Tell (build_set_difficulty (v1_difficulty (begin_authorized_session t))) (bootstrap_notify w' (v1_difficulty (begin_authorized_session t)) p))"
    if t: "session_ok J cfg t" and p: "\<And>u. v1_safe J cfg u p" for t w w' p
  proof (rule section_okI)
    note b = begin_authorized_session_ok [OF t]
    then have d: "diff_range cfg (v1_difficulty (begin_authorized_session t))" by (simp add: session_ok_def)
    have auth: "v1_authorized (begin_authorized_session t)" "\<not> v1_bootstrap_complete (begin_authorized_session t)"
      "v1_jobs (begin_authorized_session t) = []"
      by (simp_all add: begin_authorized_session_def)
    with b show "session_ok J cfg (begin_authorized_session t\<lparr>v1_bootstrap_inflight := True, v1_worker := w\<rparr>)"
      and "session_rel t (begin_authorized_session t\<lparr>v1_bootstrap_inflight := True, v1_worker := w\<rparr>)"
      by (simp_all add: session_ok_def session_rel_def)
    show "v1_safe J cfg (begin_authorized_session t\<lparr>v1_bootstrap_inflight := True, v1_worker := w\<rparr>)
      (Tell (build_set_difficulty (v1_difficulty (begin_authorized_session t)))
        (bootstrap_notify w' (v1_difficulty (begin_authorized_session t)) p))"
      by (intro safe_Tell set_difficulty_msg_ok [OF assms d] bootstrap_notify_safe [OF assms d] p)
  qed
  have "v1_safe J cfg s (Locked (\<lambda>rd guard.
           let guard = begin_authorized_session guard;
               guard = guard\<lparr>v1_bootstrap_inflight := True\<rparr>;
               difficulty = v1_difficulty guard; user_agent = v1_user_agent guard;
               extranonce1 = v1_extranonce1 guard;
               worker = build_miner_label user_agent extranonce1;
               guard = guard\<lparr>v1_worker := worker\<rparr>
           in (guard,
               Tell (build_set_difficulty difficulty)
                 (bootstrap_notify worker difficulty
                   (Metric (\<lambda>now. record_miner_seen worker difficulty user_agent (Some extranonce1)
                        (Some ''SV1'') now)
                     (Shared (\<lambda>now sh. sh\<lparr>sh_registry := AList.update worker handle (sh_registry sh)\<rparr>)
                       Return))))))"
    unfolding Let_def
    by (rule safe_LockedI) (simp add: sec safe_Metric safe.Shared safe.Return)
  then show ?thesis
    by (auto simp: on_authorize_def Let_def intro!: safe_Tell safe.Return)
qed

lemma on_ping_safe: "v1_safe J cfg s (on_ping request)"
  by (auto simp: on_ping_def Let_def split: option.split
    intro!: safe.Load safe.Send safe.Return safe_Metric)

lemma on_configure_safe: "v1_safe J cfg s (on_configure request)"
proof -
  have mask_in: "(a AND m AND b) AND NOT m = 0" for a m b :: u32
    by (rule bit_word_eqI) (simp add: bit_and_iff bit_not_iff)
  have "configured_mask_of opts job AND NOT 0x1fffe000 = 0" for opts job
    unfolding configured_mask_of_def Let_def ALLOWED_MASK_def by (rule mask_in)
  then have "v1_section J cfg t (let guard = t\<lparr>v1_version_rolling_enabled := req\<rparr>;
      guard = (if req then guard\<lparr>v1_version_mask := configured_mask_of opts job\<rparr> else guard)
    in (guard, Tell (reply i r e) Return))" if "session_ok J cfg t" for t req opts job i r e
    using that by (auto simp: Let_def section_ok_def session_ok_def session_rel_def answer_safe)
  then show ?thesis
    unfolding on_configure_def Let_def by (auto intro!: safe.Read safe_LockedI)
qed

lemma suggested_range:
  assumes "difficulty_ok cfg"
  obtains d where "suggested_initial_difficulty suggested (start_difficulty cfg) (min_difficulty cfg)
      (max_difficulty cfg) = Some d"
    and "diff_range cfg d" and "min_difficulty cfg \<le> d \<and> d \<le> max_difficulty cfg"
proof -
  define x where "x = (case suggested of
      Some d \<Rightarrow> if is_finite d \<and> start_difficulty cfg < d then d else start_difficulty cfg
    | None \<Rightarrow> start_difficulty cfg)"
  have le: "min_difficulty cfg \<le> start_difficulty cfg" "start_difficulty cfg \<le> max_difficulty cfg"
    using assms by (simp_all add: difficulty_ok_def)
  then have lohi: "min_difficulty cfg \<le> max_difficulty cfg" by (rule f64_le_trans)
  have "start_difficulty cfg \<noteq> NaN" using le by auto
  then have x: "x \<noteq> NaN" by (auto simp: x_def split: option.split)
  obtain d where d: "fclamp x (min_difficulty cfg) (max_difficulty cfg) = Some d"
    using fclamp_Some [OF lohi] by blast
  note b = fclamp_bounds [OF d x]
  have "max_difficulty cfg \<noteq> NaN" using le by auto
  then have "max_difficulty cfg \<le> fmax (max_difficulty cfg) (fmax (min_difficulty cfg) f64_MIN_POSITIVE)"
    by (rule fmax_ge1)
  with b have "diff_range cfg d" unfolding diff_range_def by (blast intro: f64_le_trans)
  with d b that show thesis by (simp add: suggested_initial_difficulty_def x_def)
qed

lemma handle_suggest_difficulty_safe:
  assumes "difficulty_ok cfg"
  shows "v1_safe J cfg s (handle_suggest_difficulty cfg request)"
proof -
  let ?after = "Tell (reply (rq_id request) (JBool True) JNull) Return"
  obtain d where d: "suggested_initial_difficulty (Option.bind (nth_opt (param_array request) 0) as_f64)
      (start_difficulty cfg) (min_difficulty cfg) (max_difficulty cfg) = Some d" "diff_range cfg d"
    by (rule suggested_range [OF assms])
  have "v1_section J cfg t (let (diff_msg, notify, guard) =
        (if f64_EPSILON < fabs (d - v1_difficulty t) then
           let guard = set_difficulty d t in
           if v1_bootstrap_complete guard then
             (case notify_latest ''suggest_difficulty'' d guard of
                (notify, guard) \<Rightarrow> (build_set_difficulty d, notify, guard))
           else (build_set_difficulty d, None, guard)
         else (build_set_difficulty (v1_difficulty t), None, t))
      in (guard, Tell diff_msg (send_and_note notify ?after)))" (is "v1_section J cfg t ?r")
    if t: "session_ok J cfg t" for t
  proof -
    have fin: "v1_safe J cfg u (Tell (build_set_difficulty e) (send_and_note n ?after))"
      if "diff_range cfg e" "notify_ok cfg u n" for u e n
      using that set_difficulty_msg_ok [OF assms that(1)]
      by (intro safe_Tell send_and_note_safe safe.Return) simp_all
    note sd = set_difficulty_ok [OF assms d(2) t]
    obtain n u where n: "notify_latest ''suggest_difficulty'' d (set_difficulty d t) = (n, u)" by fastforce
    note nl = notify_latest_ok [OF assms d(2) sd [THEN conjunct1] n]
    have rel: "session_rel t u" using sd nl session_rel_trans by blast
    consider (same) "?r = (t, Tell (build_set_difficulty (v1_difficulty t)) (send_and_note None ?after))"
      | (set) "?r = (set_difficulty d t, Tell (build_set_difficulty d) (send_and_note None ?after))"
      | (push) "?r = (u, Tell (build_set_difficulty d) (send_and_note n ?after))"
      using n by (cases "f64_EPSILON < fabs (d - v1_difficulty t)";
        cases "v1_bootstrap_complete (set_difficulty d t)") (simp_all add: Let_def)
    then show ?thesis
    proof cases
      case same
      show ?thesis unfolding same by (rule section_same [OF t]) (rule fin, use t in \<open>simp_all add: session_ok_def\<close>)
    next
      case set
      show ?thesis unfolding set using sd d(2) by (intro section_okI fin) simp_all
    next
      case push
      show ?thesis unfolding push using nl rel d(2) by (intro section_okI fin) simp_all
    qed
  qed
  then show ?thesis
    unfolding handle_suggest_difficulty_def Let_def d(1) option.case by (intro safe_LockedI) auto
qed

subsection \<open>Submissions are safe\<close>

lemma refused_share_safe [intro]: "v1_safe J cfg s p \<Longrightarrow> v1_safe J cfg s (refused_share w d p)"
  by (auto simp: refused_share_def)

lemma submission_task_safe: "v1_safe J cfg s (submission_task b event)"
  by (auto simp: submission_task_def Let_def split: prod.split intro!: safe.SubmitBlock safe_Metric safe.Return)

lemma submit_candidate_safe:
  assumes "\<And>t. v1_safe J cfg t p"
  shows "v1_safe J cfg s (submit_candidate e w r now p)"
  using assms
  by (auto simp: submit_candidate_def Let_def split: option.split
    intro!: safe.Load safe_Metric safe.Spawn submission_task_safe)

lemma finish_share_section:
  assumes X: "libm_ok X" and cfg: "difficulty_ok cfg" and t: "session_ok J cfg t"
    and k: "\<And>u msgs n. notify_ok cfg u n \<Longrightarrow> \<forall>m \<in> set msgs. \<forall>v. v1_msg_ok cfg v m \<Longrightarrow> v1_safe J cfg u (k msgs n)"
  shows "v1_section J cfg t (finish_share X lk e acc now k t)"
proof -
  define t1 where "t1 = (if acc
    then t\<lparr>v1_vardiff := vd_record_share (now, sj_difficulty e) (v1_vardiff t)\<rparr> else t)"
  have t1: "session_ok J cfg t1" "session_rel t t1"
    using t vardiff_for_share by (auto simp: t1_def session_ok_def session_rel_def)
  obtain msgs n u where u: "apply_retarget X ''submit_retarget'' now t1 = Some (msgs, n, u)"
    "session_ok J cfg u" "session_rel t1 u" "notify_ok cfg u n" "\<forall>m \<in> set msgs. \<forall>v. v1_msg_ok cfg v m"
    by (rule apply_retarget_ok [OF X cfg t1(1)])
  have "finish_share X lk e acc now k t =
      (if sl_vardiff_enabled lk \<and> v1_bootstrap_complete t1 then (u, k msgs n) else (t1, k [] None))"
    by (simp add: finish_share_def t1_def [symmetric] u(1))
  moreover have "session_rel t u" using t1(2) u(3) by (rule session_rel_trans)
  ultimately show ?thesis using t1 u k by (auto intro!: section_okI)
qed

lemma check_share_safe:
  assumes "libm_ok X" and "difficulty_ok cfg"
  shows "v1_safe J cfg s (check_share X i lk e w submit)"
proof -
  have "v1_safe J cfg u (Metric f (tell_all msgs (send_and_note n Return)))"
    if "notify_ok cfg u n" "\<forall>m \<in> set msgs. \<forall>v. v1_msg_ok cfg v m" for u msgs n f
    using that by (intro safe_Metric safe_tell_all send_and_note_safe safe.Return) auto
  then have "v1_safe J cfg t (Locked (\<lambda>_. finish_share X lk e acc now (\<lambda>msgs n. Metric f (tell_all msgs (send_and_note n Return)))))"
    for t acc now f
    by (intro safe_LockedI finish_share_section [OF assms]) auto
  then show ?thesis
    unfolding check_share_def Let_def
    by (intro safe.Read) (auto split: sum.split intro!: safe.Read safe_Tell safe.Return submit_candidate_safe)
qed

lemma submit_share_safe:
  assumes "libm_ok X" and "difficulty_ok cfg" and "\<not> debug_assertions X"
  shows "v1_safe J cfg s (submit_share X i f lk e)"
proof -
  have "v1_section J cfg t (case remember_submission k t of (is_new, guard) \<Rightarrow> (guard,
      if \<not> is_new then Count inc_duplicate_share (Tell (refuse i 22 ''Duplicate share'') (refused_share w d Return))
      else check_share X i lk e w submit))" if "session_ok J cfg t" for t k w d submit
    using remember_submission_session_ok [OF that, of k]
    by (auto split: prod.split intro!: section_okI safe_Count safe_Tell safe.Return check_share_safe assms(1,2))
  note sec = this
  obtain version outside where rv: "roll_version e (sf_version f) = (version, outside)" by fastforce
  have no_assert: "\<not> (debug_assertions X \<and> b)" for b using assms(3) by simp
  show ?thesis
  proof (cases outside)
    case True
    then show ?thesis
      by (auto simp: submit_share_def rv Let_def assms(3) intro!: safe_Count safe_Tell safe.Return)
  next
    case False
    show ?thesis
      unfolding submit_share_def Let_def rv prod.case if_not_P [OF False] if_not_P [OF no_assert]
      by (rule safe_LockedI) (rule sec)
  qed
qed

lemma handle_submit_safe:
  assumes "libm_ok X" and "difficulty_ok cfg" and "\<not> debug_assertions X"
  shows "v1_safe J cfg s (handle_submit X cfg' request)"
proof -
  have "v1_safe J cfg t (if c then Tell (refuse i 24 ''Unauthorized'') Return
      else case j of None \<Rightarrow> Tell (refuse i 21 ''Stale share'') (if b then Metric f Return else Return)
        | Some e \<Rightarrow> submit_share X i g lk e)" for t c i j b f g lk
    by (auto split: option.split intro!: safe_Tell safe.Return submit_share_safe assms)
  then show ?thesis
    unfolding handle_submit_def Let_def
    by (auto split: sum.split intro!: safe_Tell safe.Return safe_LockedI section_same)
qed

subsection \<open>Every interleaving of a session\<close>

lemma handle_request_safe:
  assumes "libm_ok X" and "difficulty_ok cfg" and "\<not> debug_assertions X"
  shows "v1_safe J cfg s (handle_request X cfg handle en1 request)"
  by (simp add: handle_request_def Let_def on_unsupported_def on_subscribe_safe on_authorize_safe [OF assms(2)]
    on_ping_safe on_configure_safe handle_suggest_difficulty_safe [OF assms(2)] handle_submit_safe [OF assms]
    answer_safe)

lemma close_session_safe: "v1_safe J cfg s close_session"
  by (auto simp: close_session_def intro!: safe.Load safe.Shared safe.Return)

lemma v1_starts_safe:
  assumes "libm_ok X" and "difficulty_ok cfg" and "\<not> debug_assertions X" and "v1_starts X cfg parse handle en1 i p"
  shows "v1_safe J cfg s p"
  using assms(4)
proof (cases rule: v1_starts.cases)
  case (line res buf)
  then show ?thesis
    by (auto simp: read_turn_def Let_def handle_request_safe [OF assms(1-3)] safe.Return
      split: option.splits sum.splits limited_line_read.splits if_splits)
qed (simp_all add: close_session_safe notify_turn_safe vardiff_tick_safe assms)

definition v1_open ::
  "externs \<Rightarrow> config \<Rightarrow> bytes \<Rightarrow> instant \<Rightarrow> instant \<Rightarrow> instant \<Rightarrow> shared \<Rightarrow> (session, out_msg) conn" where
  "v1_open X cfg en1 t1 t2 t3 sh =
     \<lparr>cn_session = session_open X cfg en1 t1 t2 t3, cn_shared = sh, cn_sent = [],
      cn_taken = 0, cn_capacity = Some CHANNEL_CAPACITY, cn_closed = False\<rparr>"

lemma v1_open_ok:
  assumes "difficulty_ok cfg"
  shows "v1.conn_ok J cfg E (v1_open X cfg en1 t1 t2 t3 sh, v1_tasks)"
  using session_new_ok [OF assms]
  by (auto simp: v1.conn_ok_def v1_open_def session_open_def v1_tasks_def intro: safe.Return)

lemma v1_reachable_ok:
  assumes "libm_ok X" and "difficulty_ok cfg" and "\<not> debug_assertions X"
    and "(task_step (v1_env J) (v1_starts X cfg parse handle hex))\<^sup>*\<^sup>*
      (v1_open X cfg en1 t1 t2 t3 sh, v1_tasks) (c, ts)"
  shows "session_ok J cfg (cn_session c)" and "Panic \<notin> set ts"
    and "m \<in> set (cn_sent c) \<Longrightarrow> v1_msg_ok cfg (cn_session c) m"
    and "v1_extranonce1_bytes (cn_session c) = en1"
    and "cn_taken c \<le> length (cn_sent c) \<and> length (cn_sent c) \<le> cn_taken c + CHANNEL_CAPACITY"
proof -
  have "v1.conn_ok J cfg (v1_env J) (c, ts) \<and>
    session_rel (cn_session (fst (v1_open X cfg en1 t1 t2 t3 sh, v1_tasks))) (cn_session (fst (c, ts)))"
    using v1.task_steps_ok [OF v1_open_ok [OF assms(2)] assms(4)] v1_starts_safe [OF assms(1-3)] by blast
  then show "session_ok J cfg (cn_session c)" "Panic \<notin> set ts"
    "m \<in> set (cn_sent c) \<Longrightarrow> v1_msg_ok cfg (cn_session c) m" "v1_extranonce1_bytes (cn_session c) = en1"
    using v1.no_panic [of J cfg "v1_env J" "(c, ts)"]
    by (auto simp: v1.conn_ok_def session_rel_def v1_open_def session_open_def session_new_def)
  show "cn_taken c \<le> length (cn_sent c) \<and> length (cn_sent c) \<le> cn_taken c + CHANNEL_CAPACITY"
    using task_steps_channel [OF assms(4)] by (simp add: channel_ok_def v1_open_def)
qed

subsection \<open>One reply per request\<close>

definition is_reply :: "out_msg \<Rightarrow> bool" where
  "is_reply m \<longleftrightarrow> (\<exists>i r e. m = reply i r e)"

lemma is_reply_simps [simp]:
  "is_reply (reply i r e)" "is_reply (refuse i c t)" "is_reply (share_ack i b)"
  "\<not> is_reply (build_set_difficulty d)" "\<not> is_reply (build_set_version_mask w)" "\<not> is_reply (Text t)"
  by (auto simp: is_reply_def refuse_def share_ack_def reply_def build_set_difficulty_def build_set_version_mask_def)

lemmas once_intros = sends_once.intros(2-4,7-9) sends_once_derived

text \<open>A notification is at most two messages, none of them a reply.\<close>

definition plain_notify :: "(notify_dispatch \<times> notify_post_send) option \<Rightarrow> bool" where
  "plain_notify n \<longleftrightarrow>
     (\<forall>d p. n = Some (d, p) \<longrightarrow> length (nd_messages d) \<le> 2 \<and> (\<forall>m \<in> set (nd_messages d). \<not> is_reply m))"

lemma plain_notify_simps [simp]:
  "plain_notify None" "plain_notify (Some (build_notify_dispatch w d e c tr, p))"
  by (auto simp: plain_notify_def build_notify_dispatch_def)

lemma notify_latest_plain: "notify_latest tr d s = (n, t) \<Longrightarrow> plain_notify n"
  by (auto simp: notify_latest_def Let_def split: if_splits prod.splits)

lemma apply_retarget_plain:
  assumes "apply_retarget X tr now s = Some (msgs, n, t)"
  shows "plain_notify n" and "length msgs \<le> 1" and "\<forall>m \<in> set msgs. \<not> is_reply m"
  using assms
  by (auto simp: apply_retarget_def Let_def bind_eq_Some_conv dest: notify_latest_plain
    split: option.splits prod.splits)

lemma note_sent_none: "sends_none is_reply p \<Longrightarrow> sends_none is_reply (note_sent ps p)"
  by (auto simp: note_sent_def intro: sends_none.intros)

lemma send_notify_none:
  "plain_notify (Some (d, ps)) \<Longrightarrow> (\<And>r. sends_none is_reply (k r)) \<Longrightarrow> sends_none is_reply (send_notify d k)"
  by (auto simp: send_notify_def plain_notify_def intro!: sends_none_send_all)

lemma send_and_note_none:
  "plain_notify n \<Longrightarrow> sends_none is_reply p \<Longrightarrow> sends_none is_reply (send_and_note n p)"
  by (auto simp: send_and_note_def split: option.split intro!: send_notify_none note_sent_none)

lemma send_and_note_once:
  "plain_notify n \<Longrightarrow> sends_once is_reply p \<Longrightarrow> sends_once is_reply (send_and_note n p)"
  by (auto simp: send_and_note_def send_notify_def plain_notify_def note_sent_def split: option.split
    intro!: sends_once_send_all once_intros)

lemma finish_share_none:
  assumes "\<And>msgs n. plain_notify n \<Longrightarrow> \<forall>m \<in> set msgs. \<not> is_reply m \<Longrightarrow> sends_none is_reply (k msgs n)"
  shows "sends_none is_reply (snd (finish_share X lk e acc now k s))"
  using assms apply_retarget_plain
  by (auto simp: finish_share_def Let_def split: option.split prod.split intro: sends_none.intros)

lemma submit_candidate_none:
  "sends_none is_reply p \<Longrightarrow> sends_none is_reply (submit_candidate e w r now p)"
  by (auto simp: submit_candidate_def Let_def split: option.split intro!: sends_none.intros sends_none_derived)

lemmas none_intros = sends_none.intros sends_none_derived note_sent_none

text \<open>What follows the answer to a valid share.\<close>

lemma after_ack_none:
  "sends_none is_reply (submit_candidate e w r now (Locked (\<lambda>_. finish_share X lk e acc now
     (\<lambda>msgs n. Metric f (tell_all msgs (send_and_note n Return))))))"
  by (intro submit_candidate_none sends_none.intros finish_share_none sends_none_derived
    sends_none_tell_all send_and_note_none) auto

lemma check_share_once: "sends_once is_reply (check_share X i lk e w submit)"
  unfolding check_share_def Let_def
  by (intro sends_once.intros(2))
    (auto split: sum.split intro!: once_intros sends_none.intros(1) after_ack_none)

lemma refused_share_none: "sends_none is_reply p \<Longrightarrow> sends_none is_reply (refused_share w d p)"
  by (auto simp: refused_share_def intro: none_intros)

lemma submit_share_once: "sends_once is_reply (submit_share X i f lk e)"
  by (auto simp: submit_share_def Let_def split: prod.split
    intro!: sends_once.intros(1) once_intros refused_share_none sends_none.intros(1) check_share_once)

lemma handle_submit_once: "sends_once is_reply (handle_submit X cfg request)"
  unfolding handle_submit_def Let_def
  by (auto split: sum.split option.split intro!: once_intros none_intros submit_share_once)

lemma bootstrap_notify_none:
  "sends_none is_reply p \<Longrightarrow> sends_none is_reply (bootstrap_notify w d p)"
  unfolding bootstrap_notify_def Let_def
  by (auto split: prod.split intro!: none_intros send_and_note_none)

lemma handle_request_once: "sends_once is_reply (handle_request X cfg handle en1 request)"
proof -
  have "sends_once is_reply (on_subscribe cfg en1 request)"
    by (auto simp: on_subscribe_def Let_def intro!: once_intros none_intros)
  moreover have "sends_once is_reply (on_authorize cfg handle request)"
    by (auto simp: on_authorize_def Let_def intro!: once_intros none_intros bootstrap_notify_none)
  moreover have "sends_once is_reply (on_ping request)"
    by (auto simp: on_ping_def Let_def split: option.split intro!: once_intros none_intros)
  moreover have "sends_once is_reply (handle_suggest_difficulty cfg request)"
    unfolding handle_suggest_difficulty_def Let_def
    by (auto split: option.split prod.split if_split dest!: notify_latest_plain
      intro!: once_intros sends_once.intros(1) none_intros send_and_note_once)
  moreover have "sends_once is_reply (on_configure request)"
    by (auto simp: on_configure_def Let_def intro!: once_intros none_intros)
  ultimately show ?thesis
    using handle_submit_once
    by (auto simp: handle_request_def Let_def on_unsupported_def intro!: once_intros none_intros)
qed

end
