(* ===== verification/Stratum_Properties.thy ===== *)
theory Stratum_Properties
  imports Stratum
begin

text \<open>
  What the Stratum V1 server promises, on top of the handlers of \<open>Stratum\<close>: when the task of new
  templates stops waiting for an authorization, what an accepted share means, when a block goes to the node, the window of submitted
  shares, the lines it reads and the notifications it writes.
\<close>

subsection \<open>The wait for an authorization\<close>
















subsection \<open>Accepted shares\<close>

lemma reply_true_refuse [simp]: "reply j (JBool True) err \<noteq> refuse i c t" "refuse i c t \<noteq> reply j (JBool True) err"
  by (auto simp: reply_def refuse_def)





lemma submit_share_assertion:
  assumes "debug_assertions X" and "sj_version_mask e \<noteq> sl_version_mask lk AND NOT (jt_vbrequired (sj_job e))"
  shows "submit_share X i f lk e = Panic"
proof -
  obtain version outside where "roll_version e (sf_version f) = (version, outside)" by fastforce
  with assms show ?thesis by (simp add: submit_share_def Let_def)
qed



lemma lookup_submit_cases:
  "sl_authorized (lookup_submit txt now s) \<Longrightarrow> v1_authorized s"
  "sl_session_job (lookup_submit txt now s) = Some e \<Longrightarrow> v1_authorized s \<and> find_job txt s = Some e"
  by (auto simp: lookup_submit_def Let_def split: if_splits option.splits)



subsection \<open>Blocks\<close>

lemma spawns_nothing_finish:
  "spawns_nothing (Locked (\<lambda>_. finish_share X lk e acc now
     (\<lambda>msgs n. Metric f (tell_all msgs (send_and_note n Return)))))"
proof -
  have n: "spawns_nothing (send_and_note n Return)" for n
    by (auto simp: send_and_note_def send_notify_def note_sent_def split: option.split
      intro!: spawns_only_send_all)
  then have "spawns_nothing (tell_all msgs (send_and_note n Return))" for msgs n
    by (rule spawns_only_tell_all)
  with n show ?thesis
    by (intro spawns_only_simps(4)) (auto simp: finish_share_def Let_def split: option.split prod.split)
qed

text \<open>The task that a share starts.\<close>

lemma submit_candidate_spawns:
  assumes t: "task_trace (submit_candidate e w r now p) es" and q: "Spawns q \<in> set es"
    and p: "spawns_nothing p"
  shows "res_is_block r \<and> (\<exists>s. Loads s \<in> set es \<and> \<not> v1_flags s ! sj_flag e) \<and>
    (\<exists>b ev. q = submission_task b ev \<and> res_block_hex r = Some (su_block_hex b) \<and>
      su_block_hash b = res_hash_hex r \<and> su_template_key b = jt_template_key (sj_job e))"
proof -
  note none = spawns_nothingD [OF p]
  have block: "res_is_block r" using t q none by (auto simp: submit_candidate_def split: if_splits)
  define k where "k = (\<lambda>s. if v1_flags s ! sj_flag e then p
    else case res_block_hex r of None \<Rightarrow> p
    | Some h \<Rightarrow> submit_candidate e w r now p)"
  obtain s es1 where es: "es = Loads s # es1" "Spawns q \<in> set es1"
    using t q block by (auto simp: submit_candidate_def trace_simps)
  show ?thesis
  proof (cases "v1_flags s ! sj_flag e \<or> res_block_hex r = None")
    case True
    with t es block none show ?thesis by (auto simp: submit_candidate_def trace_simps split: if_splits)
  next
    case False
    then obtain h where h: "res_block_hex r = Some h" by blast
    from False t es(1) block have "\<exists>m b ev. task_trace (Metric m (Spawn (submission_task b ev) p)) es1 \<and>
        su_block_hex b = h \<and> su_block_hash b = res_hash_hex r \<and> su_template_key b = jt_template_key (sj_job e)"
      by (fastforce simp: submit_candidate_def trace_simps h Let_def)
    then obtain m b ev where sp: "task_trace (Metric m (Spawn (submission_task b ev) p)) es1"
      and b: "su_block_hex b = h" "su_block_hash b = res_hash_hex r" "su_template_key b = jt_template_key (sj_job e)"
      by blast
    have "q = submission_task b ev"
      using sp es(2) none by (auto simp: trace_simps trace_derived_simps)
    with block h b False es(1) show ?thesis by auto
  qed
qed

lemma check_share_spawns:
  assumes t: "task_trace (check_share X i lk e w submit) es" and q: "Spawns q \<in> set es"
  shows "\<exists>secs r b ev s. validate_share X secs (sj_job e) (sj_coinbase_prefix e) submit
      (sj_share_target_le e) (sj_custom_coinbase2_bytes e) = Inr r \<and> res_is_block r \<and>
    Loads s \<in> set es \<and> \<not> v1_flags s ! sj_flag e \<and>
    q = submission_task b ev \<and> res_block_hex r = Some (su_block_hex b) \<and>
    su_block_hash b = res_hash_hex r \<and> su_template_key b = jt_template_key (sj_job e)"
proof -
  obtain rd es1 where es: "es = Reads rd # es1"
    using t q by (auto simp: check_share_def Let_def trace_simps)
  show ?thesis
  proof (cases "validate_share X (rd_secs rd) (sj_job e) (sj_coinbase_prefix e) submit
      (sj_share_target_le e) (sj_custom_coinbase2_bytes e)")
    case (Inl x)
    with t q es show ?thesis by (auto simp: check_share_def Let_def trace_simps trace_derived_simps)
  next
    case (Inr r)
    with t q es obtain rd' b es2 f where es1: "es1 = Reads rd' # Sends (share_ack i (res_accepted r \<or> res_is_block r)) b # es2"
      "Spawns q \<in> set es2"
      and rest: "task_trace (submit_candidate e w r (rd_now rd') (Locked (\<lambda>_. finish_share X lk e
        (res_accepted r \<or> res_is_block r) (rd_now rd')
        (\<lambda>msgs n. Metric f (tell_all msgs (send_and_note n Return)))))) es2"
      by (auto simp: check_share_def Let_def trace_simps trace_derived_simps)
    from submit_candidate_spawns [OF rest es1(2) spawns_nothing_finish] obtain s b' ev
      where "res_is_block r" "Loads s \<in> set es2" "\<not> v1_flags s ! sj_flag e" "q = submission_task b' ev"
        "res_block_hex r = Some (su_block_hex b')" "su_block_hash b' = res_hash_hex r"
        "su_template_key b' = jt_template_key (sj_job e)" by blast
    with Inr es es1(1) show ?thesis
      by (intro exI [of _ "rd_secs rd"] exI [of _ r] exI [of _ b'] exI [of _ ev] exI [of _ s]) simp
  qed
qed

text \<open>A task that a submission starts, and the block share behind it.\<close>

definition block_submission ::
  "externs \<Rightarrow> submit_fields \<Rightarrow> session_job \<Rightarrow> share_result \<Rightarrow> submission \<Rightarrow> (session, out_msg) happened list \<Rightarrow> bool" where
  "block_submission X f e r b es \<longleftrightarrow>
     (\<exists>version secs. roll_version e (sf_version f) = (version, False) \<and>
        validate_share X secs (sj_job e) (sj_coinbase_prefix e)
          \<lparr>sub_extranonce2 = sf_extranonce2 f, sub_ntime = sf_ntime f, sub_nonce = sf_nonce f, sub_version = version\<rparr>
          (sj_share_target_le e) (sj_custom_coinbase2_bytes e) = Inr r) \<and>
     res_is_block r \<and>
     (\<exists>s. Loads s \<in> set es \<and> \<not> v1_flags s ! sj_flag e) \<and>
     res_block_hex r = Some (su_block_hex b) \<and> su_block_hash b = res_hash_hex r \<and>
     su_template_key b = jt_template_key (sj_job e)"

lemma refused_share_spawns: "spawns_nothing (refused_share w d Return)"
  by (simp add: refused_share_def)

lemma submit_share_spawns:
  assumes t: "task_trace (submit_share X i f lk e) es" and q: "Spawns q \<in> set es"
  shows "\<exists>r b ev. q = submission_task b ev \<and> block_submission X f e r b es"
proof -
  note none = spawns_nothingD [OF refused_share_spawns]
  obtain version outside where v: "roll_version e (sf_version f) = (version, outside)" by fastforce
  have no_assert: "\<not> (debug_assertions X \<and>
      sj_version_mask e \<noteq> sl_version_mask lk AND NOT (jt_vbrequired (sj_job e)))"
  proof (rule ccontr)
    assume "\<not> ?thesis"
    then have "submit_share X i f lk e = Panic" by (intro submit_share_assertion) simp_all
    with t q show False by (simp add: trace_simps)
  qed
  note t = t [unfolded submit_share_def Let_def v prod.case if_not_P [OF no_assert]]
  show ?thesis
  proof (cases outside)
    case True
    with t q none show ?thesis
      by (auto simp: Count_def trace_simps trace_derived_simps)
  next
    case False
    with t q obtain l es1 new w where es: "es = l # es1" "Spawns q \<in> set es1"
      and t1: "task_trace (if \<not> new then
          Count inc_duplicate_share (Tell (refuse i 22 ''Duplicate share'') (refused_share w (sj_difficulty e) Return))
        else check_share X i lk e w
          \<lparr>sub_extranonce2 = sf_extranonce2 f, sub_ntime = sf_ntime f, sub_nonce = sf_nonce f,
           sub_version = version\<rparr>) es1"
      by (auto simp: trace_simps split_beta)
    have "new" using t1 es(2) none by (auto simp: Count_def trace_derived_simps split: if_splits)
    with t1 have "task_trace (check_share X i lk e w
          \<lparr>sub_extranonce2 = sf_extranonce2 f, sub_ntime = sf_ntime f, sub_nonce = sf_nonce f,
           sub_version = version\<rparr>) es1" by simp
    from check_share_spawns [OF this es(2)] v False es(1) show ?thesis
      unfolding block_submission_def by fastforce
  qed
qed

lemma handle_submit_spawns:
  assumes t: "task_trace (handle_submit X cfg request) es" and q: "Spawns q \<in> set es"
  shows "\<exists>f rd s e r b ev. parse_submit cfg (param_array request) = Inr f \<and> Locks rd s s \<in> set es \<and>
    find_job (sf_job_id f) s = Some e \<and> q = submission_task b ev \<and> block_submission X f e r b es"
proof -
  obtain f where f: "parse_submit cfg (param_array request) = Inr f"
    using t q by (cases "parse_submit cfg (param_array request)")
      (auto simp: handle_submit_def Let_def trace_derived_simps trace_simps)
  obtain rd s es1 where es: "es = Locks rd s s # es1" "Spawns q \<in> set es1"
    and t1: "task_trace (let lk = lookup_submit (sf_job_id f) (rd_now rd) s in
          if \<not> sl_authorized lk then Tell (refuse (rq_id request) 24 ''Unauthorized'') Return
           else case sl_session_job lk of
             None \<Rightarrow> Tell (refuse (rq_id request) 21 ''Stale share'')
               (if sl_worker lk \<noteq> []
                then Metric (record_stale (sl_worker lk) (unwrap_or Expired (sl_stale_reason lk))) Return
                else Return)
           | Some session_job \<Rightarrow> submit_share X (rq_id request) f lk session_job) es1"
    using t q f by (auto simp: handle_submit_def Let_def trace_simps)
  let ?lk = "lookup_submit (sf_job_id f) (rd_now rd) s"
  have "sl_authorized ?lk \<and> (\<exists>e. sl_session_job ?lk = Some e)"
    using t1 es(2) by (auto simp: Let_def trace_simps trace_derived_simps split: if_splits option.splits)
  then obtain e where lk: "sl_authorized ?lk" "sl_session_job ?lk = Some e" by blast
  with t1 have "task_trace (submit_share X (rq_id request) f ?lk e) es1" by (simp add: Let_def)
  from submit_share_spawns [OF this es(2)] obtain r b ev
    where "q = submission_task b ev" "block_submission X f e r b es1" by blast
  moreover from this(2) es(1) have "block_submission X f e r b es" by (auto simp: block_submission_def)
  ultimately show ?thesis using f es(1) lookup_submit_cases(2) [OF lk(2)]
    by (intro exI [of _ f] exI [of _ rd] exI [of _ s] exI [of _ e] exI [of _ r] exI [of _ b] exI [of _ ev]) simp
qed

subsection \<open>Samples\<close>

definition sample_session :: session where
  "sample_session = session_open ref_externs sample_config [9, 9, 9, 9] 0 0 0"

definition sample_reading :: reading where
  "sample_reading = \<lparr>rd_now = 0, rd_secs = 0, rd_ms = 0, rd_elapsed_us = 0,
     rd_current = empty_template 0, rd_watch = empty_template 0, rd_closed = False, rd_order = [], rd_random = (\<lambda>_. 9)\<rparr>"




definition submit_sample :: submit_fields where
  "submit_sample = \<lparr>sf_worker = ''w'', sf_job_id = ''00000001'', sf_extranonce2 = ''01020304'',
     sf_ntime = ''00000001'', sf_nonce = ''0000002a'', sf_version = None\<rparr>"

lemma sample_normalize: "normalize_session_job_id ''00000001'' = Some ''00000001''"
proof -
  have "format_session_job_id 1 = ''00000001''" by code_simp
  with normalize_format_session_job_id [of 1] show ?thesis by simp
qed





subsection \<open>Properties\<close>



text \<open>C38 (\<open>handle_client\<close>): a request whose handler runs to its end is answered exactly once,
  whatever the other tasks do meanwhile; difficulties, masks and notifications are not answers.\<close>

theorem one_reply_per_request:
  assumes "task_done (handle_request X cfg handle en1 request) es"
  shows "length (filter is_reply (messages es)) = 1"
  by (rule sends_once_messages [OF assms handle_request_once])

theorem one_reply_per_request_witness:
  "length (filter is_reply (messages [Loads sample_session,
     Sends (reply None (JBool True) JNull) True])) = 1"
proof (rule one_reply_per_request [of ref_externs sample_config 0 "[]"
      "\<lparr>rq_id = None, rq_method = ''mining.ping'', rq_params = JArr []\<rparr>"])
  show "task_done (handle_request ref_externs sample_config 0 []
      \<lparr>rq_id = None, rq_method = ''mining.ping'', rq_params = JArr []\<rparr>)
    [Loads sample_session, Sends (reply None (JBool True) JNull) True]"
    unfolding handle_request_def on_ping_def
    by (simp add: Let_def sample_session_def session_open_def session_new_def task_done.intros)
qed

text \<open>C21 (\<open>handle_submit\<close>, the duplicate check): for every sequence of shares the set and the
  queue of the session answer as the specification that keeps all accepted keys and refuses those
  among the last 4096, from any session in order, in particular from a new one.\<close>

theorem duplicate_check_refines_window:
  assumes "submissions_ok s" and "v1_submitted_hashes_order s = last_n MAX_DUP_HASHES h"
  shows "fst (offer_all remember_submission ks s) = fst (offer_all (window_offer MAX_DUP_HASHES) ks h) \<and>
    v1_submitted_hashes_order (snd (offer_all remember_submission ks s)) =
      last_n MAX_DUP_HASHES (snd (offer_all (window_offer MAX_DUP_HASHES) ks h))"
  by (rule v1_window.refines_window [OF assms])

theorem duplicate_check_refines_window_witness:
  "fst (offer_all remember_submission [(1, 2, 3, [], 0, 4), (1, 2, 4, [], 0, 4), (1, 2, 3, [], 0, 4)] sample_session)
     = [True, True, False]"
proof -
  have "submissions_ok sample_session" "v1_submitted_hashes_order sample_session = []"
    by (simp_all add: sample_session_def session_open_def session_new_def submissions_ok_def)
  then have "fst (offer_all remember_submission ks sample_session) =
      fst (offer_all (window_offer MAX_DUP_HASHES) ks [])" for ks
    using duplicate_check_refines_window [of sample_session "[]" ks] by simp
  then show ?thesis
    by (simp only:) (simp add: window_offer_def last_n_def MAX_DUP_HASHES_def)
qed

text \<open>C39 (\<open>read_limited_line\<close>): what the reader returns depends on the bytes of the stream, not on
  the chunks in which they arrive: the first line with its newline, or all bytes when there is
  none, when that is no longer than the limit (and the bytes behind it stay in the stream), and
  \<open>TooLong\<close> otherwise; it never keeps more bytes than the limit.\<close>

theorem line_of_stream:
  assumes "clean_stream s"
  shows "case line_spec max_bytes (stream_bytes s) of
      Some (line, rest) \<Rightarrow> \<exists>s'. clean_stream s' \<and> stream_bytes s' = rest \<and>
        read_limited_line max_bytes s = (Inr (if line = [] then Eof else Line (length line)), line, s')
    | None \<Rightarrow> \<exists>n out s'. max_bytes < n \<and> length out \<le> max_bytes \<and> clean_stream s' \<and>
        read_limited_line max_bytes s = (Inr (TooLong n), out, s')"
  using read_chunks_spec [of "[]" max_bytes s] assms unfolding read_limited_line_def by simp

theorem line_of_stream_witness:
  "\<exists>s'. stream_bytes s' = [9] \<and>
    read_limited_line 4 [Inr [1, 2], Inr [10, 9]] = (Inr (Line 3), [1, 2, 10], s')"
  using line_of_stream [of "[Inr [1, 2], Inr [10, 9]]" 4]
  by (auto simp: line_spec_def NEWLINE_def Let_def)

text \<open>C40 (\<open>push_job\<close>, \<open>find_job\<close>, \<open>mark_jobs_stale_block\<close>): a session keeps its last 32 jobs, under
  identifiers that differ; a share finds exactly the job that was pushed under the identifier it
  names, and none after a new block has marked the jobs.\<close>

theorem job_lookup:
  assumes "difficulty_ok cfg" and "diff_range cfg d" and "J job" and "v1_authorized s"
    and "session_ok J cfg s"
    and "push_job job d (v1_extranonce1_bytes s) ntime s = (e, t)"
  shows "session_ok J cfg t \<and> sj_job e = job \<and> v1_jobs t = last_n 32 (v1_jobs s @ [e]) \<and>
    find_job (sj_session_job_id e) t = Some e \<and>
    (\<forall>jid x. find_job jid t = Some x \<longleftrightarrow>
       x \<in> set (v1_jobs t) \<and> normalize_session_job_id jid = Some (sj_session_job_id x)) \<and>
    (\<forall>jid. find_job jid (mark_jobs_stale_block t) = None)"
proof -
  note e = push_job_entry [OF assms]
  have q: "queue_ok t" using e(1) by (simp add: session_ok_def)
  have in_t: "e \<in> set (v1_jobs t)" by (simp add: e(6) last_n_snoc)
  have "find_job jid t = Some x \<longleftrightarrow>
      x \<in> set (v1_jobs t) \<and> normalize_session_job_id jid = Some (sj_session_job_id x)" for jid x
  proof
    assume "find_job jid t = Some x"
    then show "x \<in> set (v1_jobs t) \<and> normalize_session_job_id jid = Some (sj_session_job_id x)"
      using find_job_Some by blast
  next
    assume x: "x \<in> set (v1_jobs t) \<and> normalize_session_job_id jid = Some (sj_session_job_id x)"
    have "find_job jid t = find_job (sj_session_job_id x) t"
      using x normalize_session_job_id_idem [of jid] by (simp add: find_job_def)
    with find_job_complete [OF q] x show "find_job jid t = Some x" by simp
  qed
  moreover have "find_job jid (mark_jobs_stale_block t) = None" for jid
    using mark_jobs_stale_block_jobs [OF q] by (cases "normalize_session_job_id jid") (simp_all add: find_job_def)
  ultimately show ?thesis using e(1,4,6) find_job_complete [OF q in_t] by blast
qed

lemma sample_difficulty_ok: "difficulty_ok sample_config"
  using validate_ok [OF sample_valid] by (simp add: config_ok_def)

lemma sample_session_ok: "session_ok J sample_config (begin_authorized_session sample_session)"
  using session_new_ok [OF sample_difficulty_ok] begin_authorized_session_ok
  by (auto simp: sample_session_def session_open_def)

theorem job_lookup_witness:
  "\<exists>e t. push_job easy_job (Fin 16384) [9, 9, 9, 9] None (begin_authorized_session sample_session) = (e, t) \<and>
     sj_job e = easy_job \<and> find_job (sj_session_job_id e) t = Some e"
proof -
  obtain e t where p: "push_job easy_job (Fin 16384) [9, 9, 9, 9] None (begin_authorized_session sample_session) = (e, t)"
    by fastforce
  have en1: "v1_extranonce1_bytes (begin_authorized_session sample_session) = [9, 9, 9, 9]"
    by (simp add: begin_authorized_session_def sample_session_def session_open_def session_new_def)
  have "diff_range sample_config (Fin 16384)" using start_diff_range [OF sample_difficulty_ok] by simp
  moreover have "v1_authorized (begin_authorized_session sample_session)" by (simp add: begin_authorized_session_def)
  ultimately show ?thesis
    using job_lookup [OF sample_difficulty_ok _ TrueI _ sample_session_ok [of "\<lambda>_. True"] p [folded en1]] p by auto
qed

text \<open>C5 (\<open>handle_client\<close>): whatever a client sends and however the reader, the task of new
  templates, the retargeting task and the block submissions of a session interleave, the session
  stays in order, in a build without debug assertions (the release profile) no task panics,
  notifications and masks go out only after an authorization, announced difficulties are in the
  configured range, at most 64 messages wait for the writer, and the extranonce never changes. With
  debug assertions the one of \<open>handle_submit\<close> can fail (\<open>debug_build_share_panics\<close>).\<close>

theorem session_interleavings:
  assumes "libm_ok X" and "difficulty_ok cfg" and "\<not> debug_assertions X"
    and "(task_step (v1_env J) (v1_starts X cfg parse handle en1_hex))\<^sup>*\<^sup>*
      (v1_open X cfg en1 t1 t2 t3 sh, v1_tasks) (c, ts)"
  shows "session_ok J cfg (cn_session c) \<and> Panic \<notin> set ts \<and>
    (\<forall>m \<in> set (cn_sent c). v1_msg_ok cfg (cn_session c) m) \<and> v1_extranonce1_bytes (cn_session c) = en1 \<and>
    length (cn_sent c) \<le> cn_taken c + 64"
  using v1_reachable_ok [OF assms] by (auto simp: CHANNEL_CAPACITY_def)

definition auth_request :: stratum_request where
  "auth_request = \<lparr>rq_id = Some (JInt 2), rq_method = ''mining.authorize'', rq_params = JArr []\<rparr>"

lemma Tell_inject [simp]: "Tell m p = Tell m' p' \<longleftrightarrow> m = m' \<and> p = p'"
  by (auto simp: Tell_def dest: fun_cong)

lemma head_section:
  assumes "\<not> cn_closed c" and "has_room c" and "has_room (c\<lparr>cn_sent := cn_sent c @ [m]\<rparr>)"
    and "E rd" and "f rd (cn_session c) = (t, Tell m' p)"
  shows "(task_step E starts)\<^sup>*\<^sup>* (c, Tell m (Locked f) # ts)
    (c\<lparr>cn_session := t, cn_sent := cn_sent c @ [m, m']\<rparr>, p # ts)"
proof -
  let ?c = "c\<lparr>cn_sent := cn_sent c @ [m]\<rparr>"
  have "(task_step E starts)\<^sup>*\<^sup>* (?c, Locked f # ts) (?c\<lparr>cn_session := t\<rparr>, Tell m' p # ts)"
    by (rule head_locked [of E rd]) (use assms in simp_all)
  moreover have "(task_step E starts)\<^sup>*\<^sup>* (c, Tell m (Locked f) # ts) (?c, Locked f # ts)"
    by (rule head_tell) (use assms in simp_all)
  moreover have "(task_step E starts)\<^sup>*\<^sup>* (?c\<lparr>cn_session := t\<rparr>, Tell m' p # ts)
      (c\<lparr>cn_session := t, cn_sent := cn_sent c @ [m, m']\<rparr>, p # ts)"
  proof -
    have "has_room (?c\<lparr>cn_session := t\<rparr>)" using assms(3) by (auto simp: has_room_def split: option.splits)
    from head_tell [OF _ this, of E starts m' p ts] assms(1) show ?thesis by simp
  qed
  ultimately show ?thesis by (meson rtranclp_trans)
qed

lemma sample_starts:
  "v1_starts X cfg (\<lambda>_. Some request) handle en1 0 (handle_request X cfg handle en1 request)"
proof (rule v1_starts.line [of X cfg _ handle en1 "Some (Inr (Line 1))" "[0x41]"])
  have "char_of (65 :: nat) = CHR ''A''" by code_simp
  then show "read_turn X cfg (\<lambda>_. Some request) handle en1 (Some (Inr (Line 1))) [0x41] =
      Some (handle_request X cfg handle en1 request)"
    by (simp add: read_turn_def from_utf8_def trim_end_crlf_def)
qed

theorem session_interleavings_witness:
  "\<forall>sh. \<exists>c ts. (task_step (v1_env (\<lambda>_. True)) (v1_starts ref_externs sample_config (\<lambda>_. Some auth_request) 0 ''09090909''))\<^sup>*\<^sup>*
      (v1_open ref_externs sample_config [9, 9, 9, 9] 0 0 0 sh,
        v1_tasks) (c, ts) \<and>
    v1_authorized (cn_session c) \<and> build_set_difficulty (Fin 16384) \<in> set (cn_sent c) \<and>
    session_ok (\<lambda>_. True) sample_config (cn_session c)"
proof
  fix sh
  let ?step = "task_step (v1_env (\<lambda>_. True)) (v1_starts ref_externs sample_config (\<lambda>_. Some auth_request) 0 ''09090909'')"
  let ?c = "v1_open ref_externs sample_config [9, 9, 9, 9] 0 0 0 sh"
  have env: "v1_env (\<lambda>_. True) sample_reading" by (simp add: v1_env_def)
  have "handle_authorize sample_config auth_request"
    by (simp add: handle_authorize_def sample_config_def build_config_def sample_file_def
      file_config_default_def stratum_section_default_def normalize_opt_def)
  then have "\<exists>f. handle_request ref_externs sample_config 0 ''09090909'' auth_request =
      Tell (reply (Some (JInt 2)) (JBool True) JNull) (Locked f) \<and>
    (\<forall>s. \<exists>t p. f sample_reading s = (t, Tell (build_set_difficulty (v1_difficulty s)) p) \<and> v1_authorized t)"
    by (simp add: handle_request_def on_authorize_def auth_request_def Let_def begin_authorized_session_def)
  then obtain f where req: "handle_request ref_externs sample_config 0 ''09090909'' auth_request =
      Tell (reply (Some (JInt 2)) (JBool True) JNull) (Locked f)"
    and f: "\<And>s. \<exists>t p. f sample_reading s = (t, Tell (build_set_difficulty (v1_difficulty s)) p) \<and> v1_authorized t"
    by blast
  obtain c1 where r1: "?step\<^sup>*\<^sup>* (?c, v1_tasks) (c1, [Return, Return, Return])" "cn_session c1 = cn_session ?c"
    "cn_sent c1 = []" "\<not> cn_closed c1" "cn_capacity c1 = Some 64" "cn_taken c1 = 0"
    by (rule that [unfolded v1_tasks_def, OF head_count]) (simp_all add: v1_open_def CHANNEL_CAPACITY_def)
  obtain t p where t: "f sample_reading (cn_session c1) = (t, Tell (build_set_difficulty (v1_difficulty (cn_session c1))) p)"
    "v1_authorized t" using f by blast
  have r2: "?step\<^sup>*\<^sup>* (c1, [Return, Return, Return])
      (c1, [handle_request ref_externs sample_config 0 ''09090909'' auth_request, Return, Return])"
    by (rule head_event) (rule sample_starts)
  have r3: "?step\<^sup>*\<^sup>* (c1, [handle_request ref_externs sample_config 0 ''09090909'' auth_request, Return, Return])
      (c1\<lparr>cn_session := t, cn_sent := cn_sent c1 @
      [reply (Some (JInt 2)) (JBool True) JNull, build_set_difficulty (v1_difficulty (cn_session c1))]\<rparr>,
    [p, Return, Return])"
    unfolding req
    by (rule head_section [of c1 _ "v1_env (\<lambda>_. True)" sample_reading f, OF _ _ _ env t(1)])
      (simp_all add: has_room_def r1)
  note run = rtranclp_trans [OF rtranclp_trans [OF r1(1) r2] r3]
  have "v1_difficulty (cn_session c1) = Fin 16384"
    by (simp add: r1(2) v1_open_def session_open_def session_new_def)
  with session_interleavings [OF ref_libm_ok sample_difficulty_ok _ run] run t(2)
  show "\<exists>c ts. ?step\<^sup>*\<^sup>* (?c, v1_tasks) (c, ts) \<and>
    v1_authorized (cn_session c) \<and> build_set_difficulty (Fin 16384) \<in> set (cn_sent c) \<and>
    session_ok (\<lambda>_. True) sample_config (cn_session c)" by (intro exI conjI) (auto simp: r1(3))
qed



subsection \<open>The assertions of debug builds\<close>

text \<open>
  The assertion of \<open>handle_submit\<close> compares the mask of the share's job with the mask that the
  session has when the share arrives. A \<open>mining.configure\<close> between the job and the share changes
  the second and not the first, and the share then panics where assertions are checked. The release
  profile has no such assertion, and uses the mask of the job.
\<close>

lemma configure_keeps_job_mask:
  assumes "push_job job d en1 ntime s = (e, t)" and "u = t\<lparr>v1_version_rolling_enabled := b, v1_version_mask := w\<rparr>"
    and "w AND NOT (jt_vbrequired job) \<noteq> v1_version_mask s AND NOT (jt_vbrequired job)"
  shows "find_job jid u = find_job jid t \<and>
    sj_version_mask e \<noteq> v1_version_mask u AND NOT (jt_vbrequired (sj_job e))"
proof -
  have "v1_version_mask (set_difficulty d x) = v1_version_mask x" for x
    by (simp add: set_difficulty_def split: sum.split)
  then show ?thesis
    using assms by (auto simp: push_job_def alloc_session_job_id_def find_job_def Let_def split: if_splits)
qed

lemma debug_build_share_panics:
  assumes "debug_assertions X" and "E rd" and "parse_submit cfg (param_array request) = Inr f"
    and "v1_authorized (cn_session c)" and "find_job (sf_job_id f) (cn_session c) = Some e"
    and "sj_version_mask e \<noteq> v1_version_mask (cn_session c) AND NOT (jt_vbrequired (sj_job e))"
  shows "act E c (handle_submit X cfg request) c Panic []"
proof -
  let ?lk = "lookup_submit (sf_job_id f) (rd_now rd) (cn_session c)"
  have lk: "sl_authorized ?lk" "sl_session_job ?lk = Some e" "sl_version_mask ?lk = v1_version_mask (cn_session c)"
    using assms(4,5) by (simp_all add: lookup_submit_def Let_def)
  have "submit_share X (rq_id request) f ?lk e = Panic"
    by (rule submit_share_assertion) (use assms(1,6) lk(3) in simp_all)
  with assms(2,3) lk show ?thesis by (auto simp: handle_submit_def Let_def intro!: exI [of _ rd])
qed

subsection \<open>Two inputs that the checks of a share treat differently\<close>

text \<open>
  An odd number of digits that starts with \<open>x\<close> is padded to a prefix \<open>0x\<close>: the length check counts
  it, and \<open>validate_share\<close> then removes it, so that the coinbase has a byte less than configured.
\<close>

lemma padded_x_shortens_extranonce2:
  "\<exists>f. parse_submit sample_config
      [JStr ''w'', JStr ''00000001'', JStr ''x123456'', JStr ''1'', JStr ''2a''] = Inr f \<and>
    length (sf_extranonce2 f) = 2 * extranonce2_size sample_config \<and>
    hex_decode ref_externs (trim_0x (sf_extranonce2 f)) = Inr [0x12, 0x34, 0x56]"
proof -
  have "parse_submit sample_config [JStr ''w'', JStr ''00000001'', JStr ''x123456'', JStr ''1'', JStr ''2a''] =
      Inr (submit_sample\<lparr>sf_extranonce2 := ''0x123456''\<rparr>)"
    by (simp add: sample_normalize parse_submit_def nth_opt_def even_digits_def pad0_def char_count_def
      is_cont_def mod_Suc submit_sample_def Let_def eval_nat_numeral)
  moreover have "length (sf_extranonce2 (submit_sample\<lparr>sf_extranonce2 := ''0x123456''\<rparr>)) =
      2 * extranonce2_size sample_config" by simp
  moreover have "hex_decode ref_externs (trim_0x (sf_extranonce2 (submit_sample\<lparr>sf_extranonce2 := ''0x123456''\<rparr>))) =
      Inr [0x12, 0x34, 0x56]"
  proof -
    have "ref_hex_decode ''123456'' = Inr [0x12, 0x34, 0x56]" by code_simp
    then show ?thesis by (simp del: ref_hex_decode.simps)
  qed
  ultimately show ?thesis by blast
qed

text \<open>
  A nonce that is no hexadecimal number passes the length check and is recorded as nonce 0 before
  the share is validated: the valid share with nonce 0 is then refused as a duplicate.
\<close>

lemma malformed_nonce_blocks_zero:
  assumes "u32_from_hex nonce_hex = None" and "submissions_ok s"
  shows "\<not> fst (remember_submission (build_dup_key X jid ''00000000'' ntime en2 version)
    (snd (remember_submission (build_dup_key X jid nonce_hex ntime en2 version) s)))"
proof -
  have "format_session_job_id 0 = ''00000000''" by code_simp
  then have "u32_from_hex ''00000000'' = Some 0"
    using u32_from_hex_fmt_08x [of 0] by (simp add: format_session_job_id_def)
  then have eq: "build_dup_key X jid ''00000000'' ntime en2 version = build_dup_key X jid nonce_hex ntime en2 version"
    by (simp add: build_dup_key_def assms(1))
  have "\<not> fst (remember_submission k (snd (remember_submission k s)))" for k
    using v1_window.remembered_after [OF assms(2), of k]
      v1_window.accepts_iff [OF remember_submission_ok [OF assms(2)], of k k] by blast
  then show ?thesis unfolding eq .
qed

end
