(* ===== verification/Sv2_Transport.thy ===== *)
theory Sv2_Transport
  imports Metrics Config
begin

text \<open>
  \<open>src/sv2/transport.rs\<close> and \<open>src/sv2/keys.rs\<close>: the listener of Stratum V2 with its limits, the
  frames a connection reads and writes, and the authority's keys. The Noise protocol and the
  framing of the crates \<open>codec_sv2\<close>, \<open>noise_sv2\<close> and \<open>framing_sv2\<close> are arguments.
\<close>

subsection \<open>Keys\<close>

text \<open>\<open>str::lines().next()\<close>.\<close>

definition first_line :: "string \<Rightarrow> string option" where
  "first_line s =
     (if s = [] then None
      else let l = takeWhile (\<lambda>c. c \<noteq> CHR 0x0A) s in
        if length l < length s \<and> l \<noteq> [] \<and> last l = CHR 0x0D then Some (butlast l) else Some l)"

text \<open>\<open>raw\<close> is what reading the file gives.\<close>

definition read_hex_key :: "externs \<Rightarrow> string result \<Rightarrow> bytes result" where
  "read_hex_key X raw =
     rbind (with_context ''read'' raw) (\<lambda>raw.
       let normalized = trim_0x (trim (unwrap_or [] (first_line raw))) in
       rbind (with_context ''decode'' (hex_decode X normalized)) (\<lambda>bs.
         if length bs \<noteq> 32 then Inl ''must contain exactly 32 bytes of hex'' else Inr bs))"

definition read_public_hex_key :: "externs \<Rightarrow> string result \<Rightarrow> bytes result" where
  "read_public_hex_key X raw = read_hex_key X raw"

text \<open>The masks are \<open>0o777\<close> and \<open>0o077\<close>.\<close>

definition reject_insecure_unix_permissions :: "u32 result \<Rightarrow> unit result" where
  "reject_insecure_unix_permissions st_mode =
     rbind (with_context ''stat'' st_mode) (\<lambda>m.
       if (m AND 0x1ff) AND 0x3f \<noteq> 0
       then Inl ''permissions must not be readable or writable by group/other; use chmod 600''
       else Inr ())"

definition read_secret_hex_key :: "externs \<Rightarrow> u32 result \<Rightarrow> string result \<Rightarrow> bytes result" where
  "read_secret_hex_key X st_mode raw =
     rbind (reject_insecure_unix_permissions st_mode) (\<lambda>_. read_hex_key X raw)"

record authority_key_pair =
  ak_public :: bytes
  ak_secret :: bytes
  ak_cert_validity :: nat

text \<open>\<open>stat\<close> and \<open>read\<close> are the file system.\<close>

definition load_authority ::
  "externs \<Rightarrow> (string \<Rightarrow> u32 result) \<Rightarrow> (string \<Rightarrow> string result) \<Rightarrow> config \<Rightarrow> authority_key_pair result" where
  "load_authority X stat read cfg =
     rbind (ok_or ''sv2.authority_public_key_path is required'' (sv2_authority_public_key_path cfg)) (\<lambda>public_path.
     rbind (ok_or ''sv2.authority_secret_key_path is required'' (sv2_authority_secret_key_path cfg)) (\<lambda>secret_path.
     rbind (with_context ''load sv2 authority public key'' (read_public_hex_key X (read public_path))) (\<lambda>public.
     rbind (with_context ''load sv2 authority secret key''
         (read_secret_hex_key X (stat secret_path) (read secret_path))) (\<lambda>secret.
       Inr \<lparr>ak_public = public, ak_secret = secret, ak_cert_validity = sv2_cert_validity_secs cfg\<rparr>))))"

lemma load_authority_keys:
  assumes "load_authority X stat read cfg = Inr k"
  shows "length (ak_public k) = 32" and "length (ak_secret k) = 32"
    and "\<exists>p m. sv2_authority_secret_key_path cfg = Some p \<and> stat p = Inr m \<and> (m AND 0x1ff) AND 0x3f = 0"
  using assms
  by (auto simp: load_authority_def read_secret_hex_key_def read_public_hex_key_def read_hex_key_def
    reject_insecure_unix_permissions_def Let_def rbind_Inr_iff ok_or_def split: option.splits if_splits)

subsection \<open>The connections per address\<close>

text \<open>\<open>std::net::IpAddr\<close>.\<close>

datatype ip_addr = V4 u32 | V6 "128 word"

type_synonym ip_counts = "(ip_addr \<times> nat) list"

definition try_acquire :: "nat \<Rightarrow> ip_addr \<Rightarrow> ip_counts \<Rightarrow> bool \<times> ip_counts" where
  "try_acquire max_per_ip ip counts =
     (let n = unwrap_or 0 (map_of counts ip);
          counts = AList.update ip n counts
      in if n \<ge> max_per_ip then (False, counts)
         else (True, AList.update ip (n + 1) counts))"

definition release :: "ip_addr \<Rightarrow> ip_counts \<Rightarrow> ip_counts" where
  "release ip counts =
     (case map_of counts ip of
        None \<Rightarrow> counts
      | Some n \<Rightarrow>
          let n = n - 1 in
          if n = 0 then AList.delete ip counts else AList.update ip n counts)"

definition ip_count :: "ip_counts \<Rightarrow> ip_addr \<Rightarrow> nat" where
  "ip_count counts ip = unwrap_or 0 (map_of counts ip)"

lemma ip_count_Nil [simp]: "ip_count [] ip = 0"
  by (simp add: ip_count_def)

lemma try_acquire_count:
  "fst (try_acquire m ip counts) \<longleftrightarrow> ip_count counts ip < m"
  "ip_count (snd (try_acquire m ip counts)) a =
     ip_count counts a + (if a = ip \<and> ip_count counts ip < m then 1 else 0)"
  by (simp_all add: try_acquire_def ip_count_def Let_def update_conv')

lemma release_count: "ip_count (release ip counts) a = ip_count counts a - (if a = ip then 1 else 0)"
  by (auto simp: release_def ip_count_def Let_def update_conv' delete_conv' split: option.split)

text \<open>The table holds no entry for an address without connections, as long as one is allowed.\<close>

lemma no_zero_entries:
  assumes "\<forall>a. map_of counts a \<noteq> Some 0"
  shows "0 < m \<Longrightarrow> map_of (snd (try_acquire m ip counts)) a \<noteq> Some 0"
    and "map_of (release ip counts) a \<noteq> Some 0"
proof -
  assume m: "0 < m"
  show "map_of (snd (try_acquire m ip counts)) a \<noteq> Some 0"
  proof (cases "map_of counts ip")
    case None
    with m assms show ?thesis by (auto simp: try_acquire_def Let_def update_conv')
  next
    case (Some n)
    with assms have "n \<noteq> 0" by metis
    with assms Some show ?thesis by (auto simp: try_acquire_def Let_def update_conv')
  qed
next
  show "map_of (release ip counts) a \<noteq> Some 0"
    using assms by (auto simp: release_def Let_def update_conv' delete_conv' split: option.split)
qed

subsection \<open>The listener\<close>

text \<open>
  A connection that was accepted, at the places where its task can be interrupted: before its
  first operation, waiting for a permit to shake hands, shaking hands, serving
  (\<open>Sv2Connection::run\<close>), returned, with its counters closed, without its address's permit, and
  gone.
\<close>

datatype phase = Opening | Waiting | Handshaking | Serving | Returned | Closed | Released | Gone

record sv2_server =
  ss_connection_permits :: nat
  ss_handshake_permits :: nat
  ss_counts :: ip_counts
  ss_counters :: pool_counters
  ss_tasks :: "(ip_addr \<times> phase) list"

text \<open>\<open>Semaphore::new\<close> panics above \<open>usize::MAX >> 3\<close> permits.\<close>

definition MAX_PERMITS :: nat where "MAX_PERMITS = 2 ^ 61 - 1"

definition server_new :: "config \<Rightarrow> pool_counters \<Rightarrow> sv2_server option" where
  "server_new cfg counters =
     (if sv2_max_connections cfg \<le> MAX_PERMITS \<and> sv2_max_handshakes cfg \<le> MAX_PERMITS then
        Some \<lparr>ss_connection_permits = sv2_max_connections cfg,
          ss_handshake_permits = sv2_max_handshakes cfg, ss_counts = [], ss_counters = counters,
          ss_tasks = []\<rparr>
      else None)"

definition server_count :: "(pool_counters \<Rightarrow> pool_counters) \<Rightarrow> sv2_server \<Rightarrow> sv2_server" where
  "server_count f s = s\<lparr>ss_counters := f (ss_counters s)\<rparr>"

text \<open>A turn of the accept loop: a connection that is refused drops the permit it holds.\<close>

definition accept_connection :: "config \<Rightarrow> ip_addr \<Rightarrow> sv2_server \<Rightarrow> sv2_server" where
  "accept_connection cfg ip s =
     (if ss_connection_permits s = 0 then server_count inc_sv2_rejected_max_connections s
      else
        let s = s\<lparr>ss_connection_permits := ss_connection_permits s - 1\<rparr>;
            (ok, counts) = try_acquire (sv2_max_connections_per_ip cfg) ip (ss_counts s);
            s = s\<lparr>ss_counts := counts\<rparr>
        in if \<not> ok then
             server_count inc_sv2_rejected_per_ip (s\<lparr>ss_connection_permits := ss_connection_permits s + 1\<rparr>)
           else s\<lparr>ss_tasks := ss_tasks s @ [(ip, Opening)]\<rparr>)"

text \<open>
  What task \<open>i\<close> does next; \<open>ok\<close> says whether the handshake succeeds. The permit of the address
  is dropped before the one of the connection.
\<close>

definition connection_turn :: "bool \<Rightarrow> nat \<Rightarrow> sv2_server \<Rightarrow> sv2_server" where
  "connection_turn ok i s =
     (let (ip, phase) = ss_tasks s ! i;
          goto = (\<lambda>p s. s\<lparr>ss_tasks := (ss_tasks s)[i := (ip, p)]\<rparr>)
      in case phase of
           Opening \<Rightarrow> goto Waiting (server_count inc_sv2_connection_opened s)
         | Waiting \<Rightarrow>
             if ss_handshake_permits s = 0 then s
             else goto Handshaking (s\<lparr>ss_handshake_permits := ss_handshake_permits s - 1\<rparr>)
         | Handshaking \<Rightarrow>
             let s = s\<lparr>ss_handshake_permits := ss_handshake_permits s + 1\<rparr> in
             if ok then goto Serving (server_count inc_sv2_handshake_success s)
             else goto Returned (server_count inc_sv2_handshake_failure s)
         | Serving \<Rightarrow> goto Returned s
         | Returned \<Rightarrow>
             goto Closed (server_count inc_sv2_connection_closed (server_count dec_sv2_connection_active s))
         | Closed \<Rightarrow> goto Released (s\<lparr>ss_counts := release ip (ss_counts s)\<rparr>)
         | Released \<Rightarrow> goto Gone (s\<lparr>ss_connection_permits := ss_connection_permits s + 1\<rparr>)
         | Gone \<Rightarrow> s)"

inductive server_step :: "config \<Rightarrow> sv2_server \<Rightarrow> sv2_server \<Rightarrow> bool" for cfg where
  accept: "server_step cfg s (accept_connection cfg ip s)"
| turn: "i < length (ss_tasks s) \<Longrightarrow> server_step cfg s (connection_turn ok i s)"

text \<open>What a task holds.\<close>

definition in_handshake :: "ip_addr \<times> phase \<Rightarrow> bool" where
  "in_handshake t \<longleftrightarrow> snd t = Handshaking"

definition of_ip :: "ip_addr \<Rightarrow> ip_addr \<times> phase \<Rightarrow> bool" where
  "of_ip ip t \<longleftrightarrow> fst t = ip \<and> snd t \<noteq> Released \<and> snd t \<noteq> Gone"

definition admitted :: "ip_addr \<times> phase \<Rightarrow> bool" where
  "admitted t \<longleftrightarrow> snd t \<noteq> Gone"

definition counted :: "ip_addr \<times> phase \<Rightarrow> bool" where
  "counted t \<longleftrightarrow> snd t \<in> {Waiting, Handshaking, Serving, Returned}"

lemmas phase_defs = in_handshake_def of_ip_def admitted_def counted_def

definition tasks_in :: "(ip_addr \<times> phase \<Rightarrow> bool) \<Rightarrow> sv2_server \<Rightarrow> nat" where
  "tasks_in P s = length (filter P (ss_tasks s))"

definition server_ok :: "config \<Rightarrow> sv2_server \<Rightarrow> bool" where
  "server_ok cfg s \<longleftrightarrow>
     ss_connection_permits s + tasks_in admitted s = sv2_max_connections cfg \<and>
     ss_handshake_permits s + tasks_in in_handshake s = sv2_max_handshakes cfg \<and>
     (\<forall>ip. ip_count (ss_counts s) ip = tasks_in (of_ip ip) s \<and>
        tasks_in (of_ip ip) s \<le> sv2_max_connections_per_ip cfg) \<and>
     pc_sv2_connections_active (ss_counters s) = word_of_nat (tasks_in counted s)"

lemma length_filter_mono: "(\<And>x. x \<in> set xs \<Longrightarrow> P x \<Longrightarrow> Q x) \<Longrightarrow> length (filter P xs) \<le> length (filter Q xs)"
  by (induction xs) auto

lemma length_filter_update:
  "i < length xs \<Longrightarrow>
   length (filter P (xs[i := y])) + of_bool (P (xs ! i)) = length (filter P xs) + of_bool (P y)"
proof (induction xs arbitrary: i)
  case (Cons x xs)
  then show ?case using Cons.IH [of "i - 1"] by (cases i) auto
qed simp

lemma tasks_in_goto:
  assumes "i < length (ss_tasks s)" and "ss_tasks s ! i = (ip, p)" and "ss_tasks t = (ss_tasks s)[i := (ip, q)]"
  shows "tasks_in P t + of_bool (P (ip, p)) = tasks_in P s + of_bool (P (ip, q))"
  using length_filter_update [OF assms(1), of P "(ip, q)"] assms(2,3) by (simp add: tasks_in_def)

lemma tasks_in_frame: "ss_tasks t = ss_tasks s \<Longrightarrow> tasks_in P t = tasks_in P s"
  by (simp add: tasks_in_def)

lemma counter_active [simp]:
  "pc_sv2_connections_active (inc_sv2_connection_opened c) = pc_sv2_connections_active c + 1"
  "pc_sv2_connections_active (inc_sv2_rejected_max_connections c) = pc_sv2_connections_active c"
  "pc_sv2_connections_active (inc_sv2_rejected_per_ip c) = pc_sv2_connections_active c"
  "pc_sv2_connections_active (inc_sv2_handshake_success c) = pc_sv2_connections_active c"
  "pc_sv2_connections_active (inc_sv2_handshake_failure c) = pc_sv2_connections_active c"
  "pc_sv2_connections_active (inc_sv2_connection_closed c) = pc_sv2_connections_active c"
  "pc_sv2_connections_active (dec_sv2_connection_active c) = sat_sub (pc_sv2_connections_active c) 1"
  by (simp_all add: inc_sv2_connection_opened_def inc_sv2_rejected_max_connections_def
    inc_sv2_rejected_per_ip_def inc_sv2_handshake_success_def inc_sv2_handshake_failure_def
    inc_sv2_connection_closed_def dec_sv2_connection_active_def)

lemma accept_connection_ok:
  assumes "server_ok cfg s"
  shows "server_ok cfg (accept_connection cfg ip s)"
proof -
  obtain ok counts where t: "try_acquire (sv2_max_connections_per_ip cfg) ip (ss_counts s) = (ok, counts)"
    by fastforce
  note c = try_acquire_count [of "sv2_max_connections_per_ip cfg" ip "ss_counts s", unfolded t]
  show ?thesis
  proof (cases ok)
    case True
    then show ?thesis
      using assms c t
      by (auto simp: server_ok_def accept_connection_def server_count_def tasks_in_def phase_defs Suc_diff_Suc)
  next
    case False
    then show ?thesis
      using assms c t
      by (auto simp: server_ok_def accept_connection_def server_count_def tasks_in_def phase_defs)
  qed
qed

lemma sat_sub_of_nat:
  assumes "0 < n" and "n < 2 ^ 64"
  shows "sat_sub (word_of_nat n :: u64) 1 = word_of_nat (n - 1)"
proof -
  have "unat (word_of_nat n :: u64) = n" using assms(2) by (simp add: unat_of_nat)
  moreover have "unat (word_of_nat (n - 1) :: u64) = n - 1" using assms(2) by (simp add: unat_of_nat)
  ultimately have "unat (sat_sub (word_of_nat n :: u64) 1) = unat (word_of_nat (n - 1) :: u64)"
    by (simp add: unat_sat_sub)
  then show ?thesis by (rule unsigned_word_eqI)
qed

lemma server_ok_goto:
  assumes s: "server_ok cfg s" and i: "i < length (ss_tasks s)" "ss_tasks s ! i = (ip, p)"
    and t: "ss_tasks t = (ss_tasks s)[i := (ip, q)]"
    and permits: "ss_connection_permits t + of_bool (admitted (ip, q)) = ss_connection_permits s + of_bool (admitted (ip, p))"
    and handshakes: "ss_handshake_permits t + of_bool (q = Handshaking) = ss_handshake_permits s + of_bool (p = Handshaking)"
    and counts: "\<And>a. ip_count (ss_counts t) a = ip_count (ss_counts s) a - of_bool (a = ip \<and> p = Closed)"
    and closed: "p \<in> {Released, Gone} \<Longrightarrow> q \<in> {Released, Gone}" "p = Closed \<longleftrightarrow> q = Released \<and> p \<noteq> Released"
      "q = Gone \<Longrightarrow> p \<in> {Released, Gone}"
    and active: "pc_sv2_connections_active (ss_counters t) + of_bool (counted (ip, p)) =
      pc_sv2_connections_active (ss_counters s) + of_bool (counted (ip, q))"
  shows "server_ok cfg t"
proof -
  note goto = tasks_in_goto [OF i t]
  have "ip_count (ss_counts t) a = tasks_in (of_ip a) t \<and> tasks_in (of_ip a) t \<le> sv2_max_connections_per_ip cfg" for a
    using goto [of "of_ip a"] s counts [of a] closed
    by (cases p; cases q; cases "a = ip") (auto simp: server_ok_def of_ip_def dest: spec [of _ a])
  moreover have "pc_sv2_connections_active (ss_counters t) = word_of_nat (tasks_in counted t)"
  proof -
    have "(word_of_nat (tasks_in counted t) :: u64) + of_bool (counted (ip, p)) =
        word_of_nat (tasks_in counted s) + of_bool (counted (ip, q))"
      using arg_cong [OF goto [of counted], of "word_of_nat :: nat \<Rightarrow> u64"] by (simp only: of_nat_add of_nat_of_bool)
    then show ?thesis using active s by (simp add: server_ok_def) (metis add_right_cancel)
  qed
  ultimately show ?thesis
    using goto [of admitted] goto [of in_handshake] s permits handshakes
    by (auto simp: server_ok_def phase_defs)
qed

lemma connection_turn_ok:
  assumes s: "server_ok cfg s" and i: "i < length (ss_tasks s)"
    and max: "sv2_max_connections cfg \<le> MAX_PERMITS"
  shows "server_ok cfg (connection_turn ok i s)"
proof -
  obtain ip p where p: "ss_tasks s ! i = (ip, p)" by fastforce
  have act: "sat_sub (pc_sv2_connections_active (ss_counters s)) 1 + 1 = pc_sv2_connections_active (ss_counters s)"
    if "p = Returned"
  proof -
    have "ss_tasks s ! i \<in> set (ss_tasks s)" using i by simp
    then have "ss_tasks s ! i \<in> set (filter counted (ss_tasks s))" using p that by (simp add: phase_defs)
    then have "0 < tasks_in counted s" unfolding tasks_in_def by (metis length_pos_if_in_set)
    moreover have "tasks_in counted s \<le> tasks_in admitted s"
      by (auto simp: tasks_in_def counted_def admitted_def intro!: length_filter_mono)
    then have "tasks_in counted s < 2 ^ 64" using s max by (simp add: server_ok_def MAX_PERMITS_def)
    ultimately show ?thesis
      using s by (simp add: server_ok_def sat_sub_of_nat of_nat_diff)
  qed
  show ?thesis
  proof (cases p)
    case Opening
    show ?thesis
      by (rule server_ok_goto [OF s i p, where q = Waiting])
        (use p Opening in \<open>simp_all add: connection_turn_def server_count_def phase_defs\<close>)
  next
    case Waiting
    show ?thesis
    proof (cases "ss_handshake_permits s = 0")
      case True
      then show ?thesis using s p Waiting by (simp add: connection_turn_def)
    next
      case False
      then show ?thesis
        by (intro server_ok_goto [OF s i p, where q = Handshaking])
          (use p Waiting in \<open>simp_all add: connection_turn_def server_count_def phase_defs\<close>)
    qed
  next
    case Handshaking
    show ?thesis
      by (rule server_ok_goto [OF s i p, where q = "if ok then Serving else Returned"])
        (use p Handshaking in \<open>auto simp: connection_turn_def server_count_def phase_defs Let_def split: if_splits\<close>)
  next
    case Serving
    show ?thesis
      by (rule server_ok_goto [OF s i p, where q = Returned])
        (use p Serving in \<open>simp_all add: connection_turn_def server_count_def phase_defs\<close>)
  next
    case Returned
    show ?thesis
      by (rule server_ok_goto [OF s i p, where q = Closed])
        (use p Returned act in \<open>simp_all add: connection_turn_def server_count_def phase_defs\<close>)
  next
    case Closed
    show ?thesis
      by (rule server_ok_goto [OF s i p, where q = Released])
        (use p Closed in \<open>simp_all add: connection_turn_def server_count_def phase_defs release_count\<close>)
  next
    case Released
    show ?thesis
      by (rule server_ok_goto [OF s i p, where q = Gone])
        (use p Released in \<open>simp_all add: connection_turn_def server_count_def phase_defs\<close>)
  next
    case Gone
    then show ?thesis using s p by (simp add: connection_turn_def)
  qed
qed

subsection \<open>Frames\<close>

text \<open>\<open>RawMessage\<close> carries its payload as it is; \<open>dst\<close> is the buffer it is written to.\<close>

definition raw_message_to_bytes :: "bytes \<Rightarrow> bytes \<Rightarrow> (nat \<times> bytes) result" where
  "raw_message_to_bytes payload dst =
     (if length dst < length payload then Inl ''WriteError''
      else Inr (length payload, payload @ drop (length payload) dst))"

definition raw_message_from_bytes :: "bytes \<Rightarrow> bytes result" where
  "raw_message_from_bytes data = Inr data"

lemma raw_message_roundtrip:
  "raw_message_to_bytes payload dst = Inr (n, out) \<Longrightarrow> raw_message_from_bytes (take n out) = Inr payload"
  by (auto simp: raw_message_to_bytes_def raw_message_from_bytes_def split: if_splits)

record sv2_raw_frame =
  fr_msg_type :: u8
  fr_extension_type :: u16
  fr_channel_msg :: bool
  fr_payload :: bytes

text \<open>
  What \<open>decoder.next_frame\<close> gives: a frame with the fields of its header, a message of the
  handshake, a demand for more bytes, or an error.
\<close>

datatype next_frame =
    Sv2Frame "(u8 \<times> u16 \<times> bool) option" bytes
  | HandShakeFrame
  | MissingBytes nat
  | CodecError string

text \<open>
  The decoder, with the Noise state in its state \<open>'d\<close>: how many bytes it wants, what it becomes
  when they are filled in, and its next frame.
\<close>

record 'd frame_decoder =
  fd_writable :: "'d \<Rightarrow> nat"
  fd_fill :: "bytes \<Rightarrow> 'd \<Rightarrow> 'd"
  fd_next_frame :: "'d \<Rightarrow> next_frame \<times> 'd"

text \<open>The result of \<open>next_frame\<close>, or the decoder when it must be given more.\<close>

definition deliver_frame :: "nat \<Rightarrow> next_frame \<Rightarrow> sv2_raw_frame result option" where
  "deliver_frame frame_max_bytes r =
     (case r of
        Sv2Frame header payload \<Rightarrow>
          Some (rbind (ok_or ''decoded sv2 frame missing header'' header) (\<lambda>(msg_type, ext_type, channel_msg).
            if length payload > frame_max_bytes then Inl ''sv2 frame payload too large''
            else Inr \<lparr>fr_msg_type = msg_type, fr_extension_type = ext_type, fr_channel_msg = channel_msg,
              fr_payload = payload\<rparr>))
      | HandShakeFrame \<Rightarrow> Some (Inl ''decode sv2 frame'')
      | MissingBytes missing \<Rightarrow>
          if missing > min (frame_max_bytes + 4096) (2 ^ 64 - 1) then Some (Inl ''sv2 encrypted frame too large'')
          else None
      | CodecError err \<Rightarrow> Some (Inl (''decode sv2 frame: '' @ err)))"

text \<open>
  \<open>read_exact n\<close> is a read of \<open>n\<close> bytes of the stream under the idle timeout. The loop need not
  end; \<open>None\<close> is a read that does not return.
\<close>

partial_function (option) read_frame ::
  "'d frame_decoder \<Rightarrow> nat \<Rightarrow> (nat \<Rightarrow> 'st \<Rightarrow> bytes result \<times> 'st) \<Rightarrow> 'd \<Rightarrow> 'st \<Rightarrow>
   (sv2_raw_frame result \<times> 'd \<times> 'st) option" where
  "read_frame D frame_max_bytes read_exact d stream =
     (let (got, stream) =
        (if fd_writable D d \<noteq> 0 then read_exact (fd_writable D d) stream else (Inr [], stream))
      in case got of
           Inl err \<Rightarrow> Some (Inl err, d, stream)
         | Inr data \<Rightarrow>
             let d = (if fd_writable D d \<noteq> 0 then fd_fill D data d else d);
                 (r, d) = fd_next_frame D d
             in case deliver_frame frame_max_bytes r of
                  Some out \<Rightarrow> Some (out, d, stream)
                | None \<Rightarrow> read_frame D frame_max_bytes read_exact d stream)"

lemma deliver_frame_bound:
  "deliver_frame m r = Some (Inr frame) \<Longrightarrow> length (fr_payload frame) \<le> m"
  by (auto simp: deliver_frame_def rbind_Inr_iff split: next_frame.splits if_splits)

text \<open>A frame that is delivered is no longer than the configured limit.\<close>

lemma read_frame_bound:
  assumes "read_frame D m read_exact d stream = Some y" and "fst y = Inr frame"
  shows "length (fr_payload frame) \<le> m"
proof -
  have "\<forall>frame. fst y = Inr frame \<longrightarrow> length (fr_payload frame) \<le> m"
    by (rule read_frame.raw_induct [OF _ assms(1),
        where P = "\<lambda>D m read_exact d stream y. \<forall>frame. fst y = Inr frame \<longrightarrow> length (fr_payload frame) \<le> m"])
      (auto simp: Let_def deliver_frame_bound split: prod.splits sum.splits option.splits if_splits)
  with assms(2) show ?thesis by simp
qed

text \<open>\<open>to_bytes\<close>, \<open>from_message\<close> and \<open>encode\<close> are the crates', \<open>write_all\<close> the stream.\<close>

definition send_message ::
  "nat \<Rightarrow> ('m \<Rightarrow> bytes result) \<Rightarrow> (bytes \<Rightarrow> u8 \<Rightarrow> u16 \<Rightarrow> bool \<Rightarrow> 'f option) \<Rightarrow> ('f \<Rightarrow> 'e \<Rightarrow> bytes result \<times> 'e) \<Rightarrow>
   (bytes \<Rightarrow> unit result) \<Rightarrow> 'm \<Rightarrow> u8 \<Rightarrow> bool \<Rightarrow> 'e \<Rightarrow> unit result \<times> 'e" where
  "send_message frame_max_bytes to_bytes from_message encode write_all message msg_type channel_msg state =
     (case to_bytes message of
        Inl err \<Rightarrow> (Inl (''serialize sv2 message: '' @ err), state)
      | Inr payload \<Rightarrow>
          if length payload > frame_max_bytes then (Inl ''sv2 outbound frame payload too large'', state)
          else case from_message payload msg_type 0 channel_msg of
            None \<Rightarrow> (Inl ''build sv2 frame'', state)
          | Some frame \<Rightarrow>
              (case encode frame state of
                 (Inl err, state) \<Rightarrow> (Inl (''encode sv2 frame: '' @ err), state)
               | (Inr encoded, state) \<Rightarrow> (with_context ''write sv2 frame'' (write_all encoded), state)))"

text \<open>
  \<open>Sv2Transport::accept\<close>: \<open>responder\<close> is the Noise responder made from the keys, \<open>read_exact\<close> the
  first message under the handshake timeout, \<open>step_1\<close> the protocol's answer.
\<close>

definition accept_transport ::
  "'r result \<Rightarrow> (nat \<Rightarrow> bytes result) \<Rightarrow> nat \<Rightarrow> ('r \<Rightarrow> bytes \<Rightarrow> (bytes \<times> 'e) result) \<Rightarrow> (bytes \<Rightarrow> unit result) \<Rightarrow> 'e result" where
  "accept_transport responder read_exact ellswift_size step_1 write_all =
     rbind responder (\<lambda>r.
     rbind (with_context ''read sv2 initiator handshake'' (read_exact ellswift_size)) (\<lambda>first_message.
     rbind (with_context ''sv2 responder handshake step_1'' (step_1 r first_message)) (\<lambda>(second_payload, transport_state).
     rbind (with_context ''write sv2 responder handshake'' (write_all second_payload)) (\<lambda>_.
       Inr transport_state))))"

lemma send_message_bound:
  assumes "send_message m to_bytes from_message encode write_all message msg_type channel_msg state = (Inr (), state')"
  shows "\<exists>payload. to_bytes message = Inr payload \<and> length payload \<le> m"
  using assms by (auto simp: send_message_def split: sum.splits if_splits)

subsection \<open>Property\<close>

lemma sample_sv2_limits:
  "sv2_max_connections sample_config = 256" "sv2_max_connections_per_ip sample_config = 16"
  "sv2_max_handshakes sample_config = 32"
  by (simp_all add: sample_config_def build_config_def sample_file_def file_config_default_def
    sv2_section_default_def)

lemma server_reachable_ok:
  assumes "server_new cfg counters = Some s0" and "pc_sv2_connections_active counters = 0"
    and "(server_step cfg)\<^sup>*\<^sup>* s0 s"
  shows "server_ok cfg s"
  using assms(3)
proof (induction rule: rtranclp_induct)
  case base
  show ?case using assms(1,2) by (auto simp: server_new_def server_ok_def tasks_in_def split: if_splits)
next
  case (step s t)
  have "sv2_max_connections cfg \<le> MAX_PERMITS" using assms(1) by (simp add: server_new_def split: if_splits)
  with step show ?case
    by (auto elim!: server_step.cases intro: accept_connection_ok connection_turn_ok)
qed

text \<open>C11 (\<open>Sv2Server::run\<close>, \<open>IpConnectionLimiter\<close>): whatever connections arrive and however they
  end, the listener never admits more connections than configured, in total and from one address,
  nor runs more handshakes at once; the table of the limiter counts the live connections of each
  address, every permit is given back, and the gauge of the active connections is their number.\<close>

theorem listener_limits:
  assumes "server_new cfg counters = Some s0" and "pc_sv2_connections_active counters = 0"
    and "(server_step cfg)\<^sup>*\<^sup>* s0 s"
  shows "ss_connection_permits s + tasks_in admitted s = sv2_max_connections cfg \<and>
    ss_handshake_permits s + tasks_in in_handshake s = sv2_max_handshakes cfg \<and>
    (\<forall>ip. ip_count (ss_counts s) ip = tasks_in (of_ip ip) s \<and>
       tasks_in (of_ip ip) s \<le> sv2_max_connections_per_ip cfg) \<and>
    pc_sv2_connections_active (ss_counters s) = word_of_nat (tasks_in counted s)"
  using server_reachable_ok [OF assms] by (simp add: server_ok_def)

theorem listener_limits_witness:
  "\<exists>s0 s. server_new sample_config pool_counters_default = Some s0 \<and> (server_step sample_config)\<^sup>*\<^sup>* s0 s \<and>
     tasks_in (of_ip (V4 7)) s = 1 \<and> ip_count (ss_counts s) (V4 7) = 1"
proof -
  obtain s0 where s0: "server_new sample_config pool_counters_default = Some s0"
    by (simp add: server_new_def MAX_PERMITS_def sample_sv2_limits)
  let ?s = "accept_connection sample_config (V4 7) s0"
  have one: "tasks_in (of_ip (V4 7)) ?s = 1"
    using s0 by (auto simp: server_new_def accept_connection_def try_acquire_def tasks_in_def of_ip_def sample_sv2_limits Let_def split: if_splits)
  have run: "(server_step sample_config)\<^sup>*\<^sup>* s0 ?s" by (intro r_into_rtranclp server_step.accept)
  have "pc_sv2_connections_active pool_counters_default = 0" by (simp add: pool_counters_default_def)
  from listener_limits [OF s0 this run] one s0 run show ?thesis by auto
qed

end
