(* ===== verification/Sv2.thy ===== *)
theory Sv2
  imports Stratum Sv2_Transport
begin

text \<open>
  The Stratum V2 connection of \<open>src/sv2/connection.rs\<close>: the set-up, extended channels with their
  jobs, shares and retargeting. One task owns the state, so a handler receives it as a value and
  stores it again at its end: the session of \<open>Tasks\<close> is \<open>None\<close> once an error has ended the
  connection. Message numbers, the decoding of payloads, the bounded types and the error codes
  of the crates \<open>mining_sv2\<close>, \<open>common_messages_sv2\<close> and \<open>binary_sv2\<close> are the argument \<open>W\<close>.
\<close>

subsection \<open>State\<close>

definition SV2_VERSION :: u16 where "SV2_VERSION = 2"
definition MAX_RECENT_SHARES :: nat where "MAX_RECENT_SHARES = 4096"
definition MAX_CHANNEL_JOBS :: nat where "MAX_CHANNEL_JOBS = 32"
definition SV2_HASHES_PER_DIFF :: f64 where "SV2_HASHES_PER_DIFF = Fin 4294967296"
definition FLAG_REQUIRES_VERSION_ROLLING :: u32 where "FLAG_REQUIRES_VERSION_ROLLING = 4"
definition SUPPORTED_MINING_FLAGS :: u32 where "SUPPORTED_MINING_FLAGS = FLAG_REQUIRES_VERSION_ROLLING"
definition ALLOWED_VERSION_ROLLING_MASK :: u32 where "ALLOWED_VERSION_ROLLING_MASK = 0x1fffe000"

text \<open>Channel, job, nonce, time, the extranonce padded to 32 bytes, its length, the version.\<close>

type_synonym v2_dup_key = "u32 \<times> u32 \<times> u32 \<times> u32 \<times> bytes \<times> u8 \<times> u32"

record channel_job =
  cj_template :: job_template
  cj_coinbase_prefix :: bytes
  cj_share_target_le :: bytes
  cj_difficulty :: f64
  cj_created_at :: instant
  cj_updates_with_channel_target :: bool
  cj_version_rolling_allowed :: bool
  cj_version_mask :: u32

record channel_state =
  ch_worker :: string
  ch_extranonce_prefix :: bytes
  ch_extranonce_size :: nat
  ch_difficulty :: f64
  ch_share_target_le :: bytes
  ch_target_sent :: bool
  ch_vardiff :: vardiff
  ch_jobs :: "(u32 \<times> channel_job) list"
  ch_current_job_id :: "u32 option"

record connection_state =
  c2_setup_complete :: bool
  c2_negotiated_flags :: u32
  c2_downstream_user_agent :: "string option"
  c2_next_channel_id :: u32
  c2_next_job_id :: u32
  c2_channels :: "(u32 \<times> channel_state) list"
  c2_submitted :: "v2_dup_key set"
  c2_submitted_order :: "v2_dup_key list"

definition connection_state_new :: connection_state where
  "connection_state_new =
     \<lparr>c2_setup_complete = False, c2_negotiated_flags = 0, c2_downstream_user_agent = None,
      c2_next_channel_id = 1, c2_next_job_id = 1, c2_channels = [], c2_submitted = {},
      c2_submitted_order = []\<rparr>"

definition allocate_channel_id :: "connection_state \<Rightarrow> u32 \<times> connection_state" where
  "allocate_channel_id self =
     (max (c2_next_channel_id self) 1,
      self\<lparr>c2_next_channel_id := max (c2_next_channel_id self + 1) 1\<rparr>)"

definition allocate_job_id :: "connection_state \<Rightarrow> u32 \<times> connection_state" where
  "allocate_job_id self =
     (max (c2_next_job_id self) 1, self\<lparr>c2_next_job_id := max (c2_next_job_id self + 1) 1\<rparr>)"

definition remember_share :: "v2_dup_key \<Rightarrow> connection_state \<Rightarrow> bool \<times> connection_state" where
  "remember_share key self =
     (if key \<in> c2_submitted self then (False, self)
      else
        let self =
          (if card (c2_submitted self) \<ge> MAX_RECENT_SHARES then
             (case c2_submitted_order self of
                [] \<Rightarrow> self
              | oldest # rest \<Rightarrow>
                  self\<lparr>c2_submitted_order := rest, c2_submitted := c2_submitted self - {oldest}\<rparr>)
           else self)
        in (True, self\<lparr>c2_submitted := insert key (c2_submitted self),
             c2_submitted_order := c2_submitted_order self @ [key]\<rparr>))"

subsection \<open>The crates\<close>

text \<open>\<open>sc_protocol\<close> tells whether \<open>protocol\<close> is \<open>Protocol::MiningProtocol\<close>; the strings are their bytes.\<close>

record setup_connection =
  sc_mining_protocol :: bool
  sc_min_version :: u16
  sc_max_version :: u16
  sc_flags :: u32
  sc_vendor :: bytes
  sc_hardware_version :: bytes
  sc_firmware :: bytes

text \<open>The hash rate is the \<open>f32\<close> of the message, as the \<open>f64\<close> of the same value.\<close>

record open_extended_channel =
  oe_request_id :: u32
  oe_user_identity :: bytes
  oe_nominal_hash_rate :: f64
  oe_min_extranonce_size :: u16

record submit_shares_extended =
  se_channel_id :: u32
  se_sequence_number :: u32
  se_job_id :: u32
  se_nonce :: u32
  se_ntime :: u32
  se_version :: u32
  se_extranonce :: bytes

text \<open>
  The numbers of the messages, the decoders of \<open>binary_sv2::from_bytes\<close>, whether a value fits
  the types \<open>Str0255\<close>, \<open>B032\<close>, \<open>B064K\<close> and \<open>Seq0255\<close>, \<open>as_utf8_or_hex\<close>, \<open>get_version\<close> and the
  error codes.
\<close>

record sv2_wire =
  w_setup_connection :: u8
  w_open_extended_mining_channel :: u8
  w_open_standard_mining_channel :: u8
  w_submit_shares_extended :: u8
  w_submit_shares_standard :: u8
  w_update_channel :: u8
  w_close_channel :: u8
  w_decode_setup :: "bytes \<Rightarrow> setup_connection result"
  w_decode_open :: "bytes \<Rightarrow> open_extended_channel result"
  w_decode_submit :: "bytes \<Rightarrow> submit_shares_extended result"
  w_str0255 :: "string \<Rightarrow> bool"
  w_b032 :: "bytes \<Rightarrow> bool"
  w_b064k :: "bytes \<Rightarrow> bool"
  w_seq0255 :: "bytes list \<Rightarrow> bool"
  w_as_utf8_or_hex :: "bytes \<Rightarrow> string"
  w_get_version :: "setup_connection \<Rightarrow> u16 \<Rightarrow> u16 \<Rightarrow> u16 option"
  w_unsupported_extranonce_size :: string
  w_invalid_channel :: string
  w_invalid_job_id :: string
  w_difficulty_too_low :: string

datatype sv2_msg =
    SetupConnectionSuccess u16 u32
  | SetupConnectionError u32 string
  | OpenExtendedMiningChannelSuccess u32 u32 bytes u16 bytes u32
  | OpenMiningChannelError u32 string
  | SetTarget u32 bytes
  | NewExtendedMiningJob u32 u32 "u32 option" u32 bool "bytes list" bytes bytes
  | SetNewPrevHash u32 u32 bytes u32 u32
  | SubmitSharesSuccess u32 u32 u32 u64
  | SubmitSharesError u32 u32 string
  | UpdateChannelError u32 string

type_synonym v2_prog = "(connection_state option, sv2_msg) prog"
type_synonym v2_cont = "connection_state \<Rightarrow> v2_prog"

text \<open>An error ends the connection; a handler that returns leaves its state.\<close>

definition close :: v2_prog where
  "close = Locked (\<lambda>_ _. (None, Return))"

definition keep :: v2_cont where
  "keep st = Locked (\<lambda>_ _. (Some st, Return))"

text \<open>\<open>self.writer.send_message(...).await?\<close>\<close>

definition write_message :: "sv2_msg \<Rightarrow> v2_prog \<Rightarrow> v2_prog" where
  "write_message m p = Send m (\<lambda>ok. if ok then p else close)"

text \<open>A message with an error code, \<open>str0255(code)?\<close>.\<close>

definition write_code :: "sv2_wire \<Rightarrow> (string \<Rightarrow> sv2_msg) \<Rightarrow> string \<Rightarrow> v2_prog \<Rightarrow> v2_prog" where
  "write_code W m code p = (if w_str0255 W code then write_message (m code) p else close)"

definition send_setup_error :: "sv2_wire \<Rightarrow> u32 \<Rightarrow> string \<Rightarrow> v2_prog \<Rightarrow> v2_prog" where
  "send_setup_error W flags code p = write_code W (SetupConnectionError flags) code p"

definition send_submit_error :: "sv2_wire \<Rightarrow> u32 \<Rightarrow> u32 \<Rightarrow> string \<Rightarrow> v2_prog \<Rightarrow> v2_prog" where
  "send_submit_error W channel_id sequence_number code p =
     write_code W (SubmitSharesError channel_id sequence_number) code p"

definition send_update_channel_error :: "sv2_wire \<Rightarrow> u32 \<Rightarrow> string \<Rightarrow> v2_prog \<Rightarrow> v2_prog" where
  "send_update_channel_error W channel_id code p = write_code W (UpdateChannelError channel_id) code p"

subsection \<open>Set-up\<close>

datatype setup_decision = Accept u32 | Reject u32 string

definition unsupported_mining_flags :: "u32 \<Rightarrow> u32" where
  "unsupported_mining_flags flags = flags AND NOT SUPPORTED_MINING_FLAGS"

definition decide_setup :: "sv2_wire \<Rightarrow> setup_connection \<Rightarrow> setup_decision" where
  "decide_setup W setup =
     (if \<not> sc_mining_protocol setup then Reject 0 ''unsupported-protocol''
      else if w_get_version W setup SV2_VERSION SV2_VERSION = None then Reject 0 ''protocol-version-mismatch''
      else let unsupported = unsupported_mining_flags (sc_flags setup) in
        if unsupported \<noteq> 0 then Reject unsupported ''unsupported-feature-flags''
        else Accept (sc_flags setup AND SUPPORTED_MINING_FLAGS))"

definition non_empty_str0255 :: "sv2_wire \<Rightarrow> bytes \<Rightarrow> string option" where
  "non_empty_str0255 W v = (let t = trim (w_as_utf8_or_hex W v) in if t = [] then None else Some t)"

definition setup_connection_user_agent :: "sv2_wire \<Rightarrow> setup_connection \<Rightarrow> string option" where
  "setup_connection_user_agent W setup =
     (let parts = List.map_filter (non_empty_str0255 W)
            [sc_vendor setup, sc_hardware_version setup, sc_firmware setup]
      in if parts = [] then None else Some (join '' '' parts))"

definition handle_setup_connection :: "sv2_wire \<Rightarrow> sv2_raw_frame \<Rightarrow> connection_state \<Rightarrow> v2_prog" where
  "handle_setup_connection W frame st =
     (if fr_msg_type frame \<noteq> w_setup_connection W \<or> fr_channel_msg frame then
        send_setup_error W 0 ''unsupported-protocol'' close
      else case w_decode_setup W (fr_payload frame) of
        Inl err \<Rightarrow> close
      | Inr setup \<Rightarrow>
          (case decide_setup W setup of
             Accept flags \<Rightarrow>
               let downstream_user_agent = setup_connection_user_agent W setup in
               write_message (SetupConnectionSuccess SV2_VERSION flags)
                 (Count inc_sv2_setup_accepted
                   (keep (st\<lparr>c2_setup_complete := True, c2_negotiated_flags := flags,
                      c2_downstream_user_agent := downstream_user_agent\<rparr>)))
           | Reject flags code \<Rightarrow>
               Count inc_sv2_setup_rejected (send_setup_error W flags code close)))"

subsection \<open>Jobs of a channel\<close>

definition prune_old_jobs :: "u32 \<Rightarrow> channel_state \<Rightarrow> channel_state" where
  "prune_old_jobs keep_job_id channel =
     channel\<lparr>ch_jobs := filter (\<lambda>(job_id, _). job_id = keep_job_id) (ch_jobs channel)\<rparr>"

text \<open>\<open>timestamp_millis\<close> rounds down.\<close>

definition timestamp_millis :: "instant \<Rightarrow> int" where
  "timestamp_millis t = t div 1000000"

fun remove_until :: "nat \<Rightarrow> u32 list \<Rightarrow> channel_state \<Rightarrow> channel_state" where
  "remove_until max_jobs [] channel = channel"
| "remove_until max_jobs (job_id # ids) channel =
     (if length (ch_jobs channel) \<le> max_jobs then channel
      else remove_until max_jobs ids
        (if Some job_id \<noteq> ch_current_job_id channel
         then channel\<lparr>ch_jobs := AList.delete job_id (ch_jobs channel)\<rparr> else channel))"

text \<open>Jobs of the same millisecond are in the order \<open>rd\<close> of the map: the sort is unstable.\<close>

definition prune_extra_jobs :: "reading \<Rightarrow> nat \<Rightarrow> channel_state \<Rightarrow> channel_state" where
  "prune_extra_jobs rd max_jobs channel =
     (if length (ch_jobs channel) \<le> max_jobs then channel
      else
        let created = (\<lambda>job_id. case map_of (ch_jobs channel) job_id of
              None \<Rightarrow> 0 | Some job \<Rightarrow> timestamp_millis (cj_created_at job));
            job_ids = sort_key created (map_order rd (map fst (ch_jobs channel)))
        in remove_until max_jobs job_ids channel)"

definition should_clean_channel_jobs :: "channel_state \<Rightarrow> job_template \<Rightarrow> bool" where
  "should_clean_channel_jobs channel job \<longleftrightarrow>
     (if \<not> jt_submit_old job then True
      else case ch_current_job_id channel of
        None \<Rightarrow> True
      | Some current_job_id \<Rightarrow>
          (case map_of (ch_jobs channel) current_job_id of
             None \<Rightarrow> True
           | Some cur \<Rightarrow> jt_prevhash_le (cj_template cur) \<noteq> jt_prevhash_le job))"

definition version_mask_for_job :: "job_template \<Rightarrow> u32" where
  "version_mask_for_job job = ALLOWED_VERSION_ROLLING_MASK AND NOT (jt_vbrequired job)"

definition version_rolling_negotiated :: "connection_state \<Rightarrow> bool" where
  "version_rolling_negotiated st \<longleftrightarrow> c2_negotiated_flags st AND FLAG_REQUIRES_VERSION_ROLLING \<noteq> 0"

definition sv2_min_ntime :: "job_template \<Rightarrow> u32" where
  "sv2_min_ntime job = max (unwrap_or (jt_mintime_u32 job) (u32_from_hex (jt_ntime job))) (jt_mintime_u32 job)"

definition new_extended_job_min_ntime :: "bool \<Rightarrow> job_template \<Rightarrow> u32 option" where
  "new_extended_job_min_ntime clean job = (if clean then None else Some (sv2_min_ntime job))"

definition update_channel :: "u32 \<Rightarrow> channel_state \<Rightarrow> connection_state \<Rightarrow> connection_state" where
  "update_channel channel_id channel st = st\<lparr>c2_channels := AList.update channel_id channel (c2_channels st)\<rparr>"

text \<open>The channel that has the job: \<open>created_at\<close> is \<open>Utc::now()\<close>, \<open>rd\<close> the order of the map.\<close>

definition add_channel_job ::
  "reading \<Rightarrow> instant \<Rightarrow> bool \<Rightarrow> job_template \<Rightarrow> bool \<Rightarrow> u32 \<Rightarrow> channel_state \<Rightarrow> channel_state" where
  "add_channel_job rd created_at negotiated job clean job_id channel =
     (let version_mask = version_mask_for_job job;
          channel_job =
            \<lparr>cj_template = job, cj_coinbase_prefix = jt_coinbase1_bytes job @ ch_extranonce_prefix channel,
             cj_share_target_le = ch_share_target_le channel, cj_difficulty = ch_difficulty channel,
             cj_created_at = created_at, cj_updates_with_channel_target = clean,
             cj_version_rolling_allowed = (negotiated \<and> version_mask \<noteq> 0), cj_version_mask = version_mask\<rparr>;
          channel = channel\<lparr>ch_jobs := AList.update job_id channel_job (ch_jobs channel),
            ch_current_job_id := Some job_id\<rparr>
      in if clean then prune_old_jobs job_id channel else prune_extra_jobs rd MAX_CHANNEL_JOBS channel)"

definition send_job_to_channel ::
  "sv2_wire \<Rightarrow> u32 \<Rightarrow> job_template \<Rightarrow> bool \<Rightarrow> connection_state \<Rightarrow> v2_cont \<Rightarrow> v2_prog" where
  "send_job_to_channel W channel_id job clean st k =
     (case allocate_job_id st of (job_id, st) \<Rightarrow>
        case map_of (c2_channels st) channel_id of
          None \<Rightarrow> close
        | Some channel \<Rightarrow> Read (\<lambda>rd.
            let negotiated = version_rolling_negotiated st;
                channel = add_channel_job rd (rd_now rd) negotiated job clean job_id channel;
                send_target = (\<not> ch_target_sent channel);
                channel = (if send_target then channel\<lparr>ch_target_sent := True\<rparr> else channel);
                st = update_channel channel_id channel st;
                announce =
                  (if w_seq0255 W (jt_merkle_branches_le job) \<and> w_b064k W (jt_coinbase1_bytes job) \<and>
                      w_b064k W (jt_coinbase2_bytes job)
                   then write_message
                     (NewExtendedMiningJob channel_id job_id (new_extended_job_min_ntime clean job)
                        (jt_version_u32 job) (negotiated \<and> version_mask_for_job job \<noteq> 0)
                        (jt_merkle_branches_le job) (jt_coinbase1_bytes job) (jt_coinbase2_bytes job))
                     (let sent = Count (inc_jobs_sent clean) (k st)
                      in if clean then
                           write_message
                             (SetNewPrevHash channel_id job_id (jt_prevhash_le_bytes job) (sv2_min_ntime job)
                                (jt_nbits_u32 job)) sent
                         else sent)
                   else close)
            in if send_target then write_message (SetTarget channel_id (ch_share_target_le channel)) announce
               else announce))"

fun send_job_to_channels ::
  "sv2_wire \<Rightarrow> job_template \<Rightarrow> bool \<Rightarrow> u32 list \<Rightarrow> connection_state \<Rightarrow> v2_cont \<Rightarrow> v2_prog" where
  "send_job_to_channels W job force_clean [] st k = k st"
| "send_job_to_channels W job force_clean (channel_id # ids) st k =
     (case map_of (c2_channels st) channel_id of
        None \<Rightarrow> send_job_to_channels W job force_clean ids st k
      | Some channel \<Rightarrow>
          let clean = force_clean \<or> should_clean_channel_jobs channel job
          in send_job_to_channel W channel_id job clean st (\<lambda>st. send_job_to_channels W job force_clean ids st k))"

definition send_job_to_all_channels ::
  "sv2_wire \<Rightarrow> job_template \<Rightarrow> bool \<Rightarrow> connection_state \<Rightarrow> v2_cont \<Rightarrow> v2_prog" where
  "send_job_to_all_channels W job force_clean st k =
     Read (\<lambda>rd. send_job_to_channels W job force_clean (map_order rd (map fst (c2_channels st))) st k)"

subsection \<open>Opening a channel\<close>

text \<open>\<open>random_bytes\<close> of the transport: the bytes of the random generator.\<close>

definition random_bytes :: "reading \<Rightarrow> nat \<Rightarrow> bytes" where
  "random_bytes rd n = map (rd_random rd) [0..<n]"

definition fixed_sv2_extranonce_size :: "nat \<Rightarrow> nat \<Rightarrow> nat option" where
  "fixed_sv2_extranonce_size configured_size requested_min_size =
     (if requested_min_size \<le> configured_size then Some configured_size else None)"

text \<open>\<open>None\<close> is the panic of \<open>clamp\<close>.\<close>

definition sv2_suggested_initial_difficulty :: "f64 option \<Rightarrow> f64 \<Rightarrow> f64 \<Rightarrow> f64 \<Rightarrow> f64 option" where
  "sv2_suggested_initial_difficulty suggested start lo hi =
     fclamp
       (case suggested of
          Some d \<Rightarrow> if is_finite d \<and> start < d then d else start
        | None \<Rightarrow> start)
       lo hi"

definition sv2_initial_difficulty :: "config \<Rightarrow> f64 \<Rightarrow> f64 option" where
  "sv2_initial_difficulty cfg nominal_hash_rate =
     (let suggested =
        (if is_finite nominal_hash_rate \<and> 0 < nominal_hash_rate
         then Some (nominal_hash_rate * target_share_time_secs cfg / SV2_HASHES_PER_DIFF) else None)
      in sv2_suggested_initial_difficulty suggested (start_difficulty cfg) (min_difficulty cfg)
        (max_difficulty cfg))"

definition sv2_session_id :: "externs \<Rightarrow> bytes \<Rightarrow> string" where
  "sv2_session_id X extranonce_prefix = ''sv2-'' @ take_chars 8 (hex_encode X extranonce_prefix)"

text \<open>\<open>trim_start_matches(p)\<close> of a \<open>p\<close> that is not empty.\<close>

function trim_start_matches :: "string \<Rightarrow> string \<Rightarrow> string" where
  "trim_start_matches p s =
     (if p \<noteq> [] \<and> p = take (length p) s then trim_start_matches p (drop (length p) s) else s)"
  by pat_completeness auto

termination
proof (relation "measure (\<lambda>(p, s). length s)")
  fix p s :: string
  assume "p \<noteq> [] \<and> p = take (length p) s"
  then have "0 < length p" "length p \<le> length s" by (auto dest: arg_cong [of _ _ length])
  then show "((p, drop (length p) s), p, s) \<in> measure (\<lambda>(p, s). length s)"
    by (simp del: length_greater_0_conv)
qed simp

declare trim_start_matches.simps [simp del]

definition sv2_worker_label :: "string option \<Rightarrow> string \<Rightarrow> string" where
  "sv2_worker_label user_agent session_id =
     (let base = (case map_option trim user_agent of
            None \<Rightarrow> ''Unknown Miner'' | Some t \<Rightarrow> if t = [] then ''Unknown Miner'' else t)
      in base @ '' #'' @ trim_start_matches ''sv2-'' session_id)"

definition channel_new :: "config \<Rightarrow> string \<Rightarrow> bytes \<Rightarrow> nat \<Rightarrow> f64 \<Rightarrow> bytes \<Rightarrow> instant \<Rightarrow> channel_state" where
  "channel_new cfg worker extranonce_prefix extranonce_size difficulty share_target now =
     \<lparr>ch_worker = worker, ch_extranonce_prefix = extranonce_prefix,
      ch_extranonce_size = extranonce_size, ch_difficulty = difficulty,
      ch_share_target_le = share_target, ch_target_sent = False,
      ch_vardiff = vardiff_new now (target_share_time_secs cfg) (vardiff_retarget_time_secs cfg)
        (min_difficulty cfg) (max_difficulty cfg),
      ch_jobs = [], ch_current_job_id = None\<rparr>"

definition handle_open_extended_channel ::
  "externs \<Rightarrow> sv2_wire \<Rightarrow> config \<Rightarrow> open_extended_channel \<Rightarrow> connection_state \<Rightarrow> v2_cont \<Rightarrow> v2_prog" where
  "handle_open_extended_channel X W cfg request st k =
     (case fixed_sv2_extranonce_size (extranonce2_size cfg) (unat (oe_min_extranonce_size request)) of
        None \<Rightarrow>
          Count inc_sv2_channel_open_error
            (write_message (OpenMiningChannelError (oe_request_id request) (w_unsupported_extranonce_size W)) (k st))
      | Some extranonce_size \<Rightarrow>
          (case allocate_channel_id st of (channel_id, st) \<Rightarrow> Read (\<lambda>rd.
             let extranonce_prefix = random_bytes rd (extranonce1_size cfg) in
             case sv2_initial_difficulty cfg (oe_nominal_hash_rate request) of
               None \<Rightarrow> Panic
             | Some difficulty \<Rightarrow>
                 (case share_target_le difficulty of
                    Inl err \<Rightarrow> close
                  | Inr share_target \<Rightarrow>
                      let session_id = sv2_session_id X extranonce_prefix;
                          worker = sv2_worker_label (c2_downstream_user_agent st) session_id;
                          channel = channel_new cfg worker extranonce_prefix extranonce_size difficulty
                            share_target (rd_now rd);
                          st = update_channel channel_id channel st
                      in if w_b032 W extranonce_prefix then
                           write_message
                             (OpenExtendedMiningChannelSuccess (oe_request_id request) channel_id share_target
                                (word_of_nat extranonce_size) extranonce_prefix 0)
                             (Metric (\<lambda>now. record_miner_seen worker difficulty (c2_downstream_user_agent st)
                                  (Some session_id) (Some ''SV2'') now)
                               (Count inc_sv2_channel_opened
                                 (Read (\<lambda>rd. let current = rd_current rd in
                                   if jt_ready current then send_job_to_channel W channel_id current True st k
                                   else k st))))
                         else close))))"

subsection \<open>Retargeting\<close>

definition set_channel_difficulty :: "f64 \<Rightarrow> channel_state \<Rightarrow> (bytes \<times> channel_state) result" where
  "set_channel_difficulty difficulty channel =
     rbind (share_target_le difficulty) (\<lambda>share_target.
       Inr (share_target,
         channel\<lparr>ch_difficulty := difficulty, ch_share_target_le := share_target,
           ch_jobs := map (\<lambda>(job_id, job).
             (job_id,
              if cj_updates_with_channel_target job
              then job\<lparr>cj_difficulty := difficulty, cj_share_target_le := share_target\<rparr> else job))
             (ch_jobs channel)\<rparr>))"

text \<open>The outer \<open>None\<close> is a panic; the controller is changed whatever comes of its proposal.\<close>

definition retarget_channel_state ::
  "externs \<Rightarrow> u32 \<Rightarrow> f64 option \<Rightarrow> instant \<Rightarrow> connection_state \<Rightarrow>
   ((f64 \<times> bytes \<times> string \<times> job_template option) option \<times> connection_state) option" where
  "retarget_channel_state X channel_id share_difficulty now st =
     (case map_of (c2_channels st) channel_id of
        None \<Rightarrow> Some (None, st)
      | Some channel \<Rightarrow>
          let channel = (case share_difficulty of
                None \<Rightarrow> channel
              | Some d \<Rightarrow> channel\<lparr>ch_vardiff := vd_record_share (now, d) (ch_vardiff channel)\<rparr>)
          in Option.bind (maybe_retarget X (ch_vardiff channel) (ch_difficulty channel) now)
            (\<lambda>(proposal, vardiff).
              let channel = channel\<lparr>ch_vardiff := vardiff\<rparr> in
              case proposal of
                None \<Rightarrow> Some (None, update_channel channel_id channel st)
              | Some new_difficulty \<Rightarrow>
                  let current_template = map_option cj_template
                        (Option.bind (ch_current_job_id channel) (map_of (ch_jobs channel)))
                  in case set_channel_difficulty new_difficulty channel of
                       Inl err \<Rightarrow> Some (None, update_channel channel_id channel st)
                     | Inr (new_target, channel) \<Rightarrow>
                         Some (Some (new_difficulty, new_target, ch_worker channel, current_template),
                           update_channel channel_id channel st)))"

definition send_channel_target :: "u32 \<Rightarrow> f64 \<Rightarrow> bytes \<Rightarrow> string \<Rightarrow> v2_prog \<Rightarrow> v2_prog" where
  "send_channel_target channel_id new_difficulty new_target worker p =
     write_message (SetTarget channel_id new_target)
       (Metric (\<lambda>now. record_miner_seen worker new_difficulty None None None now) p)"

definition send_channel_retarget ::
  "sv2_wire \<Rightarrow> u32 \<Rightarrow> f64 \<Rightarrow> bytes \<Rightarrow> string \<Rightarrow> job_template option \<Rightarrow> connection_state \<Rightarrow> v2_cont \<Rightarrow> v2_prog" where
  "send_channel_retarget W channel_id new_difficulty new_target worker template st k =
     send_channel_target channel_id new_difficulty new_target worker
       (case template of
          None \<Rightarrow> k st
        | Some template \<Rightarrow> send_job_to_channel W channel_id template False st k)"

definition retarget_one ::
  "externs \<Rightarrow> sv2_wire \<Rightarrow> u32 \<Rightarrow> f64 option \<Rightarrow> instant \<Rightarrow> connection_state \<Rightarrow> v2_cont \<Rightarrow> v2_prog" where
  "retarget_one X W channel_id share_difficulty now st k =
     (case retarget_channel_state X channel_id share_difficulty now st of
        None \<Rightarrow> Panic
      | Some (None, st) \<Rightarrow> k st
      | Some (Some (new_difficulty, new_target, worker, template), st) \<Rightarrow>
          send_channel_retarget W channel_id new_difficulty new_target worker template st k)"

definition maybe_retarget_channel ::
  "externs \<Rightarrow> sv2_wire \<Rightarrow> config \<Rightarrow> u32 \<Rightarrow> f64 \<Rightarrow> instant \<Rightarrow> connection_state \<Rightarrow> v2_cont \<Rightarrow> v2_prog" where
  "maybe_retarget_channel X W cfg channel_id share_difficulty now st k =
     (if \<not> vardiff_enabled cfg then k st
      else retarget_one X W channel_id (Some share_difficulty) now st k)"

fun retarget_channels ::
  "externs \<Rightarrow> sv2_wire \<Rightarrow> instant \<Rightarrow> u32 list \<Rightarrow> connection_state \<Rightarrow> v2_cont \<Rightarrow> v2_prog" where
  "retarget_channels X W now [] st k = k st"
| "retarget_channels X W now (channel_id # ids) st k =
     retarget_one X W channel_id None now st (\<lambda>st. retarget_channels X W now ids st k)"

definition retarget_all_channels ::
  "externs \<Rightarrow> sv2_wire \<Rightarrow> config \<Rightarrow> instant \<Rightarrow> connection_state \<Rightarrow> v2_cont \<Rightarrow> v2_prog" where
  "retarget_all_channels X W cfg now st k =
     (if \<not> vardiff_enabled cfg then k st
      else Read (\<lambda>rd. retarget_channels X W now (map_order rd (map fst (c2_channels st))) st k))"

subsection \<open>Shares\<close>

text \<open>An error text of \<open>resolve_submitted_version\<close> is not observed.\<close>

definition resolve_submitted_version :: "channel_job \<Rightarrow> u32 \<Rightarrow> u32 option" where
  "resolve_submitted_version channel_job submit_version =
     (let job_version = jt_version_u32 (cj_template channel_job);
          m = cj_version_mask channel_job
      in if \<not> cj_version_rolling_allowed channel_job then
           (if submit_version = job_version then Some job_version else None)
         else
           let submit_outside = submit_version AND NOT m; job_outside = job_version AND NOT m in
           if submit_outside \<noteq> 0 \<and> submit_outside \<noteq> job_outside then None
           else Some ((job_version AND NOT m) OR (submit_version AND m)))"

definition build_dup_key_v2 :: "submit_shares_extended \<Rightarrow> u32 \<Rightarrow> v2_dup_key" where
  "build_dup_key_v2 submit resolved_version =
     (let extra = se_extranonce submit; len = min (length extra) 32
      in (se_channel_id submit, se_job_id submit, se_nonce submit, se_ntime submit,
          take len extra @ replicate (32 - len) 0, word_of_nat len, resolved_version))"

text \<open>\<open>new_shares_sum\<close>.\<close>

definition shares_sum :: "f64 \<Rightarrow> u64" where
  "shares_sum difficulty = word_of_int (f64_to_u64 (fround (fmax difficulty 1)))"

definition submit_block_candidate ::
  "string \<Rightarrow> channel_job \<Rightarrow> share_result \<Rightarrow> v2_prog \<Rightarrow> v2_prog" where
  "submit_block_candidate worker channel_job r p =
     (case res_block_hex r of
        None \<Rightarrow> p
      | Some block_hex \<Rightarrow>
          let job = cj_template channel_job;
              event = (\<lambda>created_at (status, reason) reward_status.
                \<lparr>be_height = jt_height job, be_hash = res_hash_hex r, be_worker = worker,
                 be_difficulty = res_difficulty r, be_status = status, be_reason = reason,
                 be_confirmations = None, be_in_active_chain = None,
                 be_reward_status = reward_status, be_created_at = created_at\<rparr>);
              b = \<lparr>su_block_hex = block_hex, su_block_hash = res_hash_hex r,
                su_template_key = jt_template_key job,
                su_coinbase_hex = unwrap_or [] (res_coinbase_hex r),
                su_txid_root = jt_txid_partial_root job,
                su_witness = unwrap_or [] (jt_witness_commitment_script job)\<rparr>
          in Metric (\<lambda>now. upsert_block (event now (''candidate'', None) ''pending_submission''))
               (Spawn (submission_task b event) p))"

text \<open>What follows the answer to a share: statistics, retargeting, and the block.\<close>

definition record_and_submit ::
  "externs \<Rightarrow> sv2_wire \<Rightarrow> config \<Rightarrow> submit_shares_extended \<Rightarrow> string \<Rightarrow> channel_job \<Rightarrow> share_result \<Rightarrow> bool \<Rightarrow>
   connection_state \<Rightarrow> v2_cont \<Rightarrow> v2_prog" where
  "record_and_submit X W cfg submit worker channel_job r accepted_for_miner st k =
     Read (\<lambda>rd.
       let now = rd_now rd;
           notify_to_submit_ms = max (num_milliseconds (now - cj_created_at channel_job)) 0;
           job_age_secs = word_of_int (max (num_seconds (now - cj_created_at channel_job)) 0);
           notify_delay_ms = word_of_int notify_to_submit_ms;
           submit_rtt_ms = f64_of_int (int (rd_elapsed_us rd)) / Fin 1000;
           finish = (\<lambda>st.
             if res_is_block r then
               Count inc_sv2_block_found (submit_block_candidate worker channel_job r (k st))
             else k st)
       in Metric (record_share worker (cj_difficulty channel_job) (res_difficulty r) accepted_for_miner
              (res_is_block r) notify_to_submit_ms submit_rtt_ms job_age_secs notify_delay_ms False)
            (if accepted_for_miner
             then maybe_retarget_channel X W cfg (se_channel_id submit) (cj_difficulty channel_job) now st finish
             else finish st))"

definition share_submit_of :: "externs \<Rightarrow> submit_shares_extended \<Rightarrow> u32 \<Rightarrow> share_submit" where
  "share_submit_of X submit version =
     \<lparr>sub_extranonce2 = hex_encode X (se_extranonce submit), sub_ntime = fmt_08x (se_ntime submit),
      sub_nonce = fmt_08x (se_nonce submit), sub_version = Some (fmt_08x version)\<rparr>"

text \<open>A share whose key is new.\<close>

definition check_share_v2 ::
  "externs \<Rightarrow> sv2_wire \<Rightarrow> config \<Rightarrow> submit_shares_extended \<Rightarrow> string \<Rightarrow> channel_job \<Rightarrow> u32 \<Rightarrow>
   connection_state \<Rightarrow> v2_cont \<Rightarrow> v2_prog" where
  "check_share_v2 X W cfg submit worker channel_job version st k =
     Read (\<lambda>rd.
       case validate_share X (rd_secs rd) (cj_template channel_job) (cj_coinbase_prefix channel_job)
           (share_submit_of X submit version) (cj_share_target_le channel_job) None of
         Inl err \<Rightarrow> close
       | Inr r \<Rightarrow>
           let accepted_for_miner = (res_accepted r \<or> res_is_block r);
               rest = record_and_submit X W cfg submit worker channel_job r accepted_for_miner st k
           in if accepted_for_miner then
                write_message
                  (SubmitSharesSuccess (se_channel_id submit) (se_sequence_number submit) 1
                     (shares_sum (cj_difficulty channel_job)))
                  (Count inc_sv2_submit_accepted rest)
              else
                Count inc_sv2_submit_rejected
                  (send_submit_error W (se_channel_id submit) (se_sequence_number submit)
                    (w_difficulty_too_low W) rest))"

definition refuse_share :: "sv2_wire \<Rightarrow> submit_shares_extended \<Rightarrow> string \<Rightarrow> v2_prog \<Rightarrow> v2_prog" where
  "refuse_share W submit code p =
     Count inc_sv2_submit_rejected
       (send_submit_error W (se_channel_id submit) (se_sequence_number submit) code p)"

definition handle_submit_extended ::
  "externs \<Rightarrow> sv2_wire \<Rightarrow> config \<Rightarrow> submit_shares_extended \<Rightarrow> connection_state \<Rightarrow> v2_cont \<Rightarrow> v2_prog" where
  "handle_submit_extended X W cfg submit st k =
     (case map_of (c2_channels st) (se_channel_id submit) of
        None \<Rightarrow> refuse_share W submit (w_invalid_channel W) (k st)
      | Some channel \<Rightarrow>
          if length (se_extranonce submit) \<noteq> ch_extranonce_size channel then
            refuse_share W submit ''invalid-extranonce-size'' (k st)
          else case map_of (ch_jobs channel) (se_job_id submit) of
            None \<Rightarrow> refuse_share W submit (w_invalid_job_id W) (k st)
          | Some channel_job \<Rightarrow>
              (case resolve_submitted_version channel_job (se_version submit) of
                 None \<Rightarrow>
                   Count inc_version_rolling_violation (refuse_share W submit (w_difficulty_too_low W) (k st))
               | Some version \<Rightarrow>
                   (case remember_share (build_dup_key_v2 submit version) st of
                      (is_new, st) \<Rightarrow>
                        if \<not> is_new then
                          Count inc_duplicate_share (refuse_share W submit ''duplicate-share'' (k st))
                        else check_share_v2 X W cfg submit (ch_worker channel) channel_job version st k)))"

subsection \<open>Events\<close>

definition first_u32_le :: "bytes \<Rightarrow> u32 option" where
  "first_u32_le payload = (if length payload < 4 then None else Some (u32_from_le (take 4 payload)))"

definition first_two_u32_le :: "bytes \<Rightarrow> u32 option \<times> u32 option" where
  "first_two_u32_le payload =
     (first_u32_le payload,
      if length payload < 8 then None else Some (u32_from_le (take 4 (drop 4 payload))))"

definition handle_frame ::
  "externs \<Rightarrow> sv2_wire \<Rightarrow> config \<Rightarrow> sv2_raw_frame \<Rightarrow> connection_state \<Rightarrow> v2_cont \<Rightarrow> v2_prog" where
  "handle_frame X W cfg frame st k =
     (let t = fr_msg_type frame; payload = fr_payload frame in
      if fr_extension_type frame \<noteq> 0 then Count inc_sv2_unsupported_message close
      else if t = w_open_extended_mining_channel W then
        (case w_decode_open W payload of
           Inl err \<Rightarrow> close
         | Inr request \<Rightarrow> handle_open_extended_channel X W cfg request st k)
      else if t = w_open_standard_mining_channel W then
        Count inc_sv2_channel_open_error (Count inc_sv2_unsupported_message
          (write_code W (OpenMiningChannelError (unwrap_or 0 (first_u32_le payload)))
            ''unsupported-channel-type'' (k st)))
      else if t = w_submit_shares_extended W then
        (case w_decode_submit W payload of
           Inl err \<Rightarrow> close
         | Inr submit \<Rightarrow> handle_submit_extended X W cfg submit st k)
      else if t = w_submit_shares_standard W then
        (case first_two_u32_le payload of
           (channel_id, sequence_number) \<Rightarrow>
             Count inc_sv2_submit_rejected (Count inc_sv2_unsupported_message
               (send_submit_error W (unwrap_or 0 channel_id) (unwrap_or 0 sequence_number)
                 ''unsupported-channel-type'' (k st))))
      else if t = w_update_channel W then
        Count inc_sv2_unsupported_message
          (send_update_channel_error W (unwrap_or 0 (fst (first_two_u32_le payload)))
            ''max-target-out-of-range'' (k st))
      else if t = w_close_channel W then
        (let channel_id = unwrap_or 0 (first_u32_le payload);
             st' = st\<lparr>c2_channels := AList.delete channel_id (c2_channels st)\<rparr>
         in if map_of (c2_channels st) channel_id \<noteq> None then Count inc_sv2_channel_closed (k st') else k st')
      else Count inc_sv2_unsupported_message close)"

text \<open>
  What the loop of \<open>run\<close> receives: a frame, a reader or a channel that ended (\<open>None\<close>), a new
  template, or the tick of the timer, which runs only if \<open>vardiff_enabled\<close>.
\<close>

datatype connection_event = Frame sv2_raw_frame | Template job_template | VardiffTick | ReaderClosed

definition handle_event ::
  "externs \<Rightarrow> sv2_wire \<Rightarrow> config \<Rightarrow> connection_event \<Rightarrow> connection_state \<Rightarrow> v2_prog" where
  "handle_event X W cfg event st =
     (case event of
        Frame frame \<Rightarrow> handle_frame X W cfg frame st keep
      | Template job \<Rightarrow> if jt_ready job then send_job_to_all_channels W job False st keep else Return
      | VardiffTick \<Rightarrow> Read (\<lambda>rd. retarget_all_channels X W cfg (rd_now rd) st keep)
      | ReaderClosed \<Rightarrow> close)"

definition run_turn :: "externs \<Rightarrow> sv2_wire \<Rightarrow> config \<Rightarrow> connection_event \<Rightarrow> v2_prog" where
  "run_turn X W cfg event =
     Load (\<lambda>s. case s of
         None \<Rightarrow> Return
       | Some st \<Rightarrow>
           if \<not> c2_setup_complete st then
             (case event of
                Frame frame \<Rightarrow> handle_setup_connection W frame st
              | ReaderClosed \<Rightarrow> close
              | _ \<Rightarrow> Return)
           else handle_event X W cfg event st)"

text \<open>
  The task of the connection is the first; it takes the next event when it is idle. The first
  frame is the set-up: the code reads it before its loop, and \<open>setup_complete\<close> tells the two
  phases apart. A template of an event is one that the engine publishes.
\<close>

inductive v2_starts ::
  "externs \<Rightarrow> sv2_wire \<Rightarrow> config \<Rightarrow> (job_template \<Rightarrow> bool) \<Rightarrow> nat \<Rightarrow> v2_prog \<Rightarrow> bool"
  for X W cfg J where
  turn: "(\<And>job. event = Template job \<Longrightarrow> J job) \<Longrightarrow> (event = VardiffTick \<Longrightarrow> vardiff_enabled cfg) \<Longrightarrow>
    v2_starts X W cfg J 0 (run_turn X W cfg event)"

text \<open>A connection writes its frames itself: what the peer takes, and when, is not known.\<close>

definition v2_open :: "shared \<Rightarrow> (connection_state option, sv2_msg) conn" where
  "v2_open sh = \<lparr>cn_session = Some connection_state_new, cn_shared = sh, cn_sent = [],
      cn_taken = 0, cn_capacity = None, cn_closed = False\<rparr>"

definition v2_tasks :: "v2_prog list" where
  "v2_tasks = [Return]"

subsection \<open>The window of shares and the identifiers\<close>

definition window_ok :: "connection_state \<Rightarrow> bool" where
  "window_ok st \<longleftrightarrow>
     distinct (c2_submitted_order st) \<and> c2_submitted st = set (c2_submitted_order st) \<and>
     length (c2_submitted_order st) \<le> MAX_RECENT_SHARES"

lemma remember_share_known: "k \<in> c2_submitted st \<Longrightarrow> remember_share k st = (False, st)"
  by (simp add: remember_share_def)

lemma remember_share_new:
  assumes "window_ok st" and "k \<notin> c2_submitted st"
  shows "remember_share k st = (True, st
    \<lparr>c2_submitted := set (last_n MAX_RECENT_SHARES (c2_submitted_order st @ [k])),
     c2_submitted_order := last_n MAX_RECENT_SHARES (c2_submitted_order st @ [k])\<rparr>)"
proof -
  let ?q = "c2_submitted_order st"
  have q: "distinct ?q" "c2_submitted st = set ?q" "length ?q \<le> MAX_RECENT_SHARES"
    using assms(1) by (simp_all add: window_ok_def)
  then have card: "card (c2_submitted st) = length ?q" by (simp add: distinct_card)
  show ?thesis
  proof (cases "length ?q \<ge> MAX_RECENT_SHARES")
    case True
    with q(3) obtain x xs where x: "?q = x # xs" "length ?q = MAX_RECENT_SHARES"
      by (cases ?q) (auto simp: MAX_RECENT_SHARES_def)
    then have "last_n MAX_RECENT_SHARES (?q @ [k]) = xs @ [k]" by (simp add: last_n_def)
    with x q(1,2) assms(2) card show ?thesis
      by (auto simp: remember_share_def Let_def intro!: connection_state.equality)
  next
    case False
    with q assms(2) card show ?thesis
      by (auto simp: remember_share_def last_n_all Let_def intro!: connection_state.equality)
  qed
qed

lemma remember_share_ok [bee_inv]: "window_ok st \<Longrightarrow> window_ok (snd (remember_share k st))"
proof (cases "k \<in> c2_submitted st")
  case False
  assume "window_ok st"
  moreover from this False have "distinct (c2_submitted_order st @ [k])" by (simp add: window_ok_def)
  ultimately show ?thesis
    by (simp add: remember_share_new [OF _ False] window_ok_def distinct_last_n)
qed (simp add: remember_share_known)

interpretation v2_window: dedup_filter c2_submitted_order remember_share window_ok MAX_RECENT_SHARES
proof
  show "0 < MAX_RECENT_SHARES" by (simp add: MAX_RECENT_SHARES_def)
next
  fix s k
  assume s: "window_ok s"
  then show "distinct (c2_submitted_order s) \<and> length (c2_submitted_order s) \<le> MAX_RECENT_SHARES"
    by (simp add: window_ok_def)
  show "window_ok (snd (remember_share k s))" using s by (rule remember_share_ok)
  show "remember_share k s = (False, s)" if "k \<in> set (c2_submitted_order s)"
    using s that by (simp add: window_ok_def remember_share_known)
  show "fst (remember_share k s) \<and> c2_submitted_order (snd (remember_share k s)) =
      last_n MAX_RECENT_SHARES (c2_submitted_order s @ [k])"
    if "k \<notin> set (c2_submitted_order s)"
    using s that by (simp add: window_ok_def remember_share_new [OF s])
qed

lemma remember_share_frame [simp]:
  "c2_setup_complete (snd (remember_share k s)) = c2_setup_complete s"
  "c2_negotiated_flags (snd (remember_share k s)) = c2_negotiated_flags s"
  "c2_next_channel_id (snd (remember_share k s)) = c2_next_channel_id s"
  "c2_next_job_id (snd (remember_share k s)) = c2_next_job_id s"
  "c2_channels (snd (remember_share k s)) = c2_channels s"
  by (simp_all add: remember_share_def Let_def split: list.split)

lemma max_one: "w \<noteq> 0 \<Longrightarrow> max w (1 :: u32) = w"
proof -
  assume "w \<noteq> 0"
  then have "0 < unat w" by (simp add: unat_gt_0)
  then have "1 \<le> w" by (simp add: word_le_nat_alt)
  then show ?thesis by (simp add: max_absorb1)
qed

interpretation v2_channel_ids: id_source c2_next_channel_id allocate_channel_id
  by unfold_locales (simp_all add: allocate_channel_id_def next_id_def max_one)

interpretation v2_job_ids: id_source c2_next_job_id allocate_job_id
  by unfold_locales (simp_all add: allocate_job_id_def next_id_def max_one)

subsection \<open>Invariant\<close>

definition channel_job_ok ::
  "(job_template \<Rightarrow> bool) \<Rightarrow> config \<Rightarrow> bool \<Rightarrow> bytes \<Rightarrow> channel_job \<Rightarrow> bool" where
  "channel_job_ok J cfg negotiated prefix e \<longleftrightarrow>
     J (cj_template e) \<and> diff_range cfg (cj_difficulty e) \<and>
     share_target_le (cj_difficulty e) = Inr (cj_share_target_le e) \<and>
     cj_coinbase_prefix e = jt_coinbase1_bytes (cj_template e) @ prefix \<and>
     cj_version_mask e = version_mask_for_job (cj_template e) \<and>
     (cj_version_rolling_allowed e \<longleftrightarrow> negotiated \<and> cj_version_mask e \<noteq> 0)"

text \<open>The current job is one of the channel's, and all of them extend the same block.\<close>

definition current_ok :: "channel_state \<Rightarrow> bool" where
  "current_ok c \<longleftrightarrow>
     (case ch_current_job_id c of
        None \<Rightarrow> ch_jobs c = []
      | Some i \<Rightarrow> (\<exists>cur. map_of (ch_jobs c) i = Some cur \<and>
          (\<forall>e \<in> snd ` set (ch_jobs c). jt_prevhash_le (cj_template e) = jt_prevhash_le (cj_template cur))))"

definition channel_ok :: "(job_template \<Rightarrow> bool) \<Rightarrow> config \<Rightarrow> bool \<Rightarrow> channel_state \<Rightarrow> bool" where
  "channel_ok J cfg negotiated c \<longleftrightarrow>
     distinct (map fst (ch_jobs c)) \<and> length (ch_jobs c) \<le> MAX_CHANNEL_JOBS \<and> current_ok c \<and>
     (\<forall>e \<in> snd ` set (ch_jobs c). channel_job_ok J cfg negotiated (ch_extranonce_prefix c) e) \<and>
     diff_range cfg (ch_difficulty c) \<and> share_target_le (ch_difficulty c) = Inr (ch_share_target_le c) \<and>
     length (ch_extranonce_prefix c) = extranonce1_size cfg \<and> ch_extranonce_size c = extranonce2_size cfg \<and>
     vardiff_for cfg (ch_vardiff c)"

definition state_ok :: "(job_template \<Rightarrow> bool) \<Rightarrow> config \<Rightarrow> connection_state \<Rightarrow> bool" where
  "state_ok J cfg st \<longleftrightarrow>
     distinct (map fst (c2_channels st)) \<and>
     (\<forall>c \<in> snd ` set (c2_channels st). channel_ok J cfg (version_rolling_negotiated st) c) \<and>
     window_ok st \<and> c2_next_channel_id st \<noteq> 0 \<and> c2_next_job_id st \<noteq> 0 \<and>
     unsupported_mining_flags (c2_negotiated_flags st) = 0 \<and>
     (\<not> c2_setup_complete st \<longrightarrow> c2_channels st = [])"

lemma state_ok_new: "state_ok J cfg connection_state_new"
  by (simp add: state_ok_def connection_state_new_def window_ok_def unsupported_mining_flags_def)

lemma state_ok_lookup:
  "state_ok J cfg st \<Longrightarrow> map_of (c2_channels st) i = Some c \<Longrightarrow>
   channel_ok J cfg (version_rolling_negotiated st) c"
  by (auto simp: state_ok_def dest!: map_of_SomeD)

lemma channel_ok_lookup:
  "channel_ok J cfg n c \<Longrightarrow> map_of (ch_jobs c) i = Some e \<Longrightarrow>
   channel_job_ok J cfg n (ch_extranonce_prefix c) e"
  by (auto simp: channel_ok_def dest!: map_of_SomeD)

lemma update_channel_ok [bee_inv]:
  assumes "state_ok J cfg st" and "channel_ok J cfg (version_rolling_negotiated st) c" and "c2_setup_complete st"
  shows "state_ok J cfg (update_channel i c st)"
  using assms set_alist_update [of i c "c2_channels st"]
  by (fastforce simp: state_ok_def update_channel_def distinct_alist_update window_ok_def
    version_rolling_negotiated_def)

lemma update_channel_frame [simp]:
  "c2_setup_complete (update_channel i c st) = c2_setup_complete st"
  "version_rolling_negotiated (update_channel i c st) = version_rolling_negotiated st"
  "c2_channels (update_channel i c st) = AList.update i c (c2_channels st)"
  by (simp_all add: update_channel_def version_rolling_negotiated_def)

lemma allocate_ok [bee_inv]:
  "state_ok J cfg st \<Longrightarrow> state_ok J cfg (snd (allocate_channel_id st))"
  "state_ok J cfg st \<Longrightarrow> state_ok J cfg (snd (allocate_job_id st))"
  using v2_channel_ids.alloc_nonzero [of st] v2_job_ids.alloc_nonzero [of st]
  by (auto simp: state_ok_def allocate_channel_id_def allocate_job_id_def window_ok_def
    version_rolling_negotiated_def)

lemma allocate_frame [simp]:
  "c2_channels (snd (allocate_channel_id st)) = c2_channels st"
  "c2_channels (snd (allocate_job_id st)) = c2_channels st"
  "c2_setup_complete (snd (allocate_channel_id st)) = c2_setup_complete st"
  "c2_setup_complete (snd (allocate_job_id st)) = c2_setup_complete st"
  "version_rolling_negotiated (snd (allocate_channel_id st)) = version_rolling_negotiated st"
  "version_rolling_negotiated (snd (allocate_job_id st)) = version_rolling_negotiated st"
  by (simp_all add: allocate_channel_id_def allocate_job_id_def version_rolling_negotiated_def)

lemma remember_share_state_ok [bee_inv]:
  "state_ok J cfg st \<Longrightarrow> state_ok J cfg (snd (remember_share k st))"
  using remember_share_ok [of st k] by (simp add: state_ok_def version_rolling_negotiated_def)

subsection \<open>Adding and pruning jobs\<close>

lemma remove_until_frame [simp]:
  "ch_current_job_id (remove_until m ids c) = ch_current_job_id c"
  "ch_extranonce_prefix (remove_until m ids c) = ch_extranonce_prefix c"
  "ch_extranonce_size (remove_until m ids c) = ch_extranonce_size c"
  "ch_difficulty (remove_until m ids c) = ch_difficulty c"
  "ch_share_target_le (remove_until m ids c) = ch_share_target_le c"
  "ch_target_sent (remove_until m ids c) = ch_target_sent c"
  "ch_vardiff (remove_until m ids c) = ch_vardiff c"
  by (induction ids arbitrary: c) auto

lemma prune_extra_jobs_frame [simp]:
  "ch_current_job_id (prune_extra_jobs rd m c) = ch_current_job_id c"
  "ch_extranonce_prefix (prune_extra_jobs rd m c) = ch_extranonce_prefix c"
  "ch_extranonce_size (prune_extra_jobs rd m c) = ch_extranonce_size c"
  "ch_difficulty (prune_extra_jobs rd m c) = ch_difficulty c"
  "ch_share_target_le (prune_extra_jobs rd m c) = ch_share_target_le c"
  "ch_target_sent (prune_extra_jobs rd m c) = ch_target_sent c"
  "ch_vardiff (prune_extra_jobs rd m c) = ch_vardiff c"
  by (simp_all add: prune_extra_jobs_def Let_def)

lemma prune_old_jobs_frame [simp]:
  "ch_jobs (prune_old_jobs i c) = filter (\<lambda>e. fst e = i) (ch_jobs c)"
  "ch_current_job_id (prune_old_jobs i c) = ch_current_job_id c"
  "ch_extranonce_prefix (prune_old_jobs i c) = ch_extranonce_prefix c"
  "ch_extranonce_size (prune_old_jobs i c) = ch_extranonce_size c"
  "ch_difficulty (prune_old_jobs i c) = ch_difficulty c"
  "ch_share_target_le (prune_old_jobs i c) = ch_share_target_le c"
  "ch_target_sent (prune_old_jobs i c) = ch_target_sent c"
  "ch_vardiff (prune_old_jobs i c) = ch_vardiff c"
  by (simp_all add: prune_old_jobs_def case_prod_beta')

text \<open>The pruned jobs are the jobs without some that are not current.\<close>

lemma remove_until_jobs:
  "\<exists>P. ch_jobs (remove_until m ids c) = filter (\<lambda>e. P (fst e)) (ch_jobs c) \<and>
     (\<forall>i. ch_current_job_id c = Some i \<longrightarrow> P i)"
proof (induction ids arbitrary: c)
  case Nil
  show ?case by (intro exI [of _ "\<lambda>_. True"]) simp
next
  case (Cons j ids)
  show ?case
  proof (cases "length (ch_jobs c) \<le> m \<or> Some j = ch_current_job_id c")
    case True
    with Cons.IH [of c] show ?thesis by (auto intro: exI [of _ "\<lambda>_. True"])
  next
    case False
    from Cons.IH [of "c\<lparr>ch_jobs := AList.delete j (ch_jobs c)\<rparr>"] obtain P where
      P: "ch_jobs (remove_until m ids (c\<lparr>ch_jobs := AList.delete j (ch_jobs c)\<rparr>)) =
        filter (\<lambda>e. P (fst e)) (AList.delete j (ch_jobs c))" "\<forall>i. ch_current_job_id c = Some i \<longrightarrow> P i"
      by auto
    with False show ?thesis
      by (intro exI [of _ "\<lambda>i. i \<noteq> j \<and> P i"])
        (auto simp: AList.delete_eq case_prod_beta intro!: filter_cong)
  qed
qed

lemma remove_until_length:
  assumes "distinct (map fst (ch_jobs c))" and "0 < m"
    and "fst ` set (ch_jobs c) \<subseteq> set ids \<union> {j. ch_current_job_id c = Some j}"
  shows "length (ch_jobs (remove_until m ids c)) \<le> m"
  using assms
proof (induction ids arbitrary: c)
  case Nil
  have fin: "finite {j. ch_current_job_id c = Some j}" by (cases "ch_current_job_id c") auto
  have "length (map fst (ch_jobs c)) = card (fst ` set (ch_jobs c))"
    using Nil.prems(1) distinct_card [of "map fst (ch_jobs c)"] by simp
  also have "\<dots> \<le> card {j. ch_current_job_id c = Some j}"
    using Nil.prems(3) fin by (intro card_mono) auto
  also have "\<dots> \<le> 1" by (cases "ch_current_job_id c") auto
  finally show ?case using Nil.prems(2) by simp
next
  case (Cons j ids)
  show ?case
  proof (cases "length (ch_jobs c) \<le> m")
    case True
    then show ?thesis by simp
  next
    case False
    show ?thesis
    proof (cases "Some j = ch_current_job_id c")
      case True
      then have "fst ` set (ch_jobs c) \<subseteq> set ids \<union> {i. ch_current_job_id c = Some i}"
        using Cons.prems(3) by (auto simp: True [symmetric])
      with False True Cons.IH [of c] Cons.prems(1,2) show ?thesis by simp
    next
      case diff: False
      have "distinct (map fst (AList.delete j (ch_jobs c)))"
        using Cons.prems(1) by (rule distinct_delete)
      moreover have "fst ` set (AList.delete j (ch_jobs c)) \<subseteq>
          set ids \<union> {i. ch_current_job_id c = Some i}"
        using Cons.prems(3) by (auto simp: AList.delete_eq)
      ultimately have "length (ch_jobs (remove_until m ids (c\<lparr>ch_jobs := AList.delete j (ch_jobs c)\<rparr>))) \<le> m"
        using Cons.prems(2) by (intro Cons.IH) simp_all
      with False diff show ?thesis by simp
    qed
  qed
qed

lemma map_of_filter_key:
  "P i \<Longrightarrow> map_of (filter (\<lambda>e. P (fst e)) m) i = map_of m i"
  by (induction m) auto

lemma prune_extra_jobs_ok:
  assumes "distinct (map fst (ch_jobs c))" and "0 < m"
  obtains P where "ch_jobs (prune_extra_jobs rd m c) = filter (\<lambda>e. P (fst e)) (ch_jobs c)"
    and "\<And>i. ch_current_job_id c = Some i \<Longrightarrow> P i" and "length (ch_jobs (prune_extra_jobs rd m c)) \<le> m"
proof (cases "length (ch_jobs c) \<le> m")
  case True
  then show thesis by (intro that [of "\<lambda>_. True"]) (simp_all add: prune_extra_jobs_def)
next
  case False
  define ids where "ids = sort_key (\<lambda>job_id. case map_of (ch_jobs c) job_id of
      None \<Rightarrow> 0 | Some job \<Rightarrow> timestamp_millis (cj_created_at job)) (map_order rd (map fst (ch_jobs c)))"
  have eq: "prune_extra_jobs rd m c = remove_until m ids c"
    using False by (simp add: prune_extra_jobs_def ids_def)
  have "length (ch_jobs (remove_until m ids c)) \<le> m"
    by (rule remove_until_length) (use assms in \<open>auto simp: ids_def\<close>)
  moreover obtain P where "ch_jobs (remove_until m ids c) = filter (\<lambda>e. P (fst e)) (ch_jobs c)"
    "\<forall>i. ch_current_job_id c = Some i \<longrightarrow> P i"
    using remove_until_jobs by blast
  ultimately show thesis by (intro that [of P]) (simp_all add: eq)
qed

lemma version_mask_rolling: "version_mask_for_job job AND jt_vbrequired job = 0"
  "version_mask_for_job job AND NOT ALLOWED_VERSION_ROLLING_MASK = 0"
  unfolding version_mask_for_job_def
  by (rule bit_word_eqI; auto simp: bit_and_iff bit_not_iff)+

text \<open>What a job may be added: a clean one, or one on the block of the current one.\<close>

definition same_block :: "channel_state \<Rightarrow> job_template \<Rightarrow> bool" where
  "same_block c job \<longleftrightarrow> (\<exists>i cur. ch_current_job_id c = Some i \<and> map_of (ch_jobs c) i = Some cur \<and>
     jt_prevhash_le (cj_template cur) = jt_prevhash_le job)"

lemma not_clean_same_block:
  "\<not> should_clean_channel_jobs c job \<Longrightarrow> same_block c job"
  by (auto simp: should_clean_channel_jobs_def same_block_def split: if_splits option.splits)

lemma add_channel_job_ok:
  assumes c: "channel_ok J cfg n c" and J: "J job" and block: "clean \<or> same_block c job"
  shows "channel_ok J cfg n (add_channel_job rd now n job clean i c)"
proof -
  define e where "e = \<lparr>cj_template = job, cj_coinbase_prefix = jt_coinbase1_bytes job @ ch_extranonce_prefix c,
    cj_share_target_le = ch_share_target_le c, cj_difficulty = ch_difficulty c, cj_created_at = now,
    cj_updates_with_channel_target = clean, cj_version_rolling_allowed = (n \<and> version_mask_for_job job \<noteq> 0),
    cj_version_mask = version_mask_for_job job\<rparr>"
  define c1 where "c1 = c\<lparr>ch_jobs := AList.update i e (ch_jobs c), ch_current_job_id := Some i\<rparr>"
  have add: "add_channel_job rd now n job clean i c =
      (if clean then prune_old_jobs i c1 else prune_extra_jobs rd MAX_CHANNEL_JOBS c1)"
    by (simp add: add_channel_job_def c1_def e_def Let_def)
  have e: "channel_job_ok J cfg n (ch_extranonce_prefix c) e"
    using c J by (simp add: channel_job_ok_def channel_ok_def e_def)
  have dist: "distinct (map fst (ch_jobs c1))"
    using c by (simp add: c1_def channel_ok_def distinct_alist_update)
  have sub: "set (ch_jobs c1) \<subseteq> insert (i, e) (set (ch_jobs c))"
    by (simp add: c1_def set_alist_update)
  have cur: "map_of (ch_jobs c1) i = Some e" by (simp add: c1_def update_conv')
  have entries: "\<forall>x \<in> snd ` set (ch_jobs c1). channel_job_ok J cfg n (ch_extranonce_prefix c) x"
    using sub e c by (fastforce simp: channel_ok_def)
  have tmpl: "cj_template e = job" by (simp add: e_def)
  note rest = c [unfolded channel_ok_def]
  show ?thesis
  proof (cases clean)
    case True
    have only: "x = (i, e)" if "x \<in> set (filter (\<lambda>x. fst x = i) (ch_jobs c1))" for x
    proof -
      have "x \<in> set (ch_jobs c1)" "fst x = i" using that by auto
      then have "map_of (ch_jobs c1) i = Some (snd x)" using map_of_is_SomeI [OF dist] by (metis prod.collapse)
      with cur \<open>fst x = i\<close> show ?thesis by (cases x) simp
    qed
    have "length (map fst (filter (\<lambda>x. fst x = i) (ch_jobs c1))) \<le> card {i}"
      unfolding distinct_card [OF distinct_map_filter [OF dist, of "\<lambda>x. fst x = i"], symmetric]
      by (rule card_mono) auto
    then have len: "length (filter (\<lambda>x. fst x = i) (ch_jobs c1)) \<le> MAX_CHANNEL_JOBS"
      by (simp add: MAX_CHANNEL_JOBS_def)
    have "current_ok (prune_old_jobs i c1)"
      using only [of "(i, b)" for b] cur map_of_filter_key [of "\<lambda>x. x = i" i "ch_jobs c1"]
      by (auto simp: current_ok_def c1_def)
    then show ?thesis
      using True rest dist entries len unfolding channel_ok_def add
      by (auto simp: distinct_map_filter c1_def)
  next
    case False
    then obtain j old where old: "ch_current_job_id c = Some j" "map_of (ch_jobs c) j = Some old"
      "jt_prevhash_le (cj_template old) = jt_prevhash_le job"
      using block by (auto simp: same_block_def)
    have same: "\<forall>x \<in> snd ` set (ch_jobs c1). jt_prevhash_le (cj_template x) = jt_prevhash_le job"
      using sub old rest tmpl by (fastforce simp: current_ok_def)
    obtain P where P: "ch_jobs (prune_extra_jobs rd MAX_CHANNEL_JOBS c1) = filter (\<lambda>e. P (fst e)) (ch_jobs c1)"
      "P i" "length (ch_jobs (prune_extra_jobs rd MAX_CHANNEL_JOBS c1)) \<le> MAX_CHANNEL_JOBS"
      by (rule prune_extra_jobs_ok [OF dist, of MAX_CHANNEL_JOBS rd]) (auto simp: MAX_CHANNEL_JOBS_def c1_def)
    have "current_ok (prune_extra_jobs rd MAX_CHANNEL_JOBS c1)"
      using same cur map_of_filter_key [of P i "ch_jobs c1"] P(1,2) tmpl
      by (auto simp: current_ok_def c1_def)
    then show ?thesis
      using False rest dist entries P unfolding channel_ok_def add
      by (auto simp: distinct_map_filter c1_def)
  qed
qed

subsection \<open>Retargeting keeps the invariant\<close>

lemma current_ok_updates [simp]:
  "current_ok (c\<lparr>ch_vardiff := v\<rparr>) = current_ok c"
  "current_ok (c\<lparr>ch_target_sent := b\<rparr>) = current_ok c"
  by (cases "ch_current_job_id c"; simp add: current_ok_def)+

lemma channel_ok_vardiff:
  "channel_ok J cfg n c \<Longrightarrow> vardiff_for cfg v \<Longrightarrow> channel_ok J cfg n (c\<lparr>ch_vardiff := v\<rparr>)"
  by (simp add: channel_ok_def)

lemma channel_ok_target_sent [simp]: "channel_ok J cfg n (c\<lparr>ch_target_sent := b\<rparr>) = channel_ok J cfg n c"
  by (simp add: channel_ok_def)

lemma set_channel_difficulty_ok:
  assumes cfg: "difficulty_ok cfg" and d: "diff_range cfg d" and c: "channel_ok J cfg n c"
  obtains t c' where "set_channel_difficulty d c = Inr (t, c')" and "channel_ok J cfg n c'"
    and "share_target_le d = Inr t" and "ch_worker c' = ch_worker c"
    and "ch_current_job_id c' = ch_current_job_id c"
    and "\<And>i. map_option cj_template (map_of (ch_jobs c') i) = map_option cj_template (map_of (ch_jobs c) i)"
proof -
  obtain t where t: "share_target_le d = Inr t" using diff_range_target [OF cfg d] by blast
  define upd where "upd = (\<lambda>e :: channel_job. if cj_updates_with_channel_target e
    then e\<lparr>cj_difficulty := d, cj_share_target_le := t\<rparr> else e)"
  define c' where "c' = c\<lparr>ch_difficulty := d, ch_share_target_le := t,
    ch_jobs := map (\<lambda>(i, e). (i, upd e)) (ch_jobs c)\<rparr>"
  have eq: "set_channel_difficulty d c = Inr (t, c')"
    by (simp add: set_channel_difficulty_def t c'_def upd_def)
  have tmpl: "cj_template (upd e) = cj_template e" for e by (simp add: upd_def)
  have entry: "channel_job_ok J cfg n p (upd e)" if "channel_job_ok J cfg n p e" for e p
    using that d t by (simp add: channel_job_ok_def upd_def)
  have look: "map_of (ch_jobs c') i = map_option upd (map_of (ch_jobs c) i)" for i
    by (simp add: c'_def map_of_map)
  have keys: "map fst (ch_jobs c') = map fst (ch_jobs c)" by (auto simp: c'_def case_prod_beta)
  have vals: "snd ` set (ch_jobs c') = upd ` snd ` set (ch_jobs c)" by (force simp: c'_def)
  have frame: "ch_current_job_id c' = ch_current_job_id c" "ch_extranonce_prefix c' = ch_extranonce_prefix c"
    "ch_extranonce_size c' = ch_extranonce_size c" "ch_vardiff c' = ch_vardiff c" "ch_worker c' = ch_worker c"
    "ch_difficulty c' = d" "ch_share_target_le c' = t" "length (ch_jobs c') = length (ch_jobs c)"
    "ch_jobs c' = [] \<longleftrightarrow> ch_jobs c = []"
    by (simp_all add: c'_def)
  have "current_ok c'"
  proof (cases "ch_current_job_id c")
    case None
    then show ?thesis using c by (simp add: channel_ok_def current_ok_def frame)
  next
    case (Some i)
    then obtain cur where "map_of (ch_jobs c) i = Some cur"
      "\<forall>e \<in> snd ` set (ch_jobs c). jt_prevhash_le (cj_template e) = jt_prevhash_le (cj_template cur)"
      using c by (auto simp: channel_ok_def current_ok_def)
    then show ?thesis unfolding current_ok_def frame(1) Some option.case look vals
      by (intro exI [of _ "upd cur"]) (auto simp: tmpl)
  qed
  then have "channel_ok J cfg n c'"
    using c d t entry by (auto simp: channel_ok_def keys frame vals)
  moreover have "map_option cj_template (map_of (ch_jobs c') i) = map_option cj_template (map_of (ch_jobs c) i)" for i
    by (cases "map_of (ch_jobs c) i") (simp_all add: look tmpl)
  ultimately show thesis using eq t frame by (intro that)
qed

text \<open>\<open>W\<close> does not matter here: a proposal is in range, its target is the one of the difficulty.\<close>

definition retarget_ok ::
  "(job_template \<Rightarrow> bool) \<Rightarrow> config \<Rightarrow> u32 \<Rightarrow> connection_state \<Rightarrow>
   (f64 \<times> bytes \<times> string \<times> job_template option) option \<Rightarrow> bool" where
  "retarget_ok J cfg i st r \<longleftrightarrow>
     (\<forall>d t w tmpl. r = Some (d, t, w, tmpl) \<longrightarrow>
        diff_range cfg d \<and> share_target_le d = Inr t \<and>
        (\<exists>c. map_of (c2_channels st) i = Some c \<and>
           (\<forall>job. tmpl = Some job \<longrightarrow> J job \<and> same_block c job)))"

lemma retarget_channel_state_ok:
  assumes X: "libm_ok X" and cfg: "difficulty_ok cfg" and st: "state_ok J cfg st" "c2_setup_complete st"
  obtains r st' where "retarget_channel_state X i sd now st = Some (r, st')"
    and "state_ok J cfg st'" and "c2_setup_complete st'" and "retarget_ok J cfg i st' r"
proof (cases "map_of (c2_channels st) i")
  case None
  then show thesis using st by (intro that [of None st]) (simp_all add: retarget_channel_state_def retarget_ok_def)
next
  case (Some c)
  let ?n = "version_rolling_negotiated st"
  have c: "channel_ok J cfg ?n c" by (rule state_ok_lookup [OF st(1) Some])
  define c1 where "c1 = (case sd of None \<Rightarrow> c | Some d \<Rightarrow> c\<lparr>ch_vardiff := vd_record_share (now, d) (ch_vardiff c)\<rparr>)"
  have c1: "channel_ok J cfg ?n c1"
    using c vardiff_for_share by (auto simp: c1_def channel_ok_def split: option.split)
  then have vf: "vardiff_for cfg (ch_vardiff c1)" by (simp add: channel_ok_def)
  obtain p v where p: "maybe_retarget X (ch_vardiff c1) (ch_difficulty c1) now = Some (p, v)" "vardiff_for cfg v"
    using vardiff_for_retarget [OF X vf] by blast
  define c2 where "c2 = c1\<lparr>ch_vardiff := v\<rparr>"
  have c2: "channel_ok J cfg ?n c2"
    using c1 p(2) by (simp add: c2_def channel_ok_vardiff)
  show thesis
  proof (cases p)
    case None
    then have "retarget_channel_state X i sd now st = Some (None, update_channel i c2 st)"
      using Some p(1) by (simp add: retarget_channel_state_def c1_def [symmetric] c2_def [symmetric])
    then show thesis by (rule that) (use st c2 in \<open>auto intro: update_channel_ok simp: retarget_ok_def\<close>)
  next
    case (Some d)
    have d: "diff_range cfg d"
      by (rule vardiff_for_range [OF X vf cfg p(1) [unfolded Some]])
    obtain t c3 where c3: "set_channel_difficulty d c2 = Inr (t, c3)" "channel_ok J cfg ?n c3"
      "share_target_le d = Inr t" "ch_worker c3 = ch_worker c2"
      and cur: "ch_current_job_id c3 = ch_current_job_id c2"
      "\<And>j. map_option cj_template (map_of (ch_jobs c3) j) = map_option cj_template (map_of (ch_jobs c2) j)"
      using set_channel_difficulty_ok [OF cfg d c2] by metis
    define tmpl where "tmpl = map_option cj_template (Option.bind (ch_current_job_id c2) (map_of (ch_jobs c2)))"
    have eq: "retarget_channel_state X i sd now st =
        Some (Some (d, t, ch_worker c3, tmpl), update_channel i c3 st)"
      using \<open>map_of (c2_channels st) i = Some c\<close> p(1) Some c3(1)
      by (simp add: retarget_channel_state_def c1_def [symmetric] c2_def [symmetric] tmpl_def)
    have "J job \<and> same_block c3 job" if tm: "tmpl = Some job" for job
    proof -
      obtain j e where j: "ch_current_job_id c2 = Some j" "map_of (ch_jobs c2) j = Some e" "cj_template e = job"
        using tm by (cases "ch_current_job_id c2") (auto simp: tmpl_def)
      moreover from this cur(2) [of j] obtain e' where "map_of (ch_jobs c3) j = Some e'" "cj_template e' = job"
        by auto
      moreover have "J job" using channel_ok_lookup [OF c2 j(2)] j(3) by (simp add: channel_job_ok_def)
      ultimately show ?thesis by (auto simp: same_block_def cur(1))
    qed
    then have "retarget_ok J cfg i (update_channel i c3 st) (Some (d, t, ch_worker c3, tmpl))"
      using d c3(3) by (auto simp: retarget_ok_def update_conv')
    with eq c3(2) st show thesis by (intro that) (auto intro: update_channel_ok)
  qed
qed

subsection \<open>Every run of a connection\<close>

definition session_inv :: "(job_template \<Rightarrow> bool) \<Rightarrow> config \<Rightarrow> connection_state option \<Rightarrow> bool" where
  "session_inv J cfg s \<longleftrightarrow> (\<forall>st. s = Some st \<longrightarrow> state_ok J cfg st)"

text \<open>
  The messages a connection may send: targets of difficulties in range, jobs of templates, whose
  versions may be rolled only in bits that the template does not require.
\<close>

definition target_ok :: "config \<Rightarrow> bytes \<Rightarrow> bool" where
  "target_ok cfg t \<longleftrightarrow> (\<exists>d. diff_range cfg d \<and> share_target_le d = Inr t)"

fun v2_msg_ok :: "(job_template \<Rightarrow> bool) \<Rightarrow> config \<Rightarrow> sv2_msg \<Rightarrow> bool" where
  "v2_msg_ok J cfg (SetupConnectionSuccess v flags) \<longleftrightarrow> v = SV2_VERSION \<and> unsupported_mining_flags flags = 0"
| "v2_msg_ok J cfg (OpenExtendedMiningChannelSuccess r c t sz prefix g) \<longleftrightarrow>
     target_ok cfg t \<and> sz = word_of_nat (extranonce2_size cfg) \<and> length prefix = extranonce1_size cfg"
| "v2_msg_ok J cfg (SetTarget c t) \<longleftrightarrow> target_ok cfg t"
| "v2_msg_ok J cfg (NewExtendedMiningJob c i ntime version rolling path cb1 cb2) \<longleftrightarrow>
     (\<exists>job. J job \<and> version = jt_version_u32 job \<and> path = jt_merkle_branches_le job \<and>
        cb1 = jt_coinbase1_bytes job \<and> cb2 = jt_coinbase2_bytes job \<and>
        (ntime = None \<or> ntime = Some (sv2_min_ntime job)) \<and>
        (rolling \<longrightarrow> version_mask_for_job job \<noteq> 0))"
| "v2_msg_ok J cfg (SetNewPrevHash c i prev ntime nbits) \<longleftrightarrow>
     (\<exists>job. J job \<and> prev = jt_prevhash_le_bytes job \<and> ntime = sv2_min_ntime job \<and> nbits = jt_nbits_u32 job)"
| "v2_msg_ok J cfg m \<longleftrightarrow> True"

abbreviation v2_safe :: "(job_template \<Rightarrow> bool) \<Rightarrow> config \<Rightarrow> connection_state option \<Rightarrow> v2_prog \<Rightarrow> bool" where
  "v2_safe J cfg \<equiv> safe (session_inv J cfg) (\<lambda>_ _. True) (\<lambda>_. v2_msg_ok J cfg) (v1_env J)"

text \<open>A continuation that every good state may be given to.\<close>

definition cont_ok :: "(job_template \<Rightarrow> bool) \<Rightarrow> config \<Rightarrow> v2_cont \<Rightarrow> bool" where
  "cont_ok J cfg k \<longleftrightarrow> (\<forall>st s. state_ok J cfg st \<longrightarrow> c2_setup_complete st \<longrightarrow> v2_safe J cfg s (k st))"

lemma cont_okD: "cont_ok J cfg k \<Longrightarrow> state_ok J cfg st \<Longrightarrow> c2_setup_complete st \<Longrightarrow> v2_safe J cfg s (k st)"
  by (simp add: cont_ok_def)

interpretation v2: rely_guarantee "session_inv J cfg" "\<lambda>_ _. True" "\<lambda>_. v2_msg_ok J cfg"
  by unfold_locales simp_all

lemma close_safe [intro]: "v2_safe J cfg s close"
  by (auto simp: close_def session_inv_def intro!: safe.Locked safe.Return)

lemma keep_safe: "state_ok J cfg st \<Longrightarrow> v2_safe J cfg s (keep st)"
  by (auto simp: keep_def session_inv_def intro!: safe.Locked safe.Return)

lemma keep_cont_ok: "cont_ok J cfg keep"
  by (simp add: cont_ok_def keep_safe)

lemma write_message_safe [intro]:
  "v2_msg_ok J cfg m \<Longrightarrow> v2_safe J cfg s p \<Longrightarrow> v2_safe J cfg s (write_message m p)"
  by (auto simp: write_message_def intro!: safe.Send)

lemma write_code_safe:
  "v2_msg_ok J cfg (m code) \<Longrightarrow> v2_safe J cfg s p \<Longrightarrow> v2_safe J cfg s (write_code W m code p)"
  by (auto simp: write_code_def)

lemma send_error_safe [intro]:
  "v2_safe J cfg s p \<Longrightarrow> v2_safe J cfg s (send_setup_error W f code p)"
  "v2_safe J cfg s p \<Longrightarrow> v2_safe J cfg s (send_submit_error W i n code p)"
  "v2_safe J cfg s p \<Longrightarrow> v2_safe J cfg s (send_update_channel_error W i code p)"
  by (auto simp: send_setup_error_def send_submit_error_def send_update_channel_error_def intro!: write_code_safe)

lemma supported_flags: "unsupported_mining_flags (flags AND SUPPORTED_MINING_FLAGS) = 0"
  unfolding unsupported_mining_flags_def by (rule bit_word_eqI) (auto simp: bit_and_iff bit_not_iff)

lemma handle_setup_connection_safe:
  assumes "state_ok J cfg st" and "\<not> c2_setup_complete st"
  shows "v2_safe J cfg s (handle_setup_connection W frame st)"
proof -
  have "state_ok J cfg (st\<lparr>c2_setup_complete := True, c2_negotiated_flags := f AND SUPPORTED_MINING_FLAGS,
      c2_downstream_user_agent := ua\<rparr>)" for f ua
    using assms supported_flags by (auto simp: state_ok_def window_ok_def)
  then show ?thesis
    by (auto simp: handle_setup_connection_def decide_setup_def supported_flags Let_def
      split: sum.split intro!: write_message_safe safe_Count keep_safe)
qed

lemma channel_target_ok: "channel_ok J cfg n c \<Longrightarrow> target_ok cfg (ch_share_target_le c)"
  by (auto simp: channel_ok_def target_ok_def)

text \<open>A job may be sent to a channel when it is clean or on the block of the channel's current job.\<close>

lemma send_job_to_channel_safe:
  assumes st: "state_ok J cfg st" "c2_setup_complete st" and J: "J job" and k: "cont_ok J cfg k"
    and block: "\<And>c. map_of (c2_channels st) i = Some c \<Longrightarrow> clean \<or> same_block c job"
  shows "v2_safe J cfg s (send_job_to_channel W i job clean st k)"
proof -
  obtain job_id st1 where a: "allocate_job_id st = (job_id, st1)" by fastforce
  have st1: "state_ok J cfg st1" "c2_setup_complete st1" "c2_channels st1 = c2_channels st"
    using allocate_ok(2) [OF st(1)] allocate_frame(2,4) [of st] st(2) by (simp_all add: a)
  let ?n = "version_rolling_negotiated st1"
  show ?thesis
  proof (cases "map_of (c2_channels st1) i")
    case None
    then show ?thesis by (auto simp: send_job_to_channel_def a)
  next
    case (Some c)
    have msgs: "v2_msg_ok J cfg (NewExtendedMiningJob i job_id (new_extended_job_min_ntime clean job)
        (jt_version_u32 job) (?n \<and> version_mask_for_job job \<noteq> 0) (jt_merkle_branches_le job)
        (jt_coinbase1_bytes job) (jt_coinbase2_bytes job))"
      "v2_msg_ok J cfg (SetNewPrevHash i job_id (jt_prevhash_le_bytes job) (sv2_min_ntime job) (jt_nbits_u32 job))"
      using J by (auto simp: new_extended_job_min_ntime_def)
    have c1: "channel_ok J cfg ?n (add_channel_job rd (rd_now rd) ?n job clean job_id c)" for rd
      by (rule add_channel_job_ok [OF state_ok_lookup [OF st1(1) Some] J]) (use block Some st1(3) in simp)
    moreover have "v2_safe J cfg s (k (update_channel i c' st1))" if "channel_ok J cfg ?n c'" for c'
      using cont_okD [OF k update_channel_ok [OF st1(1) that st1(2)]] st1(2) by simp
    ultimately show ?thesis
      using msgs channel_target_ok [OF c1]
      unfolding send_job_to_channel_def a prod.case Some option.case Let_def
      by (auto intro!: safe.Read write_message_safe safe_Count simp del: v2_msg_ok.simps(4,5) split: if_splits)
  qed
qed

lemma send_job_to_channels_safe:
  assumes J: "J job" and k: "cont_ok J cfg k" and st: "state_ok J cfg st" "c2_setup_complete st"
  shows "v2_safe J cfg s (send_job_to_channels W job force_clean ids st k)"
  using st
proof (induction ids arbitrary: st s)
  case Nil
  then show ?case using k by (simp add: cont_okD)
next
  case (Cons i ids)
  have "cont_ok J cfg (\<lambda>st. send_job_to_channels W job force_clean ids st k)"
    using Cons.IH by (simp add: cont_ok_def)
  with Cons J show ?case
    by (auto simp: Let_def split: option.split intro!: send_job_to_channel_safe not_clean_same_block)
qed

lemma send_job_to_all_channels_safe:
  assumes "J job" and "cont_ok J cfg k" and "state_ok J cfg st" and "c2_setup_complete st"
  shows "v2_safe J cfg s (send_job_to_all_channels W job force_clean st k)"
  using assms by (auto simp: send_job_to_all_channels_def intro!: safe.Read send_job_to_channels_safe)

text \<open>A configuration that was validated gives every channel a difficulty in range.\<close>

lemma sv2_initial_difficulty_range:
  assumes "difficulty_ok cfg"
  obtains d where "sv2_initial_difficulty cfg rate = Some d" and "diff_range cfg d"
proof -
  have "sv2_suggested_initial_difficulty = suggested_initial_difficulty"
    by (intro ext) (simp add: sv2_suggested_initial_difficulty_def suggested_initial_difficulty_def)
  then show thesis
    using suggested_range [OF assms] that by (metis sv2_initial_difficulty_def)
qed

lemma channel_new_ok:
  assumes "difficulty_ok cfg" and "diff_range cfg d" and "share_target_le d = Inr t"
    and "length prefix = extranonce1_size cfg"
  shows "channel_ok J cfg n (channel_new cfg w prefix (extranonce2_size cfg) d t now)"
proof -
  have "vd_ok (vardiff_new now (target_share_time_secs cfg) (vardiff_retarget_time_secs cfg)
      (min_difficulty cfg) (max_difficulty cfg))"
    using assms(1) by (intro vardiff_new_ok) (simp_all add: difficulty_ok_def)
  then have "vardiff_for cfg (vardiff_new now (target_share_time_secs cfg) (vardiff_retarget_time_secs cfg)
      (min_difficulty cfg) (max_difficulty cfg))"
    by (simp add: vardiff_for_def) (simp add: vardiff_new_def Let_def)
  with assms(2-4) show ?thesis by (simp add: channel_ok_def channel_new_def current_ok_def)
qed

lemma handle_open_extended_channel_safe:
  assumes cfg: "difficulty_ok cfg" and st: "state_ok J cfg st" "c2_setup_complete st" and k: "cont_ok J cfg k"
  shows "v2_safe J cfg s (handle_open_extended_channel X W cfg request st k)"
proof -
  obtain i st1 where a: "allocate_channel_id st = (i, st1)" by fastforce
  have st1: "state_ok J cfg st1" "c2_setup_complete st1"
    using allocate_ok(1) [OF st(1)] allocate_frame(3) [of st] st(2) by (simp_all add: a)
  obtain d where d: "sv2_initial_difficulty cfg (oe_nominal_hash_rate request) = Some d" "diff_range cfg d"
    by (rule sv2_initial_difficulty_range [OF cfg])
  obtain t where t: "share_target_le d = Inr t" using diff_range_target [OF cfg d(2)] by blast
  let ?c = "\<lambda>rd. channel_new cfg (sv2_worker_label (c2_downstream_user_agent st1)
      (sv2_session_id X (random_bytes rd (extranonce1_size cfg)))) (random_bytes rd (extranonce1_size cfg))
    (extranonce2_size cfg) d t (rd_now rd)"
  have c: "channel_ok J cfg n (?c rd)" for n rd
    by (rule channel_new_ok [OF cfg d(2) t]) (simp add: random_bytes_def)
  have ok: "state_ok J cfg (update_channel i (?c rd) st1)" for rd
    by (rule update_channel_ok [OF st1(1) c st1(2)])
  have msg: "v2_msg_ok J cfg (OpenExtendedMiningChannelSuccess r i t (word_of_nat (extranonce2_size cfg))
      (random_bytes rd (extranonce1_size cfg)) 0)" for r rd
    using d(2) t by (auto simp: target_ok_def random_bytes_def)
  have fin: "v2_safe J cfg u (k (update_channel i (?c rd) st1))" for u rd
    by (rule cont_okD [OF k ok]) (simp add: st1)
  have job: "v2_safe J cfg u (send_job_to_channel W i (rd_current rd') True (update_channel i (?c rd) st1) k)"
    if "v1_env J rd'" for u rd rd'
    by (rule send_job_to_channel_safe [OF ok _ _ k]) (use that st1 in \<open>simp_all add: v1_env_def\<close>)
  show ?thesis
    unfolding handle_open_extended_channel_def a prod.case Let_def d(1) t option.case sum.case
      fixed_sv2_extranonce_size_def
    using msg fin job cont_okD [OF k st]
    by (auto intro!: safe.Read write_message_safe safe_Count safe_Metric simp del: v2_msg_ok.simps(2)
      split: option.split)
qed

lemma retarget_one_safe:
  assumes X: "libm_ok X" and cfg: "difficulty_ok cfg" and st: "state_ok J cfg st" "c2_setup_complete st"
    and k: "cont_ok J cfg k"
  shows "v2_safe J cfg s (retarget_one X W i sd now st k)"
proof -
  obtain r st' where r: "retarget_channel_state X i sd now st = Some (r, st')" "state_ok J cfg st'"
    "c2_setup_complete st'" "retarget_ok J cfg i st' r"
    by (rule retarget_channel_state_ok [OF X cfg st])
  show ?thesis
  proof (cases r)
    case None
    then show ?thesis using r k by (simp add: retarget_one_def cont_okD)
  next
    case (Some q)
    obtain d t w tmpl where q: "q = (d, t, w, tmpl)" by (cases q)
    with r(4) Some have ok: "diff_range cfg d" "share_target_le d = Inr t"
      "\<And>job. tmpl = Some job \<Longrightarrow> J job"
      "\<And>job c. tmpl = Some job \<Longrightarrow> map_of (c2_channels st') i = Some c \<Longrightarrow> same_block c job"
      by (auto simp: retarget_ok_def)
    have "v2_safe J cfg u (case tmpl of None \<Rightarrow> k st' | Some job \<Rightarrow> send_job_to_channel W i job False st' k)" for u
      using ok r k by (auto simp: cont_okD split: option.split intro!: send_job_to_channel_safe)
    moreover have "v2_msg_ok J cfg (SetTarget i t)" using ok by (auto simp: target_ok_def)
    ultimately show ?thesis
      by (auto simp: retarget_one_def r(1) Some q send_channel_retarget_def send_channel_target_def
        simp del: v2_msg_ok.simps intro!: write_message_safe safe_Metric)
  qed
qed

lemma maybe_retarget_channel_safe:
  assumes "libm_ok X" and "difficulty_ok cfg" and "state_ok J cfg st" and "c2_setup_complete st" and "cont_ok J cfg k"
  shows "v2_safe J cfg s (maybe_retarget_channel X W cfg i d now st k)"
  using assms by (auto simp: maybe_retarget_channel_def cont_okD intro!: retarget_one_safe)

lemma retarget_all_channels_safe:
  assumes X: "libm_ok X" and cfg: "difficulty_ok cfg" and st: "state_ok J cfg st" "c2_setup_complete st"
    and k: "cont_ok J cfg k"
  shows "v2_safe J cfg s (retarget_all_channels X W cfg now st k)"
proof -
  have "v2_safe J cfg s (retarget_channels X W now ids st k)" for ids
    using st
  proof (induction ids arbitrary: st s)
    case Nil
    then show ?case using k by (simp add: cont_okD)
  next
    case (Cons i ids)
    have "cont_ok J cfg (\<lambda>st. retarget_channels X W now ids st k)" using Cons.IH by (simp add: cont_ok_def)
    with Cons.prems show ?case by (auto intro!: retarget_one_safe X cfg)
  qed
  then show ?thesis using st k by (auto simp: retarget_all_channels_def cont_okD intro!: safe.Read)
qed

lemma v2_submission_task_safe: "v2_safe J cfg s (submission_task b event)"
  by (auto simp: submission_task_def Let_def split: prod.split intro!: safe.SubmitBlock safe_Metric safe.Return)

lemma submit_block_candidate_safe:
  "v2_safe J cfg s p \<Longrightarrow> v2_safe J cfg s (submit_block_candidate w e r p)"
  by (auto simp: submit_block_candidate_def Let_def split: option.split
    intro!: safe_Metric safe.Spawn v2_submission_task_safe)

lemma record_and_submit_safe:
  assumes "libm_ok X" and "difficulty_ok cfg" and "state_ok J cfg st" and "c2_setup_complete st" and "cont_ok J cfg k"
  shows "v2_safe J cfg s (record_and_submit X W cfg submit w e r acc st k)"
proof -
  have "cont_ok J cfg (\<lambda>st. if res_is_block r then
      Count inc_sv2_block_found (submit_block_candidate w e r (k st)) else k st)"
    using assms(5) by (auto simp: cont_ok_def intro!: submit_block_candidate_safe)
  from cont_okD [OF this assms(3,4)] maybe_retarget_channel_safe [OF assms(1-4) this] show ?thesis
    by (auto simp: record_and_submit_def Let_def intro!: safe.Read safe_Metric)
qed

lemma refuse_share_safe: "v2_safe J cfg s p \<Longrightarrow> v2_safe J cfg s (refuse_share W submit code p)"
  by (auto simp: refuse_share_def)

lemma handle_submit_extended_safe:
  assumes X: "libm_ok X" and cfg: "difficulty_ok cfg" and st: "state_ok J cfg st" "c2_setup_complete st"
    and k: "cont_ok J cfg k"
  shows "v2_safe J cfg s (handle_submit_extended X W cfg submit st k)"
proof -
  have check: "v2_safe J cfg s (check_share_v2 X W cfg submit w e v st' k)"
    if "state_ok J cfg st'" "c2_setup_complete st'" for st' w e v
    using record_and_submit_safe [OF X cfg that k]
    by (auto simp: check_share_v2_def Let_def split: sum.split
      intro!: safe.Read write_message_safe safe_Count close_safe send_error_safe)
  have "v2_safe J cfg s (case remember_share key st of (is_new, st) \<Rightarrow>
      if \<not> is_new then Count f (refuse_share W submit code (k st))
      else check_share_v2 X W cfg submit w e v st k)" for key f code w e v
    using check [of "snd (remember_share key st)"] remember_share_state_ok [OF st(1), of key] st(2) k
    by (auto simp: split_beta cont_okD intro!: refuse_share_safe)
  then show ?thesis
    using cont_okD [OF k st]
    by (auto simp: handle_submit_extended_def split: option.split intro!: refuse_share_safe safe_Count)
qed

lemma close_channel_ok:
  "state_ok J cfg st \<Longrightarrow> state_ok J cfg (st\<lparr>c2_channels := AList.delete i (c2_channels st)\<rparr>)"
  by (auto simp: state_ok_def window_ok_def version_rolling_negotiated_def AList.delete_eq distinct_map_filter)

lemma handle_frame_safe:
  assumes X: "libm_ok X" and cfg: "difficulty_ok cfg" and st: "state_ok J cfg st" "c2_setup_complete st"
    and k: "cont_ok J cfg k"
  shows "v2_safe J cfg s (handle_frame X W cfg frame st k)"
proof -
  note go = cont_okD [OF k st]
  have closed: "v2_safe J cfg s (k (st\<lparr>c2_channels := AList.delete i (c2_channels st)\<rparr>))" for i
    by (rule cont_okD [OF k close_channel_ok [OF st(1)]]) (simp add: st)
  have "v2_safe J cfg s (case w_decode_open W payload of Inl err \<Rightarrow> close
      | Inr request \<Rightarrow> handle_open_extended_channel X W cfg request st k)" for payload
    by (auto split: sum.split intro!: close_safe handle_open_extended_channel_safe [OF cfg st k])
  moreover have "v2_safe J cfg s (case w_decode_submit W payload of Inl err \<Rightarrow> close
      | Inr submit \<Rightarrow> handle_submit_extended X W cfg submit st k)" for payload
    by (auto split: sum.split intro!: close_safe handle_submit_extended_safe [OF X cfg st k])
  moreover have "v2_safe J cfg s (Count f close)" "v2_safe J cfg s (Count f (k st))" for f
    using go by (auto intro: safe_Count close_safe)
  ultimately show ?thesis
    using go closed
    by (simp add: handle_frame_def Let_def safe_Count write_code_safe send_error_safe split_beta)
qed

lemma run_turn_safe:
  assumes X: "libm_ok X" and cfg: "difficulty_ok cfg" and event: "\<And>job. event = Template job \<Longrightarrow> J job"
  shows "v2_safe J cfg s (run_turn X W cfg event)"
proof -
  note k = keep_cont_ok
  have "v2_safe J cfg s (handle_event X W cfg event st)" if st: "state_ok J cfg st" "c2_setup_complete st" for st s
  proof (cases event)
    case (Frame frame)
    then show ?thesis by (simp add: handle_event_def handle_frame_safe [OF X cfg st k])
  next
    case (Template job)
    then show ?thesis using event by (simp add: handle_event_def safe.Return send_job_to_all_channels_safe [OF _ k st])
  next
    case VardiffTick
    then show ?thesis
      by (auto simp: handle_event_def intro!: safe.Read retarget_all_channels_safe [OF X cfg st k])
  qed (auto simp: handle_event_def)
  then show ?thesis
    unfolding run_turn_def
    by (auto simp: session_inv_def handle_setup_connection_safe safe.Return
      split: option.split connection_event.split intro!: safe.Load)
qed

lemma v2_starts_safe:
  assumes "libm_ok X" and "difficulty_ok cfg" and "v2_starts X W cfg J i p"
  shows "v2_safe J cfg s p"
  using assms(3) by cases (auto intro: run_turn_safe [OF assms(1,2)])

lemma v2_reachable_ok:
  assumes "libm_ok X" and "difficulty_ok cfg"
    and "(task_step (v1_env J) (v2_starts X W cfg J))\<^sup>*\<^sup>* (v2_open sh, v2_tasks) (c, ts)"
  shows "session_inv J cfg (cn_session c)" and "Panic \<notin> set ts"
    and "m \<in> set (cn_sent c) \<Longrightarrow> v2_msg_ok J cfg m"
proof -
  have "v2.conn_ok J cfg (v1_env J) (v2_open sh, v2_tasks)"
    by (auto simp: v2.conn_ok_def v2_open_def v2_tasks_def session_inv_def state_ok_new intro: safe.Return)
  then have "v2.conn_ok J cfg (v1_env J) (c, ts)"
    using v2.task_steps_ok [OF _ assms(3)] v2_starts_safe [OF assms(1,2)] by blast
  then show "session_inv J cfg (cn_session c)" "Panic \<notin> set ts" "m \<in> set (cn_sent c) \<Longrightarrow> v2_msg_ok J cfg m"
    using v2.no_panic [of J cfg "v1_env J" "(c, ts)"] by (auto simp: v2.conn_ok_def)
qed

end
