(* ===== verification/Sv2_Properties.thy ===== *)
theory Sv2_Properties
  imports Sv2 Stratum_Properties
begin

text \<open>
  What a Stratum V2 connection promises: what an accepted share means, that every share is
  answered once, when a block goes to the node, how jobs are announced, and what holds of its
  state in every run.
\<close>

subsection \<open>Shares that are well formed\<close>

text \<open>A job whose transactions decode and whose coinbase is long enough to be split.\<close>

definition share_ready :: "externs \<Rightarrow> job_template \<Rightarrow> bool" where
  "share_ready X job \<longleftrightarrow>
     (\<exists>txs. map_result (hex_decode X) (jt_transactions job) = Inr txs) \<and>
     (jt_has_witness_commitment job \<longrightarrow> 8 \<le> length (jt_coinbase1_bytes job) + length (jt_coinbase2_bytes job))"

definition parsed_share_of :: "submit_shares_extended \<Rightarrow> parsed_share" where
  "parsed_share_of submit =
     \<lparr>ps_ntime = se_ntime submit, ps_extranonce2 = se_extranonce submit, ps_nonce = se_nonce submit\<rparr>"

lemma parse_fmt_08x [simp]: "parse_u32_be_hex (fmt_08x w) = Some w"
  by (simp add: parse_u32_be_hex_def)

lemma share_submit_of_parses:
  "hex_ok X \<Longrightarrow> parses X (share_submit_of X submit version) (parsed_share_of submit)"
  by (simp add: parses_def share_submit_of_def parsed_share_of_def trim_0x_hex_encode hex_ok_roundtrip)

lemma share_submit_of_version [simp]: "share_version job (share_submit_of X submit v) = v"
  by (simp add: share_version_def share_submit_of_def)

lemma build_block_hex_total:
  assumes "\<exists>txs. map_result (hex_decode X) txs_hex = Inr txs" and "w \<longrightarrow> 8 \<le> length cb"
  shows "\<exists>b. build_block_hex X header cb txs_hex w = Inr b"
proof -
  have "\<exists>ts. map_result (\<lambda>t. with_context ''decode transaction'' (hex_decode X t)) hs = Inr ts"
    if "map_result (hex_decode X) hs = Inr txs" for hs txs
    using that by (induction hs arbitrary: txs) (auto simp: rbind_Inr_iff)
  with assms show ?thesis
    by (auto simp: build_block_hex_def build_coinbase_with_witness_def Let_def rbind_Inr_iff)
qed

text \<open>The validation of a Stratum V2 share never fails: what the crate decoded always parses.\<close>

lemma validate_share_of_total:
  assumes X: "hex_ok X" and job: "share_ready X job"
  shows "\<exists>r. validate_share X secs job (jt_coinbase1_bytes job @ prefix) (share_submit_of X submit v) target None = Inr r"
proof (cases "time_ok secs job (ps_ntime (parsed_share_of submit))")
  case False
  have "parse_u32_be_hex (sub_ntime (share_submit_of X submit v)) = Some (ps_ntime (parsed_share_of submit))"
    by (simp add: share_submit_of_def parsed_share_of_def)
  from validate_share_time [OF this False] show ?thesis by blast
next
  case True
  have "\<exists>b. build_block_hex X header (share_coinbase job (jt_coinbase1_bytes job @ prefix) None (parsed_share_of submit))
      (jt_transactions job) (jt_has_witness_commitment job) = Inr b" for header
    by (rule build_block_hex_total) (use job in \<open>auto simp: share_ready_def share_coinbase_def\<close>)
  then show ?thesis
    unfolding validate_share_parsed [OF share_submit_of_parses [OF X] True] Let_def
    by (auto simp: rbind_Inr_iff)
qed

subsection \<open>Answers\<close>

fun is_share_answer :: "submit_shares_extended \<Rightarrow> sv2_msg \<Rightarrow> bool" where
  "is_share_answer submit (SubmitSharesSuccess c n k s) \<longleftrightarrow> c = se_channel_id submit \<and> n = se_sequence_number submit"
| "is_share_answer submit (SubmitSharesError c n e) \<longleftrightarrow> c = se_channel_id submit \<and> n = se_sequence_number submit"
| "is_share_answer submit m \<longleftrightarrow> False"

text \<open>The short codes of the source and of the crate fit a \<open>Str0255\<close>.\<close>

definition codes_fit :: "sv2_wire \<Rightarrow> bool" where
  "codes_fit W \<longleftrightarrow> (\<forall>s. length s \<le> 255 \<longrightarrow> w_str0255 W s) \<and>
     length (w_invalid_channel W) \<le> 255 \<and> length (w_invalid_job_id W) \<le> 255 \<and>
     length (w_difficulty_too_low W) \<le> 255"

text \<open>
  Only the handler of shares answers shares and starts tasks: everything else satisfies every \<open>P\<close>
  that holds of the other events.
\<close>

fun critical :: "(connection_state option, sv2_msg) happened \<Rightarrow> bool" where
  "critical (Sends (SubmitSharesSuccess c n k s) b) = True"
| "critical (Sends (SubmitSharesError c n e) b) = True"
| "critical (Spawns q) = True"
| "critical e = False"

definition calm :: "((connection_state option, sv2_msg) happened \<Rightarrow> bool) \<Rightarrow> bool" where
  "calm P \<longleftrightarrow> (\<forall>e. \<not> critical e \<longrightarrow> P e)"

lemma calmD: "calm P \<Longrightarrow> \<not> critical e \<Longrightarrow> P e"
  by (simp add: calm_def)

lemma calm_simps [simp]:
  "does_only P Return"
  "does_only P Panic"
  "calm P \<Longrightarrow> (\<forall>rd. does_only P (k rd)) \<Longrightarrow> does_only P (Read k)"
  "calm P \<Longrightarrow> (\<forall>s. does_only P (l s)) \<Longrightarrow> does_only P (Load l)"
  "calm P \<Longrightarrow> does_only P p \<Longrightarrow> does_only P (Metric h p)"
  "calm P \<Longrightarrow> does_only P p \<Longrightarrow> does_only P (Count g p)"
  "calm P \<Longrightarrow> does_only P close"
  "calm P \<Longrightarrow> does_only P (keep st)"
  by (simp_all add: does_only_simps does_only_counters close_def keep_def calmD)

lemma write_message_only [simp]:
  "calm P \<Longrightarrow> (\<forall>b. P (Sends m b)) \<Longrightarrow> does_only P p \<Longrightarrow> does_only P (write_message m p)"
  by (simp add: write_message_def does_only_simps)

lemma write_code_only [simp]:
  "calm P \<Longrightarrow> (\<forall>b. P (Sends (m code) b)) \<Longrightarrow> does_only P p \<Longrightarrow> does_only P (write_code W m code p)"
  by (simp add: write_code_def)

lemma send_errors_only [simp]:
  "calm P \<Longrightarrow> does_only P p \<Longrightarrow> does_only P (send_setup_error W f code p)"
  "calm P \<Longrightarrow> does_only P p \<Longrightarrow> does_only P (send_update_channel_error W i code p)"
  "calm P \<Longrightarrow> (\<forall>b. P (Sends (SubmitSharesError i n code) b)) \<Longrightarrow> does_only P p \<Longrightarrow>
   does_only P (send_submit_error W i n code p)"
  "calm P \<Longrightarrow> (\<forall>b. P (Sends (SubmitSharesError (se_channel_id submit) (se_sequence_number submit) code) b)) \<Longrightarrow>
   does_only P p \<Longrightarrow> does_only P (refuse_share W submit code p)"
  by (simp_all add: send_setup_error_def send_update_channel_error_def send_submit_error_def refuse_share_def calmD)

definition conts_only :: "((connection_state option, sv2_msg) happened \<Rightarrow> bool) \<Rightarrow> v2_cont \<Rightarrow> bool" where
  "conts_only P k \<longleftrightarrow> (\<forall>st. does_only P (k st))"

lemma send_job_to_channel_only [simp]:
  "calm P \<Longrightarrow> conts_only P k \<Longrightarrow> does_only P (send_job_to_channel W i job clean st k)"
  by (simp add: send_job_to_channel_def conts_only_def calmD Let_def split: prod.split option.split)

lemma send_job_to_channels_only [simp]:
  "calm P \<Longrightarrow> conts_only P k \<Longrightarrow> does_only P (send_job_to_channels W job f ids st k)"
proof (induction ids arbitrary: st)
  case (Cons i ids)
  then have "conts_only P (\<lambda>st. send_job_to_channels W job f ids st k)" by (simp add: conts_only_def)
  with Cons show ?case by (simp add: Let_def split: option.split)
qed (simp add: conts_only_def)

lemma retarget_one_only [simp]:
  "calm P \<Longrightarrow> conts_only P k \<Longrightarrow> does_only P (retarget_one X W i d now st k)"
  by (auto simp: retarget_one_def send_channel_retarget_def send_channel_target_def conts_only_def calmD
    split: option.split prod.split)

lemma retarget_channels_only [simp]:
  "calm P \<Longrightarrow> conts_only P k \<Longrightarrow> does_only P (retarget_channels X W now ids st k)"
proof (induction ids arbitrary: st)
  case (Cons i ids)
  then have "conts_only P (\<lambda>st. retarget_channels X W now ids st k)" by (simp add: conts_only_def)
  with Cons show ?case by simp
qed (simp add: conts_only_def)

lemma handle_open_only [simp]:
  "calm P \<Longrightarrow> conts_only P k \<Longrightarrow> does_only P (handle_open_extended_channel X W cfg request st k)"
  by (simp add: handle_open_extended_channel_def conts_only_def calmD Let_def
    split: option.split sum.split prod.split)

lemma record_and_submit_only:
  assumes "calm P" and "conts_only P k"
    and "\<And>b ev. res_is_block r \<Longrightarrow> res_block_hex r = Some (su_block_hex b) \<Longrightarrow> su_block_hash b = res_hash_hex r \<Longrightarrow>
      su_template_key b = jt_template_key (cj_template e) \<Longrightarrow> P (Spawns (submission_task b ev))"
  shows "does_only P (record_and_submit X W cfg submit w e r acc st k)"
proof -
  have "does_only P (submit_block_candidate w e r p)" if "does_only P p" "res_is_block r" for p
    using that assms by (auto simp: submit_block_candidate_def does_only_simps Let_def split: option.split)
  then have "conts_only P (\<lambda>st. if res_is_block r then
      Count inc_sv2_block_found (submit_block_candidate w e r (k st)) else k st)"
    using assms(1,2) by (simp add: conts_only_def)
  with assms(1) show ?thesis
    by (simp add: record_and_submit_def maybe_retarget_channel_def conts_only_def Let_def)
qed

lemma keep_only [simp]: "calm P \<Longrightarrow> conts_only P keep"
  by (simp add: conts_only_def)

lemma critical_answer: "is_share_answer submit m \<Longrightarrow> critical (Sends m b)"
  by (cases m) auto

lemma calm_no_answer: "calm (\<lambda>e. \<forall>m b. e = Sends m b \<longrightarrow> \<not> is_share_answer submit m)"
  using critical_answer by (auto simp: calm_def)

lemma record_and_submit_none: "sends_none (is_share_answer submit) (record_and_submit X W cfg submit' w e r acc st keep)"
proof (rule does_only_sends_none)
  show "does_only (\<lambda>e. \<forall>m b. e = Sends m b \<longrightarrow> \<not> is_share_answer submit m)
      (record_and_submit X W cfg submit' w e r acc st keep)"
    by (rule record_and_submit_only [OF calm_no_answer keep_only [OF calm_no_answer]]) simp
qed

lemma close_none: "sends_none P close"
  unfolding close_def by (intro sends_none.intros) (simp add: sends_none.intros)

lemma keep_none: "sends_none P (keep st)"
  unfolding keep_def by (intro sends_none.intros) (simp add: sends_none.intros)

lemma write_message_once: "P m \<Longrightarrow> sends_none P p \<Longrightarrow> sends_once P (write_message m p)"
  by (auto simp: write_message_def intro!: sends_once_derived close_none)

lemma refuse_share_once:
  assumes "codes_fit W" and "length code \<le> 255" and "sends_none (is_share_answer submit) p"
  shows "sends_once (is_share_answer submit) (refuse_share W submit code p)"
  using assms
  by (auto simp: refuse_share_def send_submit_error_def write_code_def codes_fit_def
    intro!: sends_once_derived write_message_once)

lemma handle_submit_extended_once:
  assumes X: "hex_ok X" and W: "codes_fit W"
    and st: "state_ok J cfg st" and J: "\<And>job. J job \<Longrightarrow> share_ready X job"
  shows "sends_once (is_share_answer submit) (handle_submit_extended X W cfg submit st keep)"
proof -
  note codes = W [unfolded codes_fit_def]
  note refuse = refuse_share_once [OF W _ keep_none]
  have check: "sends_once (is_share_answer submit) (check_share_v2 X W cfg submit w e v st' keep)"
    if "channel_job_ok J cfg n prefix e" for w e v st' n prefix
  proof -
    have "\<exists>r. validate_share X secs (cj_template e) (cj_coinbase_prefix e) (share_submit_of X submit v)
        (cj_share_target_le e) None = Inr r" for secs
      using that validate_share_of_total [OF X J, of "cj_template e"] by (simp add: channel_job_ok_def)
    then obtain f where f: "validate_share X secs (cj_template e) (cj_coinbase_prefix e) (share_submit_of X submit v)
        (cj_share_target_le e) None = Inr (f secs)" for secs
      by metis
    show ?thesis
      unfolding check_share_v2_def f sum.case Let_def
      using codes record_and_submit_none
      by (auto simp: send_submit_error_def write_code_def
        intro!: sends_once.intros(2) sends_once_derived write_message_once sends_none_derived)
  qed
  have new: "sends_once (is_share_answer submit) (case remember_share (build_dup_key_v2 submit v) st of (is_new, st) \<Rightarrow>
      if \<not> is_new then Count f (refuse_share W submit ''duplicate-share'' (keep st))
      else check_share_v2 X W cfg submit w e v st keep)"
    if "map_of (c2_channels st) i = Some c" "map_of (ch_jobs c) j = Some e" for f w e v i c j
    using check [OF channel_ok_lookup [OF state_ok_lookup [OF st that(1)] that(2)]]
    by (auto simp: split_beta intro!: sends_once_derived refuse)
  show ?thesis
    using codes by (auto simp: handle_submit_extended_def split: option.split intro!: sends_once_derived refuse new)
qed

subsection \<open>Accepted shares\<close>

text \<open>
  A share that the connection accepts in state \<open>st\<close>: its channel and job, the version it
  resolves to, a key that is new in the window, and a validation that accepts it.
\<close>

definition v2_share_checked ::
  "externs \<Rightarrow> submit_shares_extended \<Rightarrow> connection_state \<Rightarrow> channel_state \<Rightarrow> channel_job \<Rightarrow> u32 \<Rightarrow> share_result \<Rightarrow> bool" where
  "v2_share_checked X submit st c e version r \<longleftrightarrow>
     map_of (c2_channels st) (se_channel_id submit) = Some c \<and>
     length (se_extranonce submit) = ch_extranonce_size c \<and>
     map_of (ch_jobs c) (se_job_id submit) = Some e \<and>
     resolve_submitted_version e (se_version submit) = Some version \<and>
     build_dup_key_v2 submit version \<notin> c2_submitted st \<and>
     (\<exists>secs. validate_share X secs (cj_template e) (cj_coinbase_prefix e) (share_submit_of X submit version)
        (cj_share_target_le e) None = Inr r)"

text \<open>What the handler of shares may do in state \<open>st\<close> that other handlers may not.\<close>

definition v2_share_event ::
  "externs \<Rightarrow> submit_shares_extended \<Rightarrow> connection_state \<Rightarrow>
   (connection_state option, sv2_msg) happened \<Rightarrow> bool" where
  "v2_share_event X submit st ev \<longleftrightarrow>
     (\<forall>c n k s b. ev = Sends (SubmitSharesSuccess c n k s) b \<longrightarrow>
        c = se_channel_id submit \<and> n = se_sequence_number submit \<and>
        (\<exists>c e version r. v2_share_checked X submit st c e version r \<and> (res_accepted r \<or> res_is_block r))) \<and>
     (\<forall>q. ev = Spawns q \<longrightarrow>
        (\<exists>c e version r b bev. v2_share_checked X submit st c e version r \<and> res_is_block r \<and>
           q = submission_task b bev \<and> res_block_hex r = Some (su_block_hex b) \<and>
           su_block_hash b = res_hash_hex r \<and> su_template_key b = jt_template_key (cj_template e)))"

lemma calm_share_event: "calm (v2_share_event X submit st)"
  by (auto simp: calm_def v2_share_event_def)

lemma v2_share_event_success:
  assumes "v2_share_event X submit st (Sends (SubmitSharesSuccess c n k s) b)"
  obtains ch e v r where "c = se_channel_id submit" and "n = se_sequence_number submit"
    and "v2_share_checked X submit st ch e v r" and "res_accepted r \<or> res_is_block r"
proof -
  have "c = se_channel_id submit \<and> n = se_sequence_number submit \<and>
      (\<exists>c e version r. v2_share_checked X submit st c e version r \<and> (res_accepted r \<or> res_is_block r))"
    using assms unfolding v2_share_event_def by simp
  then show thesis using that by (elim conjE exE) simp
qed

lemma v2_share_event_spawn:
  assumes "v2_share_event X submit st (Spawns q)"
  obtains ch e v r b bev where "v2_share_checked X submit st ch e v r" and "res_is_block r"
    and "q = submission_task b bev" and "res_block_hex r = Some (su_block_hex b)"
    and "su_block_hash b = res_hash_hex r" and "su_template_key b = jt_template_key (cj_template e)"
proof -
  have "\<exists>c e version r b bev. v2_share_checked X submit st c e version r \<and> res_is_block r \<and>
      q = submission_task b bev \<and> res_block_hex r = Some (su_block_hex b) \<and>
      su_block_hash b = res_hash_hex r \<and> su_template_key b = jt_template_key (cj_template e)"
    using assms unfolding v2_share_event_def by simp
  then show thesis using that by (elim conjE exE) simp
qed

lemma check_share_only:
  assumes "\<And>secs r. validate_share X secs (cj_template e) (cj_coinbase_prefix e) (share_submit_of X submit v)
      (cj_share_target_le e) None = Inr r \<Longrightarrow> v2_share_checked X submit st c e v r"
  shows "does_only (v2_share_event X submit st) (check_share_v2 X W cfg submit w e v st' keep)"
proof -
  have "does_only (v2_share_event X submit st) (record_and_submit X W cfg submit w e r acc st' keep)"
    if "v2_share_checked X submit st c e v r" for r acc
    using that by (intro record_and_submit_only) (simp_all add: calm_share_event v2_share_event_def, blast)
  moreover have "v2_share_event X submit st (Sends (SubmitSharesSuccess (se_channel_id submit)
      (se_sequence_number submit) n x) b)"
    if "v2_share_checked X submit st c e v r" "res_accepted r \<or> res_is_block r" for r n x b
    using that by (auto simp: v2_share_event_def)
  moreover have "v2_share_event X submit st (Sends (SubmitSharesError i n code) b)" for i n code b
    by (simp add: v2_share_event_def)
  ultimately show ?thesis
    unfolding check_share_v2_def
    using assms by (intro calm_simps calm_share_event allI) (auto simp: calm_share_event Let_def split: sum.split intro!: write_message_only, blast+)
qed

text \<open>The events that say that a share was accepted or that a task starts.\<close>

fun is_success :: "sv2_msg \<Rightarrow> bool" where
  "is_success (SubmitSharesSuccess c n k s) = True"
| "is_success m = False"

fun weighty :: "(connection_state option, sv2_msg) happened \<Rightarrow> bool" where
  "weighty (Sends m b) = is_success m"
| "weighty (Spawns q) = True"
| "weighty e = False"

lemma calm_weighty: "calm (\<lambda>ev. \<not> weighty ev)"
proof -
  have "critical ev" if "weighty ev" for ev
    using that by (cases ev rule: critical.cases) auto
  then show ?thesis by (auto simp: calm_def)
qed

lemma not_weighty: "does_only (\<lambda>ev. \<not> weighty ev) p \<Longrightarrow> task_trace p es \<Longrightarrow> ev \<in> set es \<Longrightarrow> weighty ev \<Longrightarrow> False"
  by (blast dest: does_onlyD)

text \<open>Where they come from: the check of a share of the channel, and a frame with such a share.\<close>

lemma handle_submit_check:
  assumes t: "task_trace (handle_submit_extended X W cfg submit st keep) es" and ev: "ev \<in> set es" "weighty ev"
  obtains c e v st' where "map_of (c2_channels st) (se_channel_id submit) = Some c"
    and "length (se_extranonce submit) = ch_extranonce_size c" and "map_of (ch_jobs c) (se_job_id submit) = Some e"
    and "resolve_submitted_version e (se_version submit) = Some v"
    and "build_dup_key_v2 submit v \<notin> c2_submitted st"
    and "task_trace (check_share_v2 X W cfg submit (ch_worker c) e v st' keep) es"
proof -
  have no: "False" if "does_only (\<lambda>ev. \<not> weighty ev) (handle_submit_extended X W cfg submit st keep)"
    by (rule not_weighty [OF that t ev])
  obtain c where c: "map_of (c2_channels st) (se_channel_id submit) = Some c"
    using no by (cases "map_of (c2_channels st) (se_channel_id submit)")
      (auto simp: handle_submit_extended_def calm_weighty)
  have len: "length (se_extranonce submit) = ch_extranonce_size c"
    by (rule ccontr) (use no c in \<open>simp add: handle_submit_extended_def calm_weighty\<close>)
  obtain e where e: "map_of (ch_jobs c) (se_job_id submit) = Some e"
    using no c len by (cases "map_of (ch_jobs c) (se_job_id submit)")
      (auto simp: handle_submit_extended_def calm_weighty)
  obtain v where v: "resolve_submitted_version e (se_version submit) = Some v"
    using no c len e by (cases "resolve_submitted_version e (se_version submit)")
      (auto simp: handle_submit_extended_def calm_weighty)
  have new: "build_dup_key_v2 submit v \<notin> c2_submitted st"
    by (intro notI no) (simp add: handle_submit_extended_def c len e v remember_share_known calm_weighty)
  then have "fst (remember_share (build_dup_key_v2 submit v) st)"
    by (simp add: remember_share_def Let_def)
  with t c len e v have "task_trace (check_share_v2 X W cfg submit (ch_worker c) e v
      (snd (remember_share (build_dup_key_v2 submit v) st)) keep) es"
    by (simp add: handle_submit_extended_def split_beta)
  with c len e v new show thesis by (rule that)
qed

lemma handle_event_submit:
  assumes t: "task_trace (handle_event X W cfg event st) es" and ev: "ev \<in> set es" "weighty ev"
  obtains frame submit where "event = Frame frame" and "w_decode_submit W (fr_payload frame) = Inr submit"
    and "task_trace (handle_submit_extended X W cfg submit st keep) es"
proof -
  have no: "False" if "does_only (\<lambda>ev. \<not> weighty ev) (handle_event X W cfg event st)"
    by (rule not_weighty [OF that t ev])
  have "does_only (\<lambda>ev. \<not> weighty ev) (handle_event X W cfg event st)" if "\<forall>frame. event \<noteq> Frame frame"
    using that by (cases event) (simp_all add: handle_event_def send_job_to_all_channels_def
      retarget_all_channels_def calm_weighty)
  then obtain frame where frame: "event = Frame frame" using no by blast
  let ?other = "fr_extension_type frame \<noteq> 0 \<or> fr_msg_type frame = w_open_extended_mining_channel W \<or>
      fr_msg_type frame = w_open_standard_mining_channel W \<or> fr_msg_type frame \<noteq> w_submit_shares_extended W"
  have "\<not> ?other"
  proof
    assume ?other
    then have "does_only (\<lambda>ev. \<not> weighty ev) (handle_frame X W cfg frame st keep)"
      by (elim disjE) (simp_all add: handle_frame_def calm_weighty Let_def split: sum.split prod.split)
    with no frame show False by (simp add: handle_event_def)
  qed
  then have eq: "handle_event X W cfg event st = (case w_decode_submit W (fr_payload frame) of
      Inl err \<Rightarrow> close | Inr submit \<Rightarrow> handle_submit_extended X W cfg submit st keep)"
    by (auto simp: frame handle_event_def handle_frame_def Let_def)
  obtain submit where "w_decode_submit W (fr_payload frame) = Inr submit"
    using no by (cases "w_decode_submit W (fr_payload frame)") (auto simp: eq calm_weighty)
  with frame t eq show thesis by (intro that) auto
qed

lemma run_turn_submit:
  assumes t: "task_trace (run_turn X W cfg event) es" and ev: "ev \<in> set es" "weighty ev"
  obtains st es' frame submit where "es = Loads (Some st) # es'" and "ev \<in> set es'" and "c2_setup_complete st"
    and "event = Frame frame" and "w_decode_submit W (fr_payload frame) = Inr submit"
    and "task_trace (handle_submit_extended X W cfg submit st keep) es'"
proof -
  have first: "does_only (\<lambda>ev. \<not> weighty ev) (handle_setup_connection W frame st)" for frame st
    by (simp add: handle_setup_connection_def calm_weighty Let_def split: sum.split setup_decision.split)
  obtain os es' where es: "es = Loads os # es'"
    and t1: "task_trace (case os of None \<Rightarrow> Return | Some st \<Rightarrow>
           if \<not> c2_setup_complete st then
             (case event of Frame frame \<Rightarrow> handle_setup_connection W frame st | ReaderClosed \<Rightarrow> close | _ \<Rightarrow> Return)
           else handle_event X W cfg event st) es'"
    using t ev by (auto simp: run_turn_def trace_simps)
  have ev1: "ev \<in> set es'" using es ev by auto
  have no: "False" if "does_only (\<lambda>ev. \<not> weighty ev) p" "task_trace p es'" for p
    by (rule not_weighty [OF that ev1 ev(2)])
  obtain st where st: "os = Some st" "c2_setup_complete st"
    using t1 no first
    by (cases os; cases event) (fastforce simp: calm_weighty split: if_splits)+
  with t1 have "task_trace (handle_event X W cfg event st) es'" by simp
  from handle_event_submit [OF this ev1 ev(2)] es st ev1 show thesis by (metis that)
qed

subsection \<open>Versions\<close>

lemma resolve_submitted_version_bits:
  assumes "resolve_submitted_version e w = Some v"
  shows "v AND NOT (cj_version_mask e) = jt_version_u32 (cj_template e) AND NOT (cj_version_mask e)"
proof -
  have bits: "((a AND NOT m) OR (b AND m)) AND NOT m = a AND NOT m" for a b m :: u32
    by (rule bit_word_eqI) (auto simp: bit_or_iff bit_and_iff bit_not_iff)
  show ?thesis using assms by (auto simp: resolve_submitted_version_def bits Let_def split: if_splits)
qed

lemma outside_mask_required:
  fixes a b m r :: u32
  assumes "a AND NOT m = b AND NOT m" and "m AND r = 0"
  shows "a AND r = b AND r"
proof (rule bit_word_eqI)
  fix i assume "i < LENGTH(32)"
  have "bit (a AND NOT m) i = bit (b AND NOT m) i" "\<not> bit (m AND r) i" using assms by simp_all
  then show "bit (a AND r) i = bit (b AND r) i"
    using \<open>i < LENGTH(32)\<close> by (auto simp: bit_and_iff bit_not_iff)
qed

text \<open>
  The version of an accepted share, from the submitted one \<open>w\<close>: where rolling was negotiated and
  the job leaves bits of the protocol's mask \<open>0x1fffe000\<close> free, \<open>w\<close> is empty or the job's version
  outside those bits, and the share has the job's version there and \<open>w\<close> inside; otherwise \<open>w\<close> is
  the job's version, and so is the share's.
\<close>

definition v2_version_accepted :: "bool \<Rightarrow> job_template \<Rightarrow> u32 \<Rightarrow> u32 \<Rightarrow> bool" where
  "v2_version_accepted negotiated job w v \<longleftrightarrow>
     (let free = 0x1fffe000 AND NOT (jt_vbrequired job); job_version = jt_version_u32 job in
      if negotiated \<and> free \<noteq> 0 then
        (w AND NOT free = 0 \<or> w AND NOT free = job_version AND NOT free) \<and>
        v AND NOT free = job_version AND NOT free \<and> v AND free = w AND free
      else w = job_version \<and> v = job_version)"

lemma resolve_submitted_version_accepted:
  assumes "resolve_submitted_version e w = Some v" and "channel_job_ok J cfg negotiated p e"
  shows "v2_version_accepted negotiated (cj_template e) w v"
proof -
  have m: "cj_version_mask e = 0x1fffe000 AND NOT (jt_vbrequired (cj_template e))"
    and a: "cj_version_rolling_allowed e \<longleftrightarrow> negotiated \<and> cj_version_mask e \<noteq> 0"
    using assms(2) by (simp_all add: channel_job_ok_def version_mask_for_job_def ALLOWED_VERSION_ROLLING_MASK_def)
  have bits: "((x AND NOT k) OR (y AND k)) AND NOT k = x AND NOT k" "((x AND NOT k) OR (y AND k)) AND k = y AND k"
    for x y k :: u32
    by (rule bit_word_eqI; auto simp: bit_or_iff bit_and_iff bit_not_iff)+
  show ?thesis
  proof (cases "cj_version_rolling_allowed e")
    case True
    then show ?thesis
      using assms(1) a unfolding v2_version_accepted_def Let_def m [symmetric] resolve_submitted_version_def
      by (auto simp: bits split: if_splits)
  next
    case False
    then show ?thesis
      using assms(1) a unfolding v2_version_accepted_def Let_def m [symmetric] resolve_submitted_version_def
      by (auto split: if_splits)
  qed
qed

lemma checked_share_valid:
  assumes X: "hex_ok X" and st: "state_ok J cfg st" and s: "v2_share_checked X submit st c e v r"
    and acc: "res_accepted r \<or> res_is_block r"
  shows "length (se_extranonce submit) = extranonce2_size cfg"
    and "channel_job_ok J cfg (version_rolling_negotiated st) (ch_extranonce_prefix c) e"
    and "v AND jt_vbrequired (cj_template e) = jt_version_u32 (cj_template e) AND jt_vbrequired (cj_template e)"
    and "v2_version_accepted (version_rolling_negotiated st) (cj_template e) (se_version submit) v"
    and "let hash = double_sha256 X (share_header X (cj_template e)
        (jt_coinbase1_bytes (cj_template e) @ ch_extranonce_prefix c) (share_submit_of X submit v) None
        (parsed_share_of submit))
      in leq_le256 hash (cj_share_target_le e) \<or> leq_le256 hash (jt_target_le (cj_template e))"
proof -
  have c: "channel_ok J cfg (version_rolling_negotiated st) c"
    using state_ok_lookup [OF st, of "se_channel_id submit" c] s by (simp add: v2_share_checked_def)
  then show "length (se_extranonce submit) = extranonce2_size cfg"
    using s by (simp add: v2_share_checked_def channel_ok_def)
  show e: "channel_job_ok J cfg (version_rolling_negotiated st) (ch_extranonce_prefix c) e"
    using channel_ok_lookup [OF c] s by (auto simp: v2_share_checked_def)
  have v: "resolve_submitted_version e (se_version submit) = Some v" using s by (simp add: v2_share_checked_def)
  show "v AND jt_vbrequired (cj_template e) = jt_version_u32 (cj_template e) AND jt_vbrequired (cj_template e)"
    by (rule outside_mask_required [OF resolve_submitted_version_bits [OF v]])
      (use e version_mask_rolling(1) in \<open>simp add: channel_job_ok_def\<close>)
  show "v2_version_accepted (version_rolling_negotiated st) (cj_template e) (se_version submit) v"
    by (rule resolve_submitted_version_accepted [OF v e])
  obtain secs where val: "validate_share X secs (cj_template e) (cj_coinbase_prefix e) (share_submit_of X submit v)
      (cj_share_target_le e) None = Inr r"
    using s by (auto simp: v2_share_checked_def)
  have "r \<noteq> reject" using acc by auto
  from validate_share_cases [OF val this] obtain p where p: "parses X (share_submit_of X submit v) p"
    "res_accepted r = leq_le256 (double_sha256 X (share_header X (cj_template e) (cj_coinbase_prefix e)
      (share_submit_of X submit v) None p)) (cj_share_target_le e)"
    "res_is_block r = leq_le256 (double_sha256 X (share_header X (cj_template e) (cj_coinbase_prefix e)
      (share_submit_of X submit v) None p)) (jt_target_le (cj_template e))" by metis
  have "p = parsed_share_of submit" by (rule parses_unique [OF p(1) share_submit_of_parses [OF X]])
  with p acc e show "let hash = double_sha256 X (share_header X (cj_template e)
        (jt_coinbase1_bytes (cj_template e) @ ch_extranonce_prefix c) (share_submit_of X submit v) None
        (parsed_share_of submit))
      in leq_le256 hash (cj_share_target_le e) \<or> leq_le256 hash (jt_target_le (cj_template e))"
    by (auto simp: channel_job_ok_def Let_def)
qed

subsection \<open>Shares whose answer is not delivered\<close>

lemma unanswered_share_spawns_nothing:
  assumes t: "task_trace (check_share_v2 X W cfg submit w e v st keep) es"
    and m: "Sends (SubmitSharesSuccess c n k s) False \<in> set es"
  shows "Spawns q \<notin> set es"
proof -
  have after: "Sends (SubmitSharesSuccess c n k s) False \<notin> set es'"
    if "task_trace (record_and_submit X W cfg submit w e r acc st keep) es'" for es' r acc
  proof -
    let ?P = "\<lambda>ev. \<forall>m b. ev = Sends m b \<longrightarrow> \<not> is_success m"
    have calm: "calm ?P" using calm_weighty by (auto simp: calm_def)
    have only: "does_only ?P (record_and_submit X W cfg submit w e r acc st keep)"
      by (rule record_and_submit_only [OF calm keep_only [OF calm]]) simp
    show ?thesis
    proof
      assume "Sends (SubmitSharesSuccess c n k s) False \<in> set es'"
      from does_onlyD [OF only that this] have "\<not> is_success (SubmitSharesSuccess c n k s)" by blast
      then show False by simp
    qed
  qed
  obtain rd es1 where es: "es = Reads rd # es1"
    and t1: "task_trace (case validate_share X (rd_secs rd) (cj_template e) (cj_coinbase_prefix e)
        (share_submit_of X submit v) (cj_share_target_le e) None of
      Inl err \<Rightarrow> close
    | Inr r \<Rightarrow>
        let acc = (res_accepted r \<or> res_is_block r);
            rest = record_and_submit X W cfg submit w e r acc st keep
        in if acc then write_message (SubmitSharesSuccess (se_channel_id submit) (se_sequence_number submit) 1
             (shares_sum (cj_difficulty e))) (Count inc_sv2_submit_accepted rest)
           else Count inc_sv2_submit_rejected (send_submit_error W (se_channel_id submit)
             (se_sequence_number submit) (w_difficulty_too_low W) rest)) es1"
    using t m by (auto simp: check_share_v2_def trace_simps)
  have m1: "Sends (SubmitSharesSuccess c n k s) False \<in> set es1" using m es by simp
  obtain r acc where t2: "task_trace (if acc then write_message (SubmitSharesSuccess (se_channel_id submit)
         (se_sequence_number submit) 1 (shares_sum (cj_difficulty e)))
         (Count inc_sv2_submit_accepted (record_and_submit X W cfg submit w e r acc st keep))
       else Count inc_sv2_submit_rejected (send_submit_error W (se_channel_id submit)
             (se_sequence_number submit) (w_difficulty_too_low W)
             (record_and_submit X W cfg submit w e r acc st keep))) es1"
    using t1 m1 by (cases "validate_share X (rd_secs rd) (cj_template e) (cj_coinbase_prefix e)
        (share_submit_of X submit v) (cj_share_target_le e) None") (auto simp: close_def trace_simps Let_def)
  have "Spawns q \<notin> set es1"
  proof (cases acc)
    case True
    with t2 m1 after show ?thesis
      by (auto simp: write_message_def close_def Count_def trace_simps trace_derived_simps split: if_splits)
  next
    case False
    with t2 m1 after show ?thesis
      by (auto simp: send_submit_error_def write_code_def write_message_def close_def Count_def trace_simps
        trace_derived_simps split: if_splits)
  qed
  with es show ?thesis by simp
qed

subsection \<open>Announcements\<close>

text \<open>
  A job without a time (\<open>min_ntime\<close> empty) waits for the \<open>SetNewPrevHash\<close> that names it: the
  automaton remembers the channel and the job in between, and allows nothing else there.
\<close>

fun announces ::
  "(connection_state option, sv2_msg) happened \<Rightarrow> (u32 \<times> u32) option \<Rightarrow> (u32 \<times> u32) option option" where
  "announces (Sends (NewExtendedMiningJob c i ntime v rolling path cb1 cb2) delivered) None =
     Some (if ntime = None \<and> delivered then Some (c, i) else None)"
| "announces (Sends (SetNewPrevHash c i prev ntime nbits) delivered) (Some j) =
     (if j = (c, i) then Some None else None)"
| "announces (Sends (SetNewPrevHash c i prev ntime nbits) delivered) None = None"
| "announces (Sends m delivered) (Some j) = None"
| "announces (Locks rd s t) (Some j) = None"
| "announces e q = Some q"

definition announced_conts :: "v2_cont \<Rightarrow> bool" where
  "announced_conts k \<longleftrightarrow> (\<forall>st. follows announces None (k st))"

lemma announces_simps [simp]:
  "follows announces q Return"
  "follows announces q Panic"
  "(\<forall>rd. follows announces q (k rd)) \<Longrightarrow> follows announces q (Read k)"
  "(\<forall>s. follows announces q (l s)) \<Longrightarrow> follows announces q (Load l)"
  "follows announces q p \<Longrightarrow> follows announces q (Metric h p)"
  "follows announces q p \<Longrightarrow> follows announces q (Count g p)"
  "follows announces q p \<Longrightarrow> follows announces q (Spawn t p)"
  "follows announces None close"
  "follows announces None (keep st)"
  by (cases q; simp add: follows_simps follows_counters follows_after_def close_def keep_def)+

lemma announces_write [simp]:
  "(\<And>b. announces (Sends m b) None = Some None) \<Longrightarrow> follows announces None p \<Longrightarrow>
   follows announces None (write_message m p)"
  by (simp add: write_message_def follows_simps follows_after_def)

lemma announces_errors [simp]:
  "follows announces None p \<Longrightarrow> follows announces None (send_setup_error W f code p)"
  "follows announces None p \<Longrightarrow> follows announces None (send_submit_error W i n code p)"
  "follows announces None p \<Longrightarrow> follows announces None (send_update_channel_error W i code p)"
  "follows announces None p \<Longrightarrow> follows announces None (write_code W (OpenMiningChannelError i) code p)"
  "follows announces None p \<Longrightarrow> follows announces None (refuse_share W submit code p)"
  by (simp_all add: send_setup_error_def send_submit_error_def send_update_channel_error_def write_code_def refuse_share_def)

lemma announces_job:
  "follows announces None p \<Longrightarrow>
   follows announces None (write_message (NewExtendedMiningJob c i (new_extended_job_min_ntime clean job) v rolling path cb1 cb2)
     (if clean then write_message (SetNewPrevHash c i prev ntime nbits) p else p))"
  by (auto simp: write_message_def new_extended_job_min_ntime_def follows_simps follows_after_def)

lemma send_job_to_channel_announces [simp]:
  "announced_conts k \<Longrightarrow> follows announces None (send_job_to_channel W i job clean st k)"
  by (simp add: send_job_to_channel_def announced_conts_def announces_job Let_def split: prod.split option.split)

lemma send_job_to_channels_announces [simp]:
  "announced_conts k \<Longrightarrow> follows announces None (send_job_to_channels W job f ids st k)"
proof (induction ids arbitrary: st)
  case (Cons i ids)
  then have "announced_conts (\<lambda>st. send_job_to_channels W job f ids st k)" by (simp add: announced_conts_def)
  with Cons show ?case by (simp add: Let_def split: option.split)
qed (simp add: announced_conts_def)

lemma retarget_one_announces [simp]:
  "announced_conts k \<Longrightarrow> follows announces None (retarget_one X W i d now st k)"
  by (auto simp: retarget_one_def send_channel_retarget_def send_channel_target_def announced_conts_def
    split: option.split prod.split)

lemma retarget_channels_announces [simp]:
  "announced_conts k \<Longrightarrow> follows announces None (retarget_channels X W now ids st k)"
proof (induction ids arbitrary: st)
  case (Cons i ids)
  then have "announced_conts (\<lambda>st. retarget_channels X W now ids st k)" by (simp add: announced_conts_def)
  with Cons show ?case by simp
qed (simp add: announced_conts_def)

lemma keep_announces [simp]: "announced_conts keep"
  by (simp add: announced_conts_def)

lemma handle_submit_announces: "follows announces None (handle_submit_extended X W cfg submit st keep)"
proof -
  have "follows announces None (record_and_submit X W cfg submit w e r acc st keep)" for w e r acc st
  proof -
    have "announced_conts (\<lambda>st. if res_is_block r then
        Count inc_sv2_block_found (submit_block_candidate w e r (keep st)) else keep st)"
      by (simp add: announced_conts_def submit_block_candidate_def Let_def split: option.split)
    then show ?thesis by (simp add: record_and_submit_def maybe_retarget_channel_def announced_conts_def Let_def)
  qed
  then show ?thesis
    by (simp add: handle_submit_extended_def check_share_v2_def Let_def split: option.split prod.split sum.split)
qed

lemma run_turn_announces: "follows announces None (run_turn X W cfg event)"
proof -
  have opened: "follows announces None (handle_open_extended_channel X W cfg request st keep)" for request st
    by (simp add: handle_open_extended_channel_def Let_def split: option.split prod.split sum.split)
  have frame: "follows announces None (handle_frame X W cfg frame st keep)" for frame st
    unfolding handle_frame_def Let_def
    by (simp add: opened handle_submit_announces split: sum.split prod.split)
  have "follows announces None (handle_setup_connection W frame st)" for frame st
    by (simp add: handle_setup_connection_def Let_def split: sum.split setup_decision.split)
  with frame show ?thesis
    by (simp add: run_turn_def handle_event_def send_job_to_all_channels_def retarget_all_channels_def
      split: option.split connection_event.split)
qed

subsection \<open>A sample channel\<close>

definition sample_submit_v2 :: "u32 \<Rightarrow> u32 \<Rightarrow> submit_shares_extended" where
  "sample_submit_v2 ntime version =
     \<lparr>se_channel_id = 1, se_sequence_number = 7, se_job_id = 1, se_nonce = 42, se_ntime = ntime,
      se_version = version, se_extranonce = [1, 2, 3, 4]\<rparr>"

definition sample_setup :: setup_connection where
  "sample_setup = \<lparr>sc_mining_protocol = True, sc_min_version = 2, sc_max_version = 2, sc_flags = 0,
     sc_vendor = [], sc_hardware_version = [], sc_firmware = []\<rparr>"

text \<open>The message numbers of the protocol, and decoders that give one message each.\<close>

definition sample_wire :: "submit_shares_extended \<Rightarrow> sv2_wire" where
  "sample_wire submit =
     \<lparr>w_setup_connection = 0, w_open_extended_mining_channel = 0x13, w_open_standard_mining_channel = 0x10,
      w_submit_shares_extended = 0x1b, w_submit_shares_standard = 0x1a, w_update_channel = 0x16,
      w_close_channel = 0x18, w_decode_setup = (\<lambda>_. Inr sample_setup),
      w_decode_open = (\<lambda>_. Inr \<lparr>oe_request_id = 1, oe_user_identity = [], oe_nominal_hash_rate = 0,
        oe_min_extranonce_size = 4\<rparr>),
      w_decode_submit = (\<lambda>_. Inr submit), w_str0255 = (\<lambda>s. length s \<le> 255),
      w_b032 = (\<lambda>b. length b \<le> 32), w_b064k = (\<lambda>b. length b < 65536), w_seq0255 = (\<lambda>p. length p \<le> 255),
      w_as_utf8_or_hex = (\<lambda>_. []), w_get_version = (\<lambda>s lo hi. Some 2),
      w_unsupported_extranonce_size = ''unsupported-min-extranonce-size'',
      w_invalid_channel = ''invalid-channel-id'', w_invalid_job_id = ''invalid-job-id'',
      w_difficulty_too_low = ''difficulty-too-low''\<rparr>"

definition sample_frame :: "u8 \<Rightarrow> sv2_raw_frame" where
  "sample_frame t = \<lparr>fr_msg_type = t, fr_extension_type = 0, fr_channel_msg = False, fr_payload = []\<rparr>"

text \<open>One channel with one job.\<close>

definition sample_channel :: "job_template \<Rightarrow> bytes \<Rightarrow> channel_state" where
  "sample_channel job target =
     add_channel_job sample_reading 0 False job True 1
       (channel_new sample_config ''w'' [9, 9, 9, 9] 4 (Fin 16384) target 0)"

definition sample_state :: "job_template \<Rightarrow> bytes \<Rightarrow> connection_state" where
  "sample_state job target =
     update_channel 1 (sample_channel job target)
       (connection_state_new\<lparr>c2_setup_complete := True, c2_next_channel_id := 2, c2_next_job_id := 2\<rparr>)"

definition sample_channel_job :: "job_template \<Rightarrow> bytes \<Rightarrow> channel_job" where
  "sample_channel_job job target =
     \<lparr>cj_template = job, cj_coinbase_prefix = jt_coinbase1_bytes job @ [9, 9, 9, 9],
      cj_share_target_le = target, cj_difficulty = Fin 16384, cj_created_at = 0,
      cj_updates_with_channel_target = True, cj_version_rolling_allowed = False,
      cj_version_mask = version_mask_for_job job\<rparr>"

lemma sample_channel_jobs:
  "ch_jobs (sample_channel job target) = [(1, sample_channel_job job target)]"
  "ch_extranonce_size (sample_channel job target) = 4"
  "ch_extranonce_prefix (sample_channel job target) = [9, 9, 9, 9]"
  "ch_vardiff (sample_channel job target) = vardiff_new 0 (target_share_time_secs sample_config)
     (vardiff_retarget_time_secs sample_config) (Fin 16384) (Fin 4194304)"
  "ch_current_job_id (sample_channel job target) = Some 1"
  by (simp_all add: sample_channel_def add_channel_job_def channel_new_def sample_channel_job_def Let_def)

lemma sample_state_simps [simp]:
  "c2_channels (sample_state job target) = [(1, sample_channel job target)]"
  "c2_setup_complete (sample_state job target)"
  "c2_submitted (sample_state job target) = {}"
  by (simp_all add: sample_state_def connection_state_new_def update_channel_def)

lemma sample_state_ok:
  assumes "J job" and "share_target_le (Fin 16384) = Inr target"
  shows "state_ok J sample_config (sample_state job target)"
proof -
  let ?s = "connection_state_new\<lparr>c2_setup_complete := True, c2_next_channel_id := 2, c2_next_job_id := 2\<rparr>"
  have n: "\<not> version_rolling_negotiated ?s"
    by (simp add: version_rolling_negotiated_def connection_state_new_def)
  have "diff_range sample_config (Fin 16384)"
    using start_diff_range [OF sample_difficulty_ok] by simp
  then have "channel_ok J sample_config False (channel_new sample_config ''w'' [9, 9, 9, 9] 4 (Fin 16384) target 0)"
    using channel_new_ok [OF sample_difficulty_ok _ assms(2), of "[9, 9, 9, 9]"] by simp
  from add_channel_job_ok [OF this assms(1)] have "channel_ok J sample_config False (sample_channel job target)"
    by (simp add: sample_channel_def)
  moreover have "state_ok J sample_config ?s"
    by (simp add: state_ok_def connection_state_new_def window_ok_def unsupported_mining_flags_def)
  ultimately show ?thesis
    unfolding sample_state_def by (intro update_channel_ok) (simp_all add: n)
qed

lemma sample_target: "\<exists>t. share_target_le (Fin 16384) = Inr t"
  by (rule diff_range_target [OF sample_difficulty_ok]) (use start_diff_range [OF sample_difficulty_ok] in simp)

text \<open>Its share is validated, and is a block when the template's target is the highest.\<close>

lemma sample_v2_share:
  assumes X: "hex_ok X" "sha_ok X" and job: "share_ready X job" "jt_target_le job = replicate 32 0xff"
    and time: "time_ok secs job ntime"
  shows "\<exists>r. validate_share X secs job (jt_coinbase1_bytes job @ prefix)
      (share_submit_of X (sample_submit_v2 ntime v') v) target None = Inr r \<and>
    res_is_block r \<and> res_block_hex r \<noteq> None"
proof -
  let ?submit = "sample_submit_v2 ntime v'"
  have t: "time_ok secs job (ps_ntime (parsed_share_of ?submit))"
    using time by (simp add: parsed_share_of_def sample_submit_v2_def)
  obtain r where r: "validate_share X secs job (jt_coinbase1_bytes job @ prefix) (share_submit_of X ?submit v) target None = Inr r"
    using validate_share_of_total [OF X(1) job(1)] by blast
  then have "res_is_block r \<and> res_block_hex r \<noteq> None"
    unfolding validate_share_parsed [OF share_submit_of_parses [OF X(1)] t] Let_def
    by (auto simp: job(2) easy_hash [OF X(2)] rbind_Inr_iff)
  with r show ?thesis by blast
qed

lemma sample_v2_trace:
  assumes val: "validate_share ref_externs secs job (jt_coinbase1_bytes job @ [9, 9, 9, 9])
      (share_submit_of ref_externs (sample_submit_v2 ntime (jt_version_u32 job)) (jt_version_u32 job)) target None = Inr r"
    and acc: "res_accepted r \<or> res_is_block r"
    and rest: "task_trace (if b then Count inc_sv2_submit_accepted (record_and_submit ref_externs W sample_config
        (sample_submit_v2 ntime (jt_version_u32 job)) (ch_worker (sample_channel job target))
        (sample_channel_job job target) r True
        (snd (remember_share (build_dup_key_v2 (sample_submit_v2 ntime (jt_version_u32 job)) (jt_version_u32 job))
           (sample_state job target))) keep) else close) es"
    and W: "W = sample_wire (sample_submit_v2 ntime (jt_version_u32 job))"
  shows "task_trace (run_turn ref_externs W sample_config (Frame (sample_frame 0x1b)))
    (Loads (Some (sample_state job target)) # Reads (sample_reading\<lparr>rd_secs := secs\<rparr>) #
     Sends (SubmitSharesSuccess 1 7 1 (shares_sum (Fin 16384))) b # es)"
proof -
  let ?submit = "sample_submit_v2 ntime (jt_version_u32 job)"
  have submit: "se_channel_id ?submit = 1" "se_sequence_number ?submit = 7" "se_job_id ?submit = 1"
    "length (se_extranonce ?submit) = 4" "se_version ?submit = jt_version_u32 job"
    by (simp_all add: sample_submit_v2_def)
  have e: "cj_template (sample_channel_job job target) = job" "cj_share_target_le (sample_channel_job job target) = target"
    "cj_coinbase_prefix (sample_channel_job job target) = jt_coinbase1_bytes job @ [9, 9, 9, 9]"
    "cj_difficulty (sample_channel_job job target) = Fin 16384"
    by (simp_all add: sample_channel_job_def)
  have v: "resolve_submitted_version (sample_channel_job job target) (jt_version_u32 job) = Some (jt_version_u32 job)"
    by (simp add: resolve_submitted_version_def sample_channel_job_def)
  have new: "fst (remember_share k (sample_state job target))" for k
    by (simp add: remember_share_def Let_def)
  have frame: "handle_event ref_externs W sample_config (Frame (sample_frame 0x1b)) st =
      handle_submit_extended ref_externs W sample_config ?submit st keep" for st
    by (simp add: handle_event_def handle_frame_def sample_frame_def W sample_wire_def)
  show ?thesis
    using rest
    by (simp add: run_turn_def trace_simps frame handle_submit_extended_def submit sample_channel_jobs v e new
      check_share_v2_def val acc write_message_def split_beta Let_def)
qed

subsection \<open>Properties\<close>

text \<open>C8 (\<open>Sv2Connection::run\<close>): in every run of a Stratum V2 connection under a configuration
  that was validated, whatever frames, templates, ticks, clock readings and failures of sends it
  meets, no handler panics; the state keeps its invariant (each channel has at most 32 jobs on
  one and the same previous block, the current one among them, every job with the target of its
  difficulty, which is within the configured limits); and what it sends are targets of such
  difficulties, jobs of published templates and version rolling only where the template leaves
  bits free.\<close>

theorem sv2_connections_safe:
  assumes "libm_ok X" and "difficulty_ok cfg"
    and "(task_step (v1_env J) (v2_starts X W cfg J))\<^sup>*\<^sup>* (v2_open sh, v2_tasks) (c, ts)"
  shows "(\<forall>st. cn_session c = Some st \<longrightarrow> state_ok J cfg st) \<and> Panic \<notin> set ts \<and>
    (\<forall>m \<in> set (cn_sent c). v2_msg_ok J cfg m)"
  using v2_reachable_ok [OF assms] by (auto simp: session_inv_def)

text \<open>A connection that was set up.\<close>

lemma sample_v2_run:
  defines "W \<equiv> sample_wire (sample_submit_v2 1 0)"
  shows "\<exists>c st. (task_step (v1_env (\<lambda>_. True)) (v2_starts ref_externs W sample_config (\<lambda>_. True)))\<^sup>*\<^sup>*
      (v2_open sh, v2_tasks) (c, [Return]) \<and>
    cn_session c = Some st \<and> c2_setup_complete st \<and> SetupConnectionSuccess 2 0 \<in> set (cn_sent c)"
proof -
  let ?S = "task_step (v1_env (\<lambda>_. True)) (v2_starts ref_externs W sample_config (\<lambda>_. True))"
  define turn where "turn = run_turn ref_externs W sample_config (Frame (sample_frame 0))"
  define st where "st = connection_state_new\<lparr>c2_setup_complete := True\<rparr>"
  have st: "connection_state_new\<lparr>c2_setup_complete := True, c2_negotiated_flags := 0, c2_downstream_user_agent := None\<rparr> = st"
    by (simp add: st_def connection_state_new_def)
  have sup: "handle_setup_connection W (sample_frame 0) connection_state_new =
      write_message (SetupConnectionSuccess 2 0) (Count inc_sv2_setup_accepted (keep st))"
    by (simp add: handle_setup_connection_def W_def sample_wire_def sample_frame_def decide_setup_def sample_setup_def
      SV2_VERSION_def unsupported_mining_flags_def setup_connection_user_agent_def non_empty_str0255_def
      List.map_filter_def st Let_def)
  have first: "\<not> c2_setup_complete connection_state_new" by (simp add: connection_state_new_def)
  have "?S\<^sup>*\<^sup>* (v2_open sh, [Return]) (v2_open sh, [turn])"
    by (rule head_event) (auto simp: turn_def intro!: v2_starts.turn)
  moreover have "?S\<^sup>*\<^sup>* (v2_open sh, [turn])
      (v2_open sh, [write_message (SetupConnectionSuccess 2 0) (Count inc_sv2_setup_accepted (keep st))])"
    unfolding turn_def run_turn_def by (rule head_move) (simp add: v2_open_def sup first)
  moreover obtain c1 where c1: "?S\<^sup>*\<^sup>* (v2_open sh, [write_message (SetupConnectionSuccess 2 0) (Count inc_sv2_setup_accepted (keep st))])
      (c1, [Count inc_sv2_setup_accepted (keep st)])" "SetupConnectionSuccess 2 0 \<in> set (cn_sent c1)"
  proof (rule that)
    show "?S\<^sup>*\<^sup>* (v2_open sh, [write_message (SetupConnectionSuccess 2 0) (Count inc_sv2_setup_accepted (keep st))])
      ((v2_open sh)\<lparr>cn_sent := [SetupConnectionSuccess 2 0]\<rparr>, [Count inc_sv2_setup_accepted (keep st)])"
      unfolding write_message_def by (rule head_move) (auto simp: v2_open_def has_room_def)
  qed simp
  moreover obtain c2 where c2: "?S\<^sup>*\<^sup>* (c1, [Count inc_sv2_setup_accepted (keep st)]) (c2, [keep st])"
    "cn_sent c2 = cn_sent c1"
    by (rule that [OF head_count]) simp
  moreover have "?S\<^sup>*\<^sup>* (c2, [keep st]) (c2\<lparr>cn_session := Some st\<rparr>, [Return])"
    unfolding keep_def by (rule head_locked [of _ sample_reading]) (simp_all add: v1_env_def)
  ultimately have "?S\<^sup>*\<^sup>* (v2_open sh, v2_tasks) (c2\<lparr>cn_session := Some st\<rparr>, [Return])"
    unfolding v2_tasks_def by (meson rtranclp_trans)
  moreover have "c2_setup_complete st" by (simp add: st_def)
  ultimately show ?thesis using c1(2) c2(2) by (intro exI [of _ "c2\<lparr>cn_session := Some st\<rparr>"] exI [of _ st]) simp
qed

theorem sv2_connections_safe_witness:
  "\<exists>c st. cn_session (c :: (connection_state option, sv2_msg) conn) = Some st \<and> c2_setup_complete st \<and>
     state_ok (\<lambda>_. True) sample_config st \<and>
     SetupConnectionSuccess 2 0 \<in> set (cn_sent c) \<and> v2_msg_ok (\<lambda>_. True) sample_config (SetupConnectionSuccess 2 0)"
proof -
  obtain c st where c: "(task_step (v1_env (\<lambda>_. True)) (v2_starts ref_externs (sample_wire (sample_submit_v2 1 0))
      sample_config (\<lambda>_. True)))\<^sup>*\<^sup>* (v2_open sh, v2_tasks) (c, [Return])"
    "cn_session c = Some st" "c2_setup_complete st" "SetupConnectionSuccess 2 0 \<in> set (cn_sent c)"
    using sample_v2_run by blast
  from sv2_connections_safe [OF ref_libm_ok sample_difficulty_ok c(1)] c(2-4) show ?thesis by blast
qed

text \<open>C9 (\<open>handle_submit_extended\<close>, \<open>resolve_submitted_version\<close>, \<open>validate_share\<close>): the answer
  that a share was accepted goes to a share of an open channel of the connection, on one of the
  channel's jobs, with an extranonce of the configured size, whose key is not among the
  remembered ones. Where rolling was negotiated and the template leaves bits of \<open>0x1fffe000\<close> free,
  the submitted version has outside those bits nothing or the job's version, and the share's version
  is the job's outside and the submitted one inside them; otherwise the submitted version is the
  job's. Bits that the template requires are the job's. And the double hash of the header
  built from the job, the channel's prefix and the submitted fields meets the target of the job's
  difficulty or the template's own.\<close>

theorem sv2_accepted_share_checked:
  assumes X: "hex_ok X" and t: "task_trace (run_turn X W cfg event) es"
    and m: "Sends (SubmitSharesSuccess c n k s) b \<in> set es"
    and states: "\<And>st. Loads (Some st) \<in> set es \<Longrightarrow> state_ok J cfg st"
  shows "\<exists>st frame submit ch e v. Loads (Some st) \<in> set es \<and> event = Frame frame \<and>
    w_decode_submit W (fr_payload frame) = Inr submit \<and>
    c = se_channel_id submit \<and> n = se_sequence_number submit \<and>
    map_of (c2_channels st) c = Some ch \<and> map_of (ch_jobs ch) (se_job_id submit) = Some e \<and> J (cj_template e) \<and>
    length (se_extranonce submit) = extranonce2_size cfg \<and> build_dup_key_v2 submit v \<notin> c2_submitted st \<and>
    v AND jt_vbrequired (cj_template e) = jt_version_u32 (cj_template e) AND jt_vbrequired (cj_template e) \<and>
    v2_version_accepted (version_rolling_negotiated st) (cj_template e) (se_version submit) v \<and>
    share_target_le (cj_difficulty e) = Inr (cj_share_target_le e) \<and>
    (let hash = double_sha256 X (share_header X (cj_template e)
        (jt_coinbase1_bytes (cj_template e) @ ch_extranonce_prefix ch) (share_submit_of X submit v) None
        (parsed_share_of submit))
     in leq_le256 hash (cj_share_target_le e) \<or> leq_le256 hash (jt_target_le (cj_template e)))"
proof -
  obtain st es' frame submit where es: "es = Loads (Some st) # es'"
    and m': "Sends (SubmitSharesSuccess c n k s) b \<in> set es'" and f: "event = Frame frame"
    "w_decode_submit W (fr_payload frame) = Inr submit"
    and t': "task_trace (handle_submit_extended X W cfg submit st keep) es'"
    by (rule run_turn_submit [OF t m]) simp_all
  obtain ch e v st' where at: "map_of (c2_channels st) (se_channel_id submit) = Some ch"
    "length (se_extranonce submit) = ch_extranonce_size ch" "map_of (ch_jobs ch) (se_job_id submit) = Some e"
    "resolve_submitted_version e (se_version submit) = Some v" "build_dup_key_v2 submit v \<notin> c2_submitted st"
    and t'': "task_trace (check_share_v2 X W cfg submit (ch_worker ch) e v st' keep) es'"
    by (rule handle_submit_check [OF t' m']) simp_all
  have "does_only (v2_share_event X submit st) (check_share_v2 X W cfg submit (ch_worker ch) e v st' keep)"
    by (rule check_share_only [where c = ch]) (use at in \<open>auto simp: v2_share_checked_def\<close>)
  from does_onlyD [OF this t'' m'] obtain ch2 e2 v2 r where c: "c = se_channel_id submit" "n = se_sequence_number submit"
    and r: "v2_share_checked X submit st ch2 e2 v2 r" "res_accepted r \<or> res_is_block r"
    by (rule v2_share_event_success)
  have st: "state_ok J cfg st" using states es by simp
  note valid = checked_share_valid [OF X st r]
  have "map_of (c2_channels st) (se_channel_id submit) = Some ch2" "map_of (ch_jobs ch2) (se_job_id submit) = Some e2"
    "build_dup_key_v2 submit v2 \<notin> c2_submitted st" using r(1) by (simp_all add: v2_share_checked_def)
  moreover have "J (cj_template e2)" "share_target_le (cj_difficulty e2) = Inr (cj_share_target_le e2)"
    using valid(2) by (simp_all add: channel_job_ok_def)
  moreover have "Loads (Some st) \<in> set es" using es by simp
  ultimately show ?thesis
    using f valid(1,3-5) unfolding c
    by (intro exI [of _ st] exI [of _ frame] exI [of _ submit] exI [of _ ch2] exI [of _ e2] exI [of _ v2] conjI impI refl)
qed

lemma easy_job_ready: "share_ready X easy_job"
  by (simp add: share_ready_def easy_job_def empty_template_def)

lemma easy_v2_share:
  obtains target r where "share_target_le (Fin 16384) = Inr target"
    and "validate_share ref_externs 0 easy_job (jt_coinbase1_bytes easy_job @ [9, 9, 9, 9])
      (share_submit_of ref_externs (sample_submit_v2 1 (jt_version_u32 easy_job)) (jt_version_u32 easy_job)) target None = Inr r"
    and "res_is_block r"
proof -
  obtain target where "share_target_le (Fin 16384) = Inr target" using sample_target by blast
  moreover have "time_ok 0 easy_job 1" using sample_time by (simp add: sample_parsed_def)
  moreover have "jt_target_le easy_job = replicate 32 0xff" by (simp add: easy_job_def)
  ultimately show thesis
    using that sample_v2_share [OF ref_hex_ok ref_sha_ok easy_job_ready, of 0 1] by blast
qed

theorem sv2_accepted_share_checked_witness:
  "\<exists>es W frame. task_trace (run_turn ref_externs W sample_config (Frame frame)) es \<and>
     Sends (SubmitSharesSuccess 1 7 1 (shares_sum (Fin 16384))) True \<in> set es \<and>
     (\<exists>st submit v. Loads (Some st) \<in> set es \<and> w_decode_submit W (fr_payload frame) = Inr submit \<and>
        build_dup_key_v2 submit v \<notin> c2_submitted st)"
proof -
  obtain target r where r: "share_target_le (Fin 16384) = Inr target"
    "validate_share ref_externs 0 easy_job (jt_coinbase1_bytes easy_job @ [9, 9, 9, 9])
      (share_submit_of ref_externs (sample_submit_v2 1 (jt_version_u32 easy_job)) (jt_version_u32 easy_job)) target None = Inr r"
    "res_is_block r" by (rule easy_v2_share)
  let ?W = "sample_wire (sample_submit_v2 1 (jt_version_u32 easy_job))"
  let ?es = "[Loads (Some (sample_state easy_job target)), Reads (sample_reading\<lparr>rd_secs := 0\<rparr>),
    Sends (SubmitSharesSuccess 1 7 1 (shares_sum (Fin 16384))) True]"
  have t: "task_trace (run_turn ref_externs ?W sample_config (Frame (sample_frame 0x1b))) ?es"
    by (rule sample_v2_trace [OF r(2)]) (use r(3) in \<open>simp_all add: task_trace.intros\<close>)
  have "state_ok (\<lambda>job. job = easy_job) sample_config st" if "Loads (Some st) \<in> set ?es" for st
    using that sample_state_ok [OF _ r(1), of "\<lambda>job. job = easy_job" easy_job] by simp
  from sv2_accepted_share_checked [OF ref_hex_ok t _ this] t show ?thesis
    by (intro exI [of _ ?es] exI [of _ ?W] exI [of _ "sample_frame 0x1b"]) auto
qed

text \<open>C12 (\<open>handle_submit_extended\<close>): every share on a connection in order is answered exactly
  once, with its channel and sequence number, accepted or refused with one of the codes: what the
  decoder delivers always passes the parsing of \<open>validate_share\<close>, so no share ends the
  connection. The transactions of the templates must decode.\<close>

theorem sv2_share_answered_once:
  assumes "hex_ok X" and "codes_fit W" and "state_ok (share_ready X) cfg st"
    and "task_done (handle_submit_extended X W cfg submit st keep) es"
  shows "length (filter (is_share_answer submit) (messages es)) = 1"
  by (rule sends_once_messages [OF assms(4) handle_submit_extended_once [OF assms(1-3)]])

theorem sv2_share_answered_once_witness:
  "\<exists>W es. task_done (handle_submit_extended ref_externs W sample_config
      (sample_submit_v2 1 0) connection_state_new keep) es \<and>
    length (filter (is_share_answer (sample_submit_v2 1 0)) (messages es)) = 1"
proof -
  let ?W = "sample_wire (sample_submit_v2 1 0)" and ?submit = "sample_submit_v2 1 0"
  have W: "codes_fit ?W" by (simp add: codes_fit_def sample_wire_def)
  have none: "c2_channels connection_state_new = []" by (simp add: connection_state_new_def)
  have ex_true: "(\<exists>b. b \<and> P b) \<longleftrightarrow> P True" for P by auto
  obtain f where "task_done (handle_submit_extended ref_externs ?W sample_config ?submit connection_state_new keep)
     [Shares f, Sends (SubmitSharesError 1 7 ''invalid-channel-id'') True,
      Locks sample_reading None (Some connection_state_new)]"
    by (simp add: handle_submit_extended_def none refuse_share_def send_submit_error_def ex_true
      write_code_def write_message_def sample_wire_def sample_submit_v2_def keep_def Count_def Metric_def done_simps)
  from sv2_share_answered_once [OF ref_hex_ok W state_ok_new this] this show ?thesis by blast
qed

text \<open>C13 (\<open>handle_submit_extended\<close>): a share whose acceptance cannot be written to the client is
  never handed to the node, also when it is a block: the handler returns before
  \<open>submit_block_candidate\<close>. (The Stratum V1 handler ignores the failure.)\<close>

theorem sv2_unanswered_block_lost:
  assumes t: "task_trace (run_turn X W cfg event) es"
    and m: "Sends (SubmitSharesSuccess c n k s) False \<in> set es"
  shows "Spawns q \<notin> set es"
proof -
  obtain st es' frame submit where es: "es = Loads (Some st) # es'"
    and m': "Sends (SubmitSharesSuccess c n k s) False \<in> set es'"
    and t': "task_trace (handle_submit_extended X W cfg submit st keep) es'"
    by (rule run_turn_submit [OF t m]) simp_all
  obtain ch e v st' where "map_of (c2_channels st) (se_channel_id submit) = Some ch"
    "length (se_extranonce submit) = ch_extranonce_size ch" "map_of (ch_jobs ch) (se_job_id submit) = Some e"
    "resolve_submitted_version e (se_version submit) = Some v" "build_dup_key_v2 submit v \<notin> c2_submitted st"
    and t'': "task_trace (check_share_v2 X W cfg submit (ch_worker ch) e v st' keep) es'"
    by (rule handle_submit_check [OF t' m']) simp_all
  from unanswered_share_spawns_nothing [OF t'' m'] es show ?thesis by simp
qed

theorem sv2_unanswered_block_lost_witness:
  "\<exists>es W r target. task_trace (run_turn ref_externs W sample_config (Frame (sample_frame 0x1b))) es \<and>
     validate_share ref_externs 0 easy_job (jt_coinbase1_bytes easy_job @ [9, 9, 9, 9])
       (share_submit_of ref_externs (sample_submit_v2 1 (jt_version_u32 easy_job)) (jt_version_u32 easy_job)) target None = Inr r \<and>
     res_is_block r \<and> last es = Locks sample_reading None None \<and> (\<forall>q. Spawns q \<notin> set es)"
proof -
  obtain target r where r: "share_target_le (Fin 16384) = Inr target"
    "validate_share ref_externs 0 easy_job (jt_coinbase1_bytes easy_job @ [9, 9, 9, 9])
      (share_submit_of ref_externs (sample_submit_v2 1 (jt_version_u32 easy_job)) (jt_version_u32 easy_job)) target None = Inr r"
    "res_is_block r" by (rule easy_v2_share)
  let ?W = "sample_wire (sample_submit_v2 1 (jt_version_u32 easy_job))"
  let ?es = "[Loads (Some (sample_state easy_job target)), Reads (sample_reading\<lparr>rd_secs := 0\<rparr>),
    Sends (SubmitSharesSuccess 1 7 1 (shares_sum (Fin 16384))) False, Locks sample_reading None None]"
  have t: "task_trace (run_turn ref_externs ?W sample_config (Frame (sample_frame 0x1b))) ?es"
    by (rule sample_v2_trace [OF r(2)]) (use r(3) in \<open>simp_all add: close_def trace_simps\<close>)
  from sv2_unanswered_block_lost [OF t] r t show ?thesis
    by (intro exI [of _ ?es] exI [of _ ?W] exI [of _ r] exI [of _ target]) auto
qed

text \<open>C14 (\<open>send_job_to_channel\<close>): whatever the event, a job that is announced without a time is
  followed at once by the \<open>SetNewPrevHash\<close> that names its channel and identifier, or the
  connection has ended, and no \<open>SetNewPrevHash\<close> names any other job; the state is not stored in
  between.\<close>

theorem sv2_jobs_announced: "follows announces None (run_turn X W cfg event)"
  by (rule run_turn_announces)

end
