(* ===== verification/P2p.thy ===== *)
theory P2p
  imports Tasks Share Sv2_Transport
begin

text \<open>
  \<open>src/p2p.rs\<close>: the client of a Bitcoin node's peer-to-peer port. Its messages and their parsers
  are functions on bytes; the session, the start-up probe and the loop that reconnects are
  programs of \<open>Tasks\<close> over the engine, so that the engine's other tasks may interfere between
  their operations. What a peer sends is given as the bytes that arrive before the connection
  ends (or the probe times out); the sockets and the name resolution are arguments. Integers wrap
  as in a release build.
\<close>

subsection \<open>Constants\<close>

text \<open>An \<open>i32\<close> is kept as the word of its bits.\<close>

definition PROTOCOL_VERSION :: "32 word" where "PROTOCOL_VERSION = 70016"
definition MAX_PAYLOAD_LEN :: nat where "MAX_PAYLOAD_LEN = 4 * 1024 * 1024"
definition MSG_BLOCK :: u32 where "MSG_BLOCK = 2"
definition MSG_FILTERED_BLOCK :: u32 where "MSG_FILTERED_BLOCK = 3"
definition MSG_CMPCT_BLOCK :: u32 where "MSG_CMPCT_BLOCK = 4"
definition MSG_WITNESS_FLAG :: u32 where "MSG_WITNESS_FLAG = 0x40000000"

definition default_port :: "network \<Rightarrow> u16" where
  "default_port net =
     (case net of Bitcoin \<Rightarrow> 8333 | Testnet \<Rightarrow> 18333 | Signet \<Rightarrow> 38333 | Regtest \<Rightarrow> 18444)"

subsection \<open>Texts\<close>

text \<open>
  \<open>str::as_bytes\<close>, and \<open>String::from_utf8_lossy\<close>: \<open>utf8_chunk\<close> tells whether the next bytes are a
  character, and how many bytes it has or a replacement character stands for.
\<close>

definition as_bytes :: "string \<Rightarrow> bytes" where
  "as_bytes s = map of_char s"

definition utf8_chunk :: "bytes \<Rightarrow> bool \<times> nat" where
  "utf8_chunk bs =
     (let b = hd bs;
          next = (\<lambda>i lo hi. i < length bs \<and> lo \<le> bs ! i \<and> bs ! i \<le> hi)
      in if b < 0x80 then (True, 1)
         else if 0xc2 \<le> b \<and> b \<le> 0xdf then
           (if next 1 0x80 0xbf then (True, 2) else (False, 1))
         else if 0xe0 \<le> b \<and> b \<le> 0xef then
           (if \<not> next 1 (if b = 0xe0 then 0xa0 else 0x80) (if b = 0xed then 0x9f else 0xbf) then (False, 1)
            else if \<not> next 2 0x80 0xbf then (False, 2) else (True, 3))
         else if 0xf0 \<le> b \<and> b \<le> 0xf4 then
           (if \<not> next 1 (if b = 0xf0 then 0x90 else 0x80) (if b = 0xf4 then 0x8f else 0xbf) then (False, 1)
            else if \<not> next 2 0x80 0xbf then (False, 2)
            else if \<not> next 3 0x80 0xbf then (False, 3) else (True, 4))
         else (False, 1))"

lemma utf8_chunk_pos: "(valid, n) = utf8_chunk bs \<Longrightarrow> 0 < n"
  by (auto simp: utf8_chunk_def Let_def split: if_splits)

function from_utf8_lossy :: "bytes \<Rightarrow> string" where
  "from_utf8_lossy bs =
     (if bs = [] then []
      else case utf8_chunk bs of (valid, n) \<Rightarrow>
        (if valid then map (\<lambda>b. char_of (unat b)) (take n bs) else [CHR 0xef, CHR 0xbf, CHR 0xbd])
        @ from_utf8_lossy (drop n bs))"
  by pat_completeness auto

termination
  by (relation "measure length") (auto dest!: utf8_chunk_pos)

declare from_utf8_lossy.simps [simp del]

subsection \<open>Messages\<close>

record socket_addr =
  sa_ip :: ip_addr
  sa_port :: u16

definition encode_network_address :: "ip_addr \<Rightarrow> u16 \<Rightarrow> bytes" where
  "encode_network_address ip port =
     u64_to_le 0
     @ (case ip of
          V4 a \<Rightarrow> replicate 10 0 @ [0xff, 0xff] @ rev (u32_to_le a)
        | V6 a \<Rightarrow> rev (nat_to_le 16 (unat a)))
     @ rev (u16_to_le port)"

definition payload_checksum :: "externs \<Rightarrow> bytes \<Rightarrow> bytes" where
  "payload_checksum X payload = take 4 (double_sha256 X payload)"

text \<open>The bytes that \<open>send_message\<close> writes, or its error.\<close>

definition message_bytes :: "externs \<Rightarrow> config \<Rightarrow> string \<Rightarrow> bytes \<Rightarrow> bytes result" where
  "message_bytes X cfg command payload =
     (if length command > 12 then Inl (''p2p command too long: '' @ command)
      else if length payload > MAX_PAYLOAD_LEN then Inl (''p2p payload too large for '' @ command)
      else
        let header = network_magic X (network cfg)
              @ as_bytes command @ replicate (12 - length command) 0
              @ u32_to_le (word_of_nat (length payload))
              @ payload_checksum X payload
        in Inr (header @ payload))"

record message_frame =
  mf_command :: string
  mf_payload :: bytes

text \<open>\<open>read_exact\<close> of \<open>n\<close> bytes, with what is left of the stream.\<close>

definition read_exact :: "nat \<Rightarrow> bytes \<Rightarrow> (bytes \<times> bytes) result" where
  "read_exact n stream =
     (if length stream < n then Inl ''unexpected end of file'' else Inr (take n stream, drop n stream))"

definition read_message :: "externs \<Rightarrow> config \<Rightarrow> bytes \<Rightarrow> (message_frame \<times> bytes) result" where
  "read_message X cfg stream =
     rbind (read_exact 24 stream) (\<lambda>(header, stream).
       let magic = network_magic X (network cfg) in
       if take 4 header \<noteq> magic then Inl ''unexpected p2p magic''
       else
         let command_end = length (takeWhile (\<lambda>b. b \<noteq> 0) (take 12 (drop 4 header)));
             command = from_utf8_lossy (take command_end (drop 4 header));
             payload_len = unat (u32_from_le (take 4 (drop 16 header)))
         in if payload_len > MAX_PAYLOAD_LEN then Inl (''p2p payload too large for '' @ command)
            else rbind (read_exact payload_len stream) (\<lambda>(payload, stream).
              if take 4 (drop 20 header) \<noteq> payload_checksum X payload
              then Inl (''bad p2p checksum for '' @ command)
              else Inr (\<lparr>mf_command = command, mf_payload = payload\<rparr>, stream)))"

definition user_agent :: string where
  "user_agent = ''/stratumbee:0.1.0/''"

text \<open>The height is that of the current job; \<open>nonce\<close> are eight random bytes.\<close>

definition build_version_payload :: "u64 \<Rightarrow> u64 \<Rightarrow> bytes \<Rightarrow> socket_addr \<Rightarrow> bytes" where
  "build_version_payload current_height now nonce remote =
     (let start_height = min (sat_sub current_height 1) 0x7fffffff;
          payload = u32_to_le PROTOCOL_VERSION @ u64_to_le 0 @ u64_to_le now
            @ encode_network_address (sa_ip remote) (sa_port remote)
            @ encode_network_address (V4 0) 0
            @ nonce
      in encode_varint (word_of_nat (length user_agent)) payload
         @ as_bytes user_agent @ u32_to_le (ucast start_height) @ [0])"

record peer_version =
  pv_version :: "32 word"
  pv_start_height :: "32 word"

text \<open>\<open>pos + user_agent_len\<close> wraps at the size of \<open>usize\<close>.\<close>

definition parse_peer_version :: "bytes \<Rightarrow> peer_version result" where
  "parse_peer_version payload =
     (if length payload < 80 then Inl ''version payload too short''
      else
        let version = u32_from_le (take 4 payload) in
        rbind (read_varint payload 80) (\<lambda>(len, pos).
          let pos = (pos + unat len) mod 2 ^ 64 in
          if pos > length payload then Inl ''version user_agent exceeds payload''
          else Inr \<lparr>pv_version = version,
            pv_start_height = (if pos + 4 \<le> length payload then u32_from_le (take 4 (drop pos payload)) else 0)\<rparr>))"

definition build_sendcmpct_payload :: "u64 \<Rightarrow> bytes" where
  "build_sendcmpct_payload version = 1 # u64_to_le version"

definition build_getheaders_payload :: "bytes \<Rightarrow> bytes" where
  "build_getheaders_payload locator_hash_le =
     encode_varint 1 (u32_to_le PROTOCOL_VERSION) @ locator_hash_le @ replicate 32 0"

subsection \<open>Announcements\<close>

definition is_block_inventory_type :: "u32 \<Rightarrow> bool" where
  "is_block_inventory_type inv_type \<longleftrightarrow>
     inv_type AND NOT MSG_WITNESS_FLAG \<in> {MSG_BLOCK, MSG_FILTERED_BLOCK, MSG_CMPCT_BLOCK}"

fun inv_entries :: "nat \<Rightarrow> bytes \<Rightarrow> nat \<Rightarrow> bytes list \<Rightarrow> (bytes list \<times> nat) result" where
  "inv_entries 0 payload pos hashes = Inr (hashes, pos)"
| "inv_entries (Suc n) payload pos hashes =
     rbind (ok_or ''inv type truncated'' (get_range payload pos (pos + 4))) (\<lambda>t.
     rbind (ok_or ''inv hash truncated'' (get_range payload (pos + 4) (pos + 36))) (\<lambda>hash.
       inv_entries n payload (pos + 36)
         (if is_block_inventory_type (u32_from_le t) then hashes @ [hash] else hashes)))"

definition parse_inv_block_hashes :: "bytes \<Rightarrow> bytes list result" where
  "parse_inv_block_hashes payload =
     rbind (read_varint payload 0) (\<lambda>(n, pos).
     rbind (inv_entries (unat n) payload pos []) (\<lambda>(hashes, pos).
       if pos \<noteq> length payload then Inl ''inv payload has trailing bytes'' else Inr hashes))"

record block_announcement =
  ba_prevhash_hex :: string
  ba_block_hash_hex :: string
  ba_block_time :: u32
  ba_block_nbits :: u32

definition parse_block_announcement_from_header :: "externs \<Rightarrow> bytes \<Rightarrow> block_announcement result" where
  "parse_block_announcement_from_header X header =
     (if length header \<noteq> 80 then Inl ''block header must be 80 bytes''
      else Inr
        \<lparr>ba_prevhash_hex = hex_encode X (rev (take 32 (drop 4 header))),
         ba_block_hash_hex = hex_encode X (rev (double_sha256 X header)),
         ba_block_time = u32_from_le (take 4 (drop 68 header)),
         ba_block_nbits = u32_from_le (take 4 (drop 72 header))\<rparr>)"

fun header_entries ::
  "externs \<Rightarrow> nat \<Rightarrow> bytes \<Rightarrow> nat \<Rightarrow> block_announcement list \<Rightarrow> (block_announcement list \<times> nat) result" where
  "header_entries X 0 payload pos announcements = Inr (announcements, pos)"
| "header_entries X (Suc n) payload pos announcements =
     rbind (ok_or ''headers payload truncated'' (get_range payload pos (pos + 80))) (\<lambda>header.
     rbind (parse_block_announcement_from_header X header) (\<lambda>a.
     rbind (read_varint payload (pos + 80)) (\<lambda>(txn_count, pos).
       if txn_count \<noteq> 0 then Inl ''headers transaction count must be zero''
       else header_entries X n payload pos (announcements @ [a]))))"

definition parse_headers_announcements :: "externs \<Rightarrow> bytes \<Rightarrow> block_announcement list result" where
  "parse_headers_announcements X payload =
     rbind (read_varint payload 0) (\<lambda>(n, pos).
     rbind (header_entries X (unat n) payload pos []) (\<lambda>(announcements, pos).
       if pos \<noteq> length payload then Inl ''headers payload has trailing bytes'' else Inr announcements))"

definition parse_cmpctblock_announcement :: "externs \<Rightarrow> bytes \<Rightarrow> block_announcement result" where
  "parse_cmpctblock_announcement X payload =
     (if length payload < 90 then Inl ''cmpctblock payload too short''
      else parse_block_announcement_from_header X (take 80 payload))"

subsection \<open>Sessions\<close>

text \<open>
  A program works on the engine, which it shares with the tasks of \<open>Template_Engine\<close>, and sends
  the bytes of messages. \<open>fail\<close> is what follows an error of the session.
\<close>

type_synonym p2p_prog = "(engine, bytes) prog"

definition p2p_send ::
  "externs \<Rightarrow> config \<Rightarrow> string \<Rightarrow> bytes \<Rightarrow> (string \<Rightarrow> p2p_prog) \<Rightarrow> p2p_prog \<Rightarrow> p2p_prog" where
  "p2p_send X cfg command payload fail p =
     (case message_bytes X cfg command payload of
        Inl err \<Rightarrow> fail err
      | Inr m \<Rightarrow> Send m (\<lambda>ok. if ok then p else fail ''write''))"

text \<open>The version message needs the current job, the clock and random bytes.\<close>

definition send_version ::
  "externs \<Rightarrow> config \<Rightarrow> socket_addr \<Rightarrow> (string \<Rightarrow> p2p_prog) \<Rightarrow> p2p_prog \<Rightarrow> p2p_prog" where
  "send_version X cfg remote fail p =
     Load (\<lambda>engine. Read (\<lambda>rd.
       p2p_send X cfg ''version''
         (build_version_payload (jt_height (current_job engine)) (rd_secs rd) (map (rd_random rd) [0..<8]) remote)
         fail p))"

definition finish_fast_handshake :: "externs \<Rightarrow> config \<Rightarrow> (string \<Rightarrow> p2p_prog) \<Rightarrow> p2p_prog \<Rightarrow> p2p_prog" where
  "finish_fast_handshake X cfg fail p =
     p2p_send X cfg ''sendheaders'' [] fail
       (p2p_send X cfg ''sendcmpct'' (build_sendcmpct_payload 2) fail
         (p2p_send X cfg ''sendcmpct'' (build_sendcmpct_payload 1) fail p))"

definition current_tip_locator_from_job :: "engine \<Rightarrow> bytes option" where
  "current_tip_locator_from_job engine =
     (let current = current_job engine in
      if \<not> jt_ready current \<or> jt_height current = 0 then None else Some (jt_prevhash_le_bytes current))"

text \<open>
  \<open>handle_fast_block_announcement\<close> as the engine's task does it: it gives up when another task
  holds the permit. A failure is only logged.
\<close>

definition clock_of :: "reading \<Rightarrow> clock" where
  "clock_of rd = \<lparr>ck_ms = rd_ms rd, ck_secs = rd_secs rd, ck_utc = rd_now rd\<rparr>"

definition fast_block_of :: "block_announcement \<Rightarrow> u64 \<Rightarrow> fast_block" where
  "fast_block_of a height =
     \<lparr>fb_prevhash_hex = ba_prevhash_hex a, fb_block_hash_hex = ba_block_hash_hex a,
      fb_block_time = ba_block_time a, fb_block_height = height, fb_block_nbits = ba_block_nbits a\<rparr>"

definition announce_block :: "externs \<Rightarrow> config \<Rightarrow> block_announcement \<Rightarrow> u64 \<Rightarrow> p2p_prog \<Rightarrow> p2p_prog" where
  "announce_block X cfg a height p =
     Locked (\<lambda>rd engine.
       if \<not> en_permit engine then (engine, p)
       else (engine\<lparr>en_permit := False\<rparr>,
         Locked (\<lambda>rd engine.
           ((snd (snd (fast_block_body X cfg (fast_block_of a height) (clock_of rd) engine)))\<lparr>en_permit := True\<rparr>, p))))"

fun announce_blocks ::
  "externs \<Rightarrow> config \<Rightarrow> u64 \<Rightarrow> nat \<Rightarrow> block_announcement list \<Rightarrow> p2p_prog \<Rightarrow> p2p_prog" where
  "announce_blocks X cfg base_height idx [] p = p"
| "announce_blocks X cfg base_height idx (a # as) p =
     announce_block X cfg a (sat_add base_height (word_of_nat idx))
       (announce_blocks X cfg base_height (idx + 1) as p)"

record handshake =
  sent_verack :: bool
  received_verack :: bool
  sent_fast_handshake :: bool

definition handshake_new :: handshake where
  "handshake_new = \<lparr>sent_verack = False, received_verack = False, sent_fast_handshake = False\<rparr>"

text \<open>One message of the peer; \<open>k\<close> is the rest of the loop.\<close>

definition on_version ::
  "externs \<Rightarrow> config \<Rightarrow> handshake \<Rightarrow> (string \<Rightarrow> p2p_prog) \<Rightarrow> (handshake \<Rightarrow> p2p_prog) \<Rightarrow> p2p_prog" where
  "on_version X cfg h fail k =
     (let answered = h\<lparr>sent_verack := True\<rparr>;
          finish =
            (if received_verack answered \<and> \<not> sent_fast_handshake answered
             then finish_fast_handshake X cfg fail (k (answered\<lparr>sent_fast_handshake := True\<rparr>))
             else k answered)
      in if \<not> sent_verack h then p2p_send X cfg ''verack'' [] fail finish else finish)"

definition on_verack ::
  "externs \<Rightarrow> config \<Rightarrow> handshake \<Rightarrow> (string \<Rightarrow> p2p_prog) \<Rightarrow> (handshake \<Rightarrow> p2p_prog) \<Rightarrow> p2p_prog" where
  "on_verack X cfg h fail k =
     (let h = h\<lparr>received_verack := True\<rparr> in
      if sent_verack h \<and> \<not> sent_fast_handshake h
      then finish_fast_handshake X cfg fail (k (h\<lparr>sent_fast_handshake := True\<rparr>))
      else k h)"

text \<open>A failed request of headers is only logged.\<close>

definition on_inv ::
  "externs \<Rightarrow> config \<Rightarrow> bytes \<Rightarrow> handshake \<Rightarrow> (handshake \<Rightarrow> p2p_prog) \<Rightarrow> p2p_prog" where
  "on_inv X cfg payload h k =
     (if \<not> sent_fast_handshake h then k h
      else case parse_inv_block_hashes payload of
        Inl err \<Rightarrow> k h
      | Inr block_hashes \<Rightarrow>
          if block_hashes = [] then k h
          else Load (\<lambda>engine.
            case current_tip_locator_from_job engine of
              None \<Rightarrow> k h
            | Some locator_hash_le \<Rightarrow>
                p2p_send X cfg ''getheaders'' (build_getheaders_payload locator_hash_le) (\<lambda>_. k h) (k h)))"

definition on_headers ::
  "externs \<Rightarrow> config \<Rightarrow> bytes \<Rightarrow> handshake \<Rightarrow> (handshake \<Rightarrow> p2p_prog) \<Rightarrow> p2p_prog" where
  "on_headers X cfg payload h k =
     (if \<not> sent_fast_handshake h then k h
      else case parse_headers_announcements X payload of
        Inl err \<Rightarrow> k h
      | Inr announcements \<Rightarrow>
          if announcements = [] then k h
          else Load (\<lambda>engine.
            let base_height = jt_height (current_job engine) in
            if base_height = 0 then k h
            else announce_blocks X cfg base_height 0 announcements (k h)))"

definition on_cmpctblock ::
  "externs \<Rightarrow> config \<Rightarrow> bytes \<Rightarrow> handshake \<Rightarrow> (handshake \<Rightarrow> p2p_prog) \<Rightarrow> p2p_prog" where
  "on_cmpctblock X cfg payload h k =
     (if \<not> sent_fast_handshake h then k h
      else case parse_cmpctblock_announcement X payload of
        Inl err \<Rightarrow> k h
      | Inr block \<Rightarrow>
          Load (\<lambda>engine.
            let block_height = jt_height (current_job engine) in
            if block_height = 0 then k h
            else announce_block X cfg block block_height (k h)))"

definition on_p2p_ping ::
  "externs \<Rightarrow> config \<Rightarrow> bytes \<Rightarrow> (string \<Rightarrow> p2p_prog) \<Rightarrow> p2p_prog \<Rightarrow> p2p_prog" where
  "on_p2p_ping X cfg payload fail p =
     (if length payload = 8 then p2p_send X cfg ''pong'' payload fail p else p)"

definition on_message ::
  "externs \<Rightarrow> config \<Rightarrow> message_frame \<Rightarrow> handshake \<Rightarrow> (string \<Rightarrow> p2p_prog) \<Rightarrow> (handshake \<Rightarrow> p2p_prog) \<Rightarrow> p2p_prog" where
  "on_message X cfg m h fail k =
     (let command = mf_command m; payload = mf_payload m in
      if command = ''version'' then on_version X cfg h fail k
      else if command = ''verack'' then on_verack X cfg h fail k
      else if command = ''inv'' then on_inv X cfg payload h k
      else if command = ''headers'' then on_headers X cfg payload h k
      else if command = ''ping'' then on_p2p_ping X cfg payload fail (k h)
      else if command = ''cmpctblock'' then on_cmpctblock X cfg payload h k
      else k h)"

text \<open>\<open>run_session\<close> after the connection: \<open>stream\<close> is what the peer sends.\<close>

lemma read_message_shorter: "read_message X cfg stream = Inr (m, rest) \<Longrightarrow> length rest < length stream"
  by (auto simp: read_message_def read_exact_def rbind_Inr_iff Let_def split: if_splits)

function session_loop ::
  "externs \<Rightarrow> config \<Rightarrow> bytes \<Rightarrow> handshake \<Rightarrow> (string \<Rightarrow> p2p_prog) \<Rightarrow> p2p_prog" where
  "session_loop X cfg stream h fail =
     (case read_message X cfg stream of
        Inl err \<Rightarrow> fail err
      | Inr (m, stream) \<Rightarrow> on_message X cfg m h fail (\<lambda>h. session_loop X cfg stream h fail))"
  by pat_completeness auto

termination
  by (relation "measure (\<lambda>(X, cfg, stream, h, fail). length stream)") (auto simp: read_message_shorter)

declare session_loop.simps [simp del]

definition run_session ::
  "externs \<Rightarrow> config \<Rightarrow> socket_addr \<Rightarrow> bytes \<Rightarrow> (string \<Rightarrow> p2p_prog) \<Rightarrow> p2p_prog" where
  "run_session X cfg remote stream fail =
     send_version X cfg remote fail (session_loop X cfg stream handshake_new fail)"

subsection \<open>Probe and reconnection\<close>

function probe_loop ::
  "externs \<Rightarrow> config \<Rightarrow> bytes \<Rightarrow> (string \<Rightarrow> p2p_prog) \<Rightarrow> p2p_prog \<Rightarrow> p2p_prog" where
  "probe_loop X cfg stream fail p =
     (case read_message X cfg stream of
        Inl err \<Rightarrow> fail err
      | Inr (m, stream) \<Rightarrow>
          if mf_command m = ''version'' then p2p_send X cfg ''verack'' [] fail p
          else if mf_command m = ''ping'' then
            on_p2p_ping X cfg (mf_payload m) fail (probe_loop X cfg stream fail p)
          else probe_loop X cfg stream fail p)"
  by pat_completeness auto

termination
  by (relation "measure (\<lambda>(X, cfg, stream, fail, p). length stream)") (auto simp: read_message_shorter)

declare probe_loop.simps [simp del]

definition probe_peer_ready ::
  "externs \<Rightarrow> config \<Rightarrow> socket_addr \<Rightarrow> bytes \<Rightarrow> (string \<Rightarrow> p2p_prog) \<Rightarrow> p2p_prog \<Rightarrow> p2p_prog" where
  "probe_peer_ready X cfg remote stream fail p =
     send_version X cfg remote fail (probe_loop X cfg stream fail p)"

text \<open>\<open>lookup\<close> is \<open>lookup_host\<close>.\<close>

definition peer_attempts :: "string \<Rightarrow> u16 \<Rightarrow> string list" where
  "peer_attempts peer port =
     (let colons = length (filter (\<lambda>c. c = CHR '':'') peer);
          port = dec_digits (unat port)
      in peer #
         (if colons = 0 then [peer @ '':'' @ port]
          else if colons > 1 \<and> take 1 peer \<noteq> ''['' then [''['' @ peer @ '']:'' @ port]
          else []))"

fun resolve_attempts ::
  "(string \<Rightarrow> socket_addr list result) \<Rightarrow> string list \<Rightarrow> string option \<Rightarrow> string \<Rightarrow> socket_addr list result" where
  "resolve_attempts lookup [] last_err peer = Inl (unwrap_or (''failed to resolve '' @ peer) last_err)"
| "resolve_attempts lookup (attempt # attempts) last_err peer =
     (case lookup attempt of
        Inr addrs \<Rightarrow> if addrs \<noteq> [] then Inr addrs else resolve_attempts lookup attempts last_err peer
      | Inl err \<Rightarrow>
          resolve_attempts lookup attempts (Some (''lookup '' @ attempt @ '' failed: '' @ err)) peer)"

definition resolve_peer_addrs ::
  "(string \<Rightarrow> socket_addr list result) \<Rightarrow> string \<Rightarrow> u16 \<Rightarrow> socket_addr list result" where
  "resolve_peer_addrs lookup peer port = resolve_attempts lookup (peer_attempts peer port) None peer"

text \<open>\<open>connect\<close> is \<open>TcpStream::connect\<close> under its timeout, with what the peer will send.\<close>

fun connect_first ::
  "(socket_addr \<Rightarrow> bytes result) \<Rightarrow> socket_addr list \<Rightarrow> string option \<Rightarrow> string \<Rightarrow> (socket_addr \<times> bytes) result" where
  "connect_first connect [] last_err peer = Inl (unwrap_or (''no reachable addresses for '' @ peer) last_err)"
| "connect_first connect (addr # addrs) last_err peer =
     (case connect addr of
        Inr stream \<Rightarrow> Inr (addr, stream)
      | Inl err \<Rightarrow> connect_first connect addrs (Some err) peer)"

definition connect_peer ::
  "(string \<Rightarrow> socket_addr list result) \<Rightarrow> (socket_addr \<Rightarrow> bytes result) \<Rightarrow> config \<Rightarrow> string \<Rightarrow>
   (socket_addr \<times> bytes) result" where
  "connect_peer lookup connect cfg peer =
     rbind (with_context (''resolve p2p fast peer '' @ peer)
       (resolve_peer_addrs lookup peer (default_port (network cfg)))) (\<lambda>addrs.
     connect_first connect addrs None peer)"

text \<open>
  The loops of \<open>run\<close>, over the results of the successive calls of \<open>connect_peer\<close>; after the last
  the client waits.
\<close>

fun session_attempts :: "externs \<Rightarrow> config \<Rightarrow> (socket_addr \<times> bytes) result list \<Rightarrow> p2p_prog" where
  "session_attempts X cfg [] = Return"
| "session_attempts X cfg (c # cs) =
     (case c of
        Inl err \<Rightarrow> session_attempts X cfg cs
      | Inr (remote, stream) \<Rightarrow> run_session X cfg remote stream (\<lambda>_. session_attempts X cfg cs))"

fun wait_for_startup_ready :: "externs \<Rightarrow> config \<Rightarrow> (socket_addr \<times> bytes) result list \<Rightarrow> p2p_prog" where
  "wait_for_startup_ready X cfg [] = Return"
| "wait_for_startup_ready X cfg (c # cs) =
     (case c of
        Inl err \<Rightarrow> wait_for_startup_ready X cfg cs
      | Inr (remote, stream) \<Rightarrow>
          probe_peer_ready X cfg remote stream (\<lambda>_. wait_for_startup_ready X cfg cs) (session_attempts X cfg cs))"

definition p2p_run :: "externs \<Rightarrow> config \<Rightarrow> (socket_addr \<times> bytes) result list \<Rightarrow> p2p_prog" where
  "p2p_run X cfg connections =
     (case p2p_fast_peer cfg of
        None \<Rightarrow> Return
      | Some peer \<Rightarrow> wait_for_startup_ready X cfg connections)"

end
