(* ===== verification/P2p_Properties.thy ===== *)
theory P2p_Properties
  imports P2p "HOL-Library.Sublist"
begin

text \<open>
  Properties of the peer-to-peer client: its messages and announcements read back, the order of
  its handshake, and what it does to the engine.
\<close>

subsection \<open>Texts\<close>

lemma length_as_bytes [simp]: "length (as_bytes s) = length s"
  by (simp add: as_bytes_def)

definition ascii_text :: "string \<Rightarrow> bool" where
  "ascii_text s \<longleftrightarrow> (\<forall>c \<in> set s. 0 < (of_char c :: nat) \<and> (of_char c :: nat) < 128)"

lemma ascii_text_simps [simp]:
  "ascii_text []" "ascii_text (c # s) \<longleftrightarrow> 0 < (of_char c :: nat) \<and> (of_char c :: nat) < 128 \<and> ascii_text s"
  by (auto simp: ascii_text_def)

lemma unat_of_char [simp]: "unat (of_char c :: u8) = of_char c"
proof -
  have "(of_char c :: nat) < 256" using of_char_eq_iff [of c c] by (simp add: nat_of_char_less_256)
  moreover have "(of_char c :: u8) = word_of_nat (of_char c)" by (simp add: of_nat_of_char)
  ultimately show ?thesis by (simp add: unat_of_nat)
qed

lemma from_utf8_lossy_ascii: "ascii_text s \<Longrightarrow> from_utf8_lossy (as_bytes s) = s"
proof (induction s)
  case Nil
  show ?case by (simp add: as_bytes_def from_utf8_lossy.simps)
next
  case (Cons c s)
  have "(of_char c :: u8) < 0x80" using Cons.prems by (simp add: word_less_nat_alt)
  then have "utf8_chunk (as_bytes (c # s)) = (True, 1)" by (simp add: utf8_chunk_def as_bytes_def)
  then show ?case
    using Cons by (subst from_utf8_lossy.simps) (simp add: as_bytes_def)
qed

lemma takeWhile_as_bytes:
  "ascii_text s \<Longrightarrow> takeWhile (\<lambda>b. b \<noteq> 0) (as_bytes s @ replicate n 0) = as_bytes s"
proof (induction s)
  case (Cons c s)
  have "(of_char c :: u8) \<noteq> 0" using Cons.prems unat_of_char [of c] by (auto simp del: unat_of_char)
  moreover have "ascii_text s" using Cons.prems by simp
  ultimately show ?case using Cons.IH by (simp add: as_bytes_def)
qed (cases n; simp add: as_bytes_def)

subsection \<open>Messages\<close>

text \<open>What the client can send: short commands of ASCII letters and payloads within the limit.\<close>

definition frame_ok :: "externs \<Rightarrow> config \<Rightarrow> message_frame \<Rightarrow> bool" where
  "frame_ok X cfg m \<longleftrightarrow>
     sha_ok X \<and> length (network_magic X (network cfg)) = 4 \<and>
     ascii_text (mf_command m) \<and> length (mf_command m) \<le> 12 \<and> length (mf_payload m) \<le> MAX_PAYLOAD_LEN"

definition frame_bytes :: "externs \<Rightarrow> config \<Rightarrow> message_frame \<Rightarrow> bytes" where
  "frame_bytes X cfg m =
     (case message_bytes X cfg (mf_command m) (mf_payload m) of Inl e \<Rightarrow> [] | Inr b \<Rightarrow> b)"

definition frame_read :: "externs \<Rightarrow> config \<Rightarrow> bytes \<Rightarrow> (message_frame \<times> bytes) option" where
  "frame_read X cfg stream = result_ok (read_message X cfg stream)"

lemma message_bytes_frame:
  "frame_ok X cfg m \<Longrightarrow> message_bytes X cfg (mf_command m) (mf_payload m) = Inr (frame_bytes X cfg m)"
  by (simp add: frame_ok_def frame_bytes_def message_bytes_def Let_def)

lemma read_message_frame:
  assumes "frame_ok X cfg m"
  shows "read_message X cfg (frame_bytes X cfg m @ rest) = Inr (m, rest)"
proof -
  let ?n = "length (mf_payload m)" and ?c = "mf_command m"
  define magic where "magic = network_magic X (network cfg)"
  define check where "check = payload_checksum X (mf_payload m)"
  define l where "l = u32_to_le (word_of_nat ?n)"
  have len: "length magic = 4" "length check = 4" "length l = 4" "length ?c \<le> 12"
    using assms by (simp_all add: frame_ok_def magic_def check_def l_def payload_checksum_def double_sha256_def sha_ok_length)
  have n: "unat (word_of_nat ?n :: u32) = ?n"
    using assms by (simp add: frame_ok_def MAX_PAYLOAD_LEN_def unat_of_nat)
  define header where "header = magic @ (as_bytes ?c @ replicate (12 - length ?c) 0) @ l @ check"
  have h: "length header = 24" "take 4 header = magic" "take 12 (drop 4 header) = as_bytes ?c @ replicate (12 - length ?c) 0"
    "take (length ?c) (drop 4 header) = as_bytes ?c" "take 4 (drop 16 header) = l" "take 4 (drop 20 header) = check"
    using len by (simp_all add: header_def)
  have "frame_bytes X cfg m = header @ mf_payload m"
    using assms by (simp add: frame_bytes_def message_bytes_def frame_ok_def header_def magic_def check_def l_def)
  moreover have "takeWhile (\<lambda>b. b \<noteq> 0) (take 12 (drop 4 header)) = as_bytes ?c"
    unfolding h(3) using assms by (simp add: frame_ok_def takeWhile_as_bytes)
  ultimately show ?thesis
    using assms h n len
    by (simp add: read_message_def read_exact_def frame_ok_def from_utf8_lossy_ascii magic_def [symmetric]
      check_def [symmetric] l_def Let_def)
qed

interpretation frames: byte_codec "frame_bytes X cfg" "frame_read X cfg" "frame_ok X cfg" for X cfg
  by unfold_locales (simp add: frame_read_def read_message_frame)

subsection \<open>The version message\<close>

lemma length_network_address: "length (encode_network_address ip port) = 26"
  by (simp add: encode_network_address_def split: ip_addr.split)

lemma length_user_agent: "length user_agent = 18"
  by (simp add: user_agent_def)

lemma version_payload_reads:
  assumes "length nonce = 8"
  shows "parse_peer_version (build_version_payload height now nonce remote) =
    Inr \<lparr>pv_version = 70016, pv_start_height = ucast (min (sat_sub height 1) 0x7fffffff)\<rparr>"
proof -
  define pre where "pre = u32_to_le PROTOCOL_VERSION @ u64_to_le 0 @ u64_to_le now
    @ encode_network_address (sa_ip remote) (sa_port remote) @ encode_network_address (V4 0) 0 @ nonce"
  define post where "post = u32_to_le (ucast (min (sat_sub height 1) 0x7fffffff)) @ [0]"
  have pre: "length pre = 80" "take 4 pre = u32_to_le PROTOCOL_VERSION"
    using assms by (simp_all add: pre_def length_network_address)
  have v: "encode_varint (word_of_nat (length user_agent)) [] = [18]"
    by (simp add: encode_varint_def length_user_agent)
  have p: "build_version_payload height now nonce remote = pre @ [18] @ as_bytes user_agent @ post"
    unfolding build_version_payload_def Let_def encode_varint_append [of _ "_ @ _"] v
    by (simp add: pre_def post_def)
  have r: "read_varint (pre @ [18] @ as_bytes user_agent @ post) 80 = Inr (18, 81)"
    using read_varint_encode [of pre 18 "as_bytes user_agent @ post"] pre(1)
    by (simp add: encode_varint_def varint_len_def)
  show ?thesis
    using pre r
    by (simp add: p parse_peer_version_def length_user_agent post_def PROTOCOL_VERSION_def)
qed

subsection \<open>Headers and inventories\<close>

text \<open>What a header announces.\<close>

definition announcement_of :: "externs \<Rightarrow> bytes \<Rightarrow> block_announcement" where
  "announcement_of X header =
     (case header_fields header of (version, prev, mroot, time, nbits, nonce) \<Rightarrow>
        \<lparr>ba_prevhash_hex = hex_encode X (rev prev), ba_block_hash_hex = hex_encode X (rev (double_sha256 X header)),
         ba_block_time = time, ba_block_nbits = nbits\<rparr>)"

lemma parse_announcement_of:
  "length header = 80 \<Longrightarrow> parse_block_announcement_from_header X header = Inr (announcement_of X header)"
  by (simp add: parse_block_announcement_from_header_def announcement_of_def header_fields_def)

lemma encode_varint_0: "encode_varint 0 [] = [0]"
  by (simp add: encode_varint_def)

lemma header_entries_read:
  "\<forall>h \<in> set hs. length h = 80 \<Longrightarrow>
   header_entries X (length hs) (pre @ concat (map (\<lambda>h. h @ [0]) hs) @ rest) (length pre) as =
     Inr (as @ map (announcement_of X) hs, length pre + 81 * length hs)"
proof (induction hs arbitrary: pre as)
  case (Cons h hs)
  let ?tail = "concat (map (\<lambda>h. h @ [0]) hs) @ rest"
  have h: "length h = 80" using Cons.prems by simp
  have g: "get_range (pre @ (h @ [0]) @ ?tail) (length pre) (length pre + 80) = Some h"
    using get_range_append [of pre h "[0] @ ?tail"] h by simp
  have v: "read_varint (pre @ (h @ [0]) @ ?tail) (length pre + 80) = Inr (0, length pre + 81)"
    using read_varint_encode [of "pre @ h" 0 ?tail] h by (simp add: encode_varint_0 varint_len_def)
  have "header_entries X (length hs) ((pre @ h @ [0]) @ ?tail) (length (pre @ h @ [0])) (as @ [announcement_of X h]) =
      Inr ((as @ [announcement_of X h]) @ map (announcement_of X) hs, length (pre @ h @ [0]) + 81 * length hs)"
    by (rule Cons.IH) (use Cons.prems in simp)
  with g v h show ?case by (simp add: parse_announcement_of add.assoc)
qed simp

lemma headers_read:
  assumes "\<forall>h \<in> set hs. length h = 80" and "length hs < 2 ^ 64"
  shows "parse_headers_announcements X (encode_varint (word_of_nat (length hs)) [] @ concat (map (\<lambda>h. h @ [0]) hs)) =
    Inr (map (announcement_of X) hs)"
proof -
  let ?v = "encode_varint (word_of_nat (length hs)) []"
  have n: "unat (word_of_nat (length hs) :: u64) = length hs" using assms(2) by (simp add: unat_of_nat)
  have len: "length (concat (map (\<lambda>h. h @ [0 :: u8]) hs)) = 81 * length hs"
    using assms(1) by (induction hs) auto
  have "header_entries X (length hs) (?v @ concat (map (\<lambda>h. h @ [0]) hs)) (length ?v) [] =
      Inr (map (announcement_of X) hs, length ?v + 81 * length hs)"
    using header_entries_read [OF assms(1), of X ?v "[]" "[]"] by simp
  then show ?thesis
    using read_varint_encode [of "[]" "word_of_nat (length hs)"] n len
    by (simp add: parse_headers_announcements_def length_encode_varint)
qed

text \<open>Whatever is accepted announces as many headers as its count says, and has nothing else.\<close>

lemma header_entries_sound:
  assumes "header_entries X n payload pos as = Inr (bs, pos')"
  shows "\<exists>hs. length hs = n \<and> (\<forall>h \<in> set hs. length h = 80 \<and> (\<exists>i. get_range payload i (i + 80) = Some h)) \<and>
    bs = as @ map (announcement_of X) hs"
  using assms
proof (induction n arbitrary: pos as)
  case (Suc n)
  obtain h q where h: "get_range payload pos (pos + 80) = Some h"
    and rest: "header_entries X n payload q (as @ [announcement_of X h]) = Inr (bs, pos')"
    and len: "length h = 80"
    using Suc.prems
    by (auto simp: rbind_Inr_iff ok_or_def parse_announcement_of split: option.splits if_splits
      dest!: get_range_length)
  from Suc.IH [OF rest] obtain hs where "length hs = n"
    "\<forall>h \<in> set hs. length h = 80 \<and> (\<exists>i. get_range payload i (i + 80) = Some h)"
    "bs = (as @ [announcement_of X h]) @ map (announcement_of X) hs" by blast
  with h len show ?case by (intro exI [of _ "h # hs"]) auto
qed simp

lemma inv_entries_read:
  "\<forall>(t, h) \<in> set es. length h = 32 \<Longrightarrow>
   inv_entries (length es) (pre @ concat (map (\<lambda>(t, h). u32_to_le t @ h) es) @ rest) (length pre) hs =
     Inr (hs @ map snd (filter (\<lambda>(t, h). is_block_inventory_type t) es), length pre + 36 * length es)"
proof (induction es arbitrary: pre hs)
  case (Cons e es)
  obtain t h where e: "e = (t, h)" by fastforce
  let ?tail = "concat (map (\<lambda>(t, h). u32_to_le t @ h) es) @ rest"
  have h: "length h = 32" using Cons.prems e by simp
  have g: "get_range (pre @ u32_to_le t @ h @ ?tail) (length pre) (length pre + 4) = Some (u32_to_le t)"
    using get_range_append [of pre "u32_to_le t" "h @ ?tail"] by simp
  have g': "get_range (pre @ u32_to_le t @ h @ ?tail) (length pre + 4) (length pre + 36) = Some h"
    using get_range_append [of "pre @ u32_to_le t" h ?tail] h by (simp add: add.commute)
  have "inv_entries (length es) ((pre @ u32_to_le t @ h) @ ?tail) (length (pre @ u32_to_le t @ h)) hs' =
      Inr (hs' @ map snd (filter (\<lambda>(t, h). is_block_inventory_type t) es), length (pre @ u32_to_le t @ h) + 36 * length es)" for hs'
    by (rule Cons.IH) (use Cons.prems in simp)
  with g g' h e show ?case by (simp add: add.assoc)
qed simp

lemma inv_read:
  assumes "\<forall>(t, h) \<in> set es. length h = 32" and "length es < 2 ^ 64"
  shows "parse_inv_block_hashes (encode_varint (word_of_nat (length es)) [] @ concat (map (\<lambda>(t, h). u32_to_le t @ h) es)) =
    Inr (map snd (filter (\<lambda>(t, h). is_block_inventory_type t) es))"
proof -
  let ?v = "encode_varint (word_of_nat (length es)) []"
  have n: "unat (word_of_nat (length es) :: u64) = length es" using assms(2) by (simp add: unat_of_nat)
  have len: "length (concat (map (\<lambda>(t, h). u32_to_le t @ h) es)) = 36 * length es"
    using assms(1) by (induction es) auto
  have "inv_entries (length es) (?v @ concat (map (\<lambda>(t, h). u32_to_le t @ h) es)) (length ?v) [] =
      Inr (map snd (filter (\<lambda>(t, h). is_block_inventory_type t) es), length ?v + 36 * length es)"
    using inv_entries_read [OF assms(1), of ?v "[]" "[]"] by simp
  then show ?thesis
    using read_varint_encode [of "[]" "word_of_nat (length es)"] n len
    by (simp add: parse_inv_block_hashes_def length_encode_varint)
qed

lemma and_single_bit: "t AND 2 ^ n = (if bit t n then 2 ^ n else 0)" for t :: u32
  by (rule bit_word_eqI) (auto simp: bit_and_iff bit_exp_iff)

lemma is_block_inventory_type_iff:
  "is_block_inventory_type t \<longleftrightarrow> t \<in> {2, 3, 4, 0x40000002, 0x40000003, 0x40000004}"
proof -
  have parts: "t = (t AND NOT m) OR (t AND m)" for m
    by (rule bit_word_eqI) (auto simp: bit_or_iff bit_and_iff bit_not_iff)
  have "t AND 0x40000000 = 0 \<or> t AND 0x40000000 = 0x40000000"
    using and_single_bit [of t 30] by (auto split: if_splits)
  with parts [of "0x40000000"] show ?thesis
    by (auto simp: is_block_inventory_type_def MSG_WITNESS_FLAG_def MSG_BLOCK_def MSG_FILTERED_BLOCK_def MSG_CMPCT_BLOCK_def)
qed

subsection \<open>The order of a session\<close>

text \<open>
  The stages of a session, by what the client has sent: nothing, \<open>version\<close>, \<open>verack\<close>, then
  \<open>sendheaders\<close> and \<open>sendcmpct\<close> twice; \<open>Over\<close> after a failed write.
\<close>

datatype stage = Fresh | Greeted | Acknowledged | Headers | Compact2 | Ready | Over

definition command_of :: "bytes \<Rightarrow> string" where
  "command_of m = from_utf8_lossy (takeWhile (\<lambda>b. b \<noteq> 0) (take 12 (drop 4 m)))"

definition payload_of :: "bytes \<Rightarrow> bytes" where
  "payload_of m = drop 24 m"

fun advance :: "string \<Rightarrow> bytes \<Rightarrow> stage \<Rightarrow> stage option" where
  "advance c payload Fresh = (if c = ''version'' then Some Greeted else None)"
| "advance c payload Greeted =
     (if c = ''verack'' then Some Acknowledged else if c = ''pong'' then Some Greeted else None)"
| "advance c payload Acknowledged =
     (if c = ''sendheaders'' then Some Headers else if c = ''pong'' then Some Acknowledged else None)"
| "advance c payload Headers =
     (if c = ''sendcmpct'' \<and> payload = build_sendcmpct_payload 2 then Some Compact2 else None)"
| "advance c payload Compact2 =
     (if c = ''sendcmpct'' \<and> payload = build_sendcmpct_payload 1 then Some Ready else None)"
| "advance c payload Ready = (if c = ''pong'' \<or> c = ''getheaders'' then Some Ready else None)"
| "advance c payload Over = None"

text \<open>
  The engine is changed in the last stage only. A failed write ends the session, but for that of
  \<open>getheaders\<close>, where the code warns and goes on.
\<close>

fun session_order :: "(engine, bytes) happened \<Rightarrow> stage \<Rightarrow> stage option" where
  "session_order (Sends m ok) q =
     map_option (\<lambda>r. if ok \<or> command_of m = ''getheaders'' then r else Over)
       (advance (command_of m) (payload_of m) q)"
| "session_order (Locks rd s t) q = (if q = Ready then Some q else None)"
| "session_order (Reads rd) q = Some q"
| "session_order (Loads s) q = Some q"
| "session_order e q = None"

lemma message_bytes_parts:
  assumes "message_bytes X cfg c payload = Inr m" and "ascii_text c"
    and "sha_ok X" and "length (network_magic X (network cfg)) = 4"
  shows "command_of m = c \<and> payload_of m = payload"
proof -
  define l where "l = u32_to_le (word_of_nat (length payload))"
  define check where "check = payload_checksum X payload"
  have len: "length c \<le> 12" using assms(1) by (auto simp: message_bytes_def split: if_splits)
  have "length l = 4" "length check = 4"
    using assms(3) by (simp_all add: l_def check_def payload_checksum_def double_sha256_def sha_ok_length)
  moreover have "m = network_magic X (network cfg) @ (as_bytes c @ replicate (12 - length c) 0) @ l @ check @ payload"
    using assms(1) by (auto simp: message_bytes_def l_def check_def split: if_splits)
  ultimately show ?thesis
    using assms(2,4) len takeWhile_as_bytes [OF assms(2)]
    by (simp add: command_of_def payload_of_def from_utf8_lossy_ascii)
qed

text \<open>A session that fails ends.\<close>

definition ends :: "string \<Rightarrow> p2p_prog" where
  "ends err = Return"

definition wire_ok :: "externs \<Rightarrow> config \<Rightarrow> bool" where
  "wire_ok X cfg \<longleftrightarrow> sha_ok X \<and> length (network_magic X (network cfg)) = 4"

lemma p2p_send_follows:
  assumes w: "wire_ok X cfg" and c: "ascii_text c" and a: "advance c payload q = Some r"
    and p: "follows session_order r p" and g: "c \<noteq> ''getheaders''"
  shows "follows session_order q (p2p_send X cfg c payload ends p)"
proof (cases "message_bytes X cfg c payload")
  case (Inr m)
  have "command_of m = c \<and> payload_of m = payload"
    using message_bytes_parts [OF Inr c] w by (simp add: wire_ok_def)
  with Inr a p g show ?thesis
    by (simp add: p2p_send_def follows_simps follows_after_def ends_def)
qed (simp add: p2p_send_def ends_def follows_simps)

definition stage_of :: "handshake \<Rightarrow> stage" where
  "stage_of h = (if sent_fast_handshake h then Ready else if sent_verack h then Acknowledged else Greeted)"

definition handshake_ok :: "handshake \<Rightarrow> bool" where
  "handshake_ok h \<longleftrightarrow> (sent_fast_handshake h \<longrightarrow> sent_verack h)"

definition orderly :: "(handshake \<Rightarrow> p2p_prog) \<Rightarrow> bool" where
  "orderly k \<longleftrightarrow> (\<forall>h. handshake_ok h \<longrightarrow> follows session_order (stage_of h) (k h))"

lemma orderlyD: "orderly k \<Longrightarrow> handshake_ok h \<Longrightarrow> stage_of h = q \<Longrightarrow> follows session_order q (k h)"
  by (auto simp: orderly_def)

lemma finish_fast_handshake_follows:
  assumes "wire_ok X cfg" and "follows session_order Ready p"
  shows "follows session_order Acknowledged (finish_fast_handshake X cfg ends p)"
proof -
  note send = p2p_send_follows [OF assms(1)]
  have "follows session_order Compact2 (p2p_send X cfg ''sendcmpct'' (build_sendcmpct_payload 1) ends p)"
    by (rule send [OF _ _ assms(2)]) simp_all
  from send [OF _ _ this, where q = Headers]
  have "follows session_order Headers (p2p_send X cfg ''sendcmpct'' (build_sendcmpct_payload 2) ends
      (p2p_send X cfg ''sendcmpct'' (build_sendcmpct_payload 1) ends p))" by simp
  from send [OF _ _ this, where q = Acknowledged] show ?thesis
    by (simp add: finish_fast_handshake_def)
qed

lemma announce_block_follows:
  "follows session_order Ready p \<Longrightarrow> follows session_order Ready (announce_block X cfg a height p)"
  by (simp add: announce_block_def follows_simps follows_after_def)

lemma announce_blocks_follows:
  "follows session_order Ready p \<Longrightarrow> follows session_order Ready (announce_blocks X cfg base i as p)"
  by (induction as arbitrary: i) (auto intro: announce_block_follows)

lemma getheaders_follows:
  assumes "wire_ok X cfg" and "follows session_order Ready p"
  shows "follows session_order Ready (p2p_send X cfg ''getheaders'' payload (\<lambda>_. p) p)"
proof (cases "message_bytes X cfg ''getheaders'' payload")
  case (Inr m)
  have "command_of m = ''getheaders''"
    using message_bytes_parts [OF Inr] assms(1) by (simp add: wire_ok_def)
  with Inr assms(2) show ?thesis
    by (simp add: p2p_send_def follows_simps follows_after_def)
qed (simp add: p2p_send_def assms(2))

lemma on_message_follows:
  assumes w: "wire_ok X cfg" and k: "orderly k" and h: "handshake_ok h"
  shows "follows session_order (stage_of h) (on_message X cfg m h ends k)"
proof -
  let ?F = "follows session_order"
  have kh: "?F (stage_of h) (k h)" using k h by (simp add: orderly_def)
  have finish: "?F Acknowledged (finish_fast_handshake X cfg ends (k g))"
    if "handshake_ok g" "sent_fast_handshake g" for g
    by (intro finish_fast_handshake_follows w orderlyD [OF k]) (use that in \<open>simp_all add: stage_of_def\<close>)
  have "?F (stage_of h) (on_version X cfg h ends k)"
  proof -
    let ?a = "h\<lparr>sent_verack := True\<rparr>"
    have a: "handshake_ok ?a" "handshake_ok (?a\<lparr>sent_fast_handshake := True\<rparr>)"
      by (simp_all add: handshake_ok_def)
    have rest: "?F (stage_of ?a) (if received_verack ?a \<and> \<not> sent_fast_handshake ?a
        then finish_fast_handshake X cfg ends (k (?a\<lparr>sent_fast_handshake := True\<rparr>)) else k ?a)"
      using finish [OF a(2)] orderlyD [OF k a(1) refl] by (auto simp: stage_of_def)
    show ?thesis
    proof (cases "sent_verack h")
      case True
      then have "?a = h" by simp
      with rest True show ?thesis by (simp add: on_version_def Let_def)
    next
      case False
      then have q: "stage_of h = Greeted" "stage_of ?a = Acknowledged"
        using h by (simp_all add: stage_of_def handshake_ok_def)
      have "?F Greeted (p2p_send X cfg ''verack'' [] ends (if received_verack ?a \<and> \<not> sent_fast_handshake ?a
        then finish_fast_handshake X cfg ends (k (?a\<lparr>sent_fast_handshake := True\<rparr>)) else k ?a))"
        by (rule p2p_send_follows [OF w _ _ rest [unfolded q]]) simp_all
      with q False show ?thesis by (simp add: on_version_def Let_def)
    qed
  qed
  moreover have "?F (stage_of h) (on_verack X cfg h ends k)"
  proof -
    let ?r = "h\<lparr>received_verack := True\<rparr>"
    have r: "handshake_ok ?r" "stage_of ?r = stage_of h" using h by (simp_all add: handshake_ok_def stage_of_def)
    show ?thesis
      using finish [of "?r\<lparr>sent_fast_handshake := True\<rparr>"] orderlyD [OF k r]
      by (auto simp: on_verack_def handshake_ok_def stage_of_def Let_def)
  qed
  moreover have "?F (stage_of h) (on_inv X cfg payload h k)" for payload
    using kh w by (auto simp: on_inv_def stage_of_def follows_simps follows_after_def
      intro!: getheaders_follows split: sum.split option.split)
  moreover have "?F (stage_of h) (on_headers X cfg payload h k)" for payload
    using kh by (auto simp: on_headers_def stage_of_def follows_simps follows_after_def Let_def
      intro!: announce_blocks_follows split: sum.split)
  moreover have "?F (stage_of h) (on_cmpctblock X cfg payload h k)" for payload
    using kh by (auto simp: on_cmpctblock_def stage_of_def follows_simps follows_after_def Let_def
      intro!: announce_block_follows split: sum.split)
  moreover have "?F (stage_of h) (on_p2p_ping X cfg payload ends (k h))" for payload
    using kh p2p_send_follows [OF w, of "''pong''" payload "stage_of h" "stage_of h" "k h"]
    by (auto simp: on_p2p_ping_def stage_of_def split: if_splits)
  ultimately show ?thesis using kh by (simp add: on_message_def Let_def)
qed

lemma session_loop_follows:
  assumes w: "wire_ok X cfg"
  shows "handshake_ok h \<Longrightarrow> follows session_order (stage_of h) (session_loop X cfg stream h ends)"
proof (induction stream arbitrary: h rule: length_induct)
  case (1 stream)
  show ?case
  proof (cases "read_message X cfg stream")
    case (Inl e)
    then show ?thesis by (subst session_loop.simps) (simp add: ends_def follows_simps)
  next
    case (Inr mr)
    obtain m rest where mr: "mr = (m, rest)" by fastforce
    have "length rest < length stream" using read_message_shorter Inr mr by metis
    then have "orderly (\<lambda>h. session_loop X cfg rest h ends)" using 1(1) by (simp add: orderly_def)
    from on_message_follows [OF w this 1(2)] Inr mr show ?thesis by (subst session_loop.simps) simp
  qed
qed

lemma run_session_follows:
  assumes "wire_ok X cfg"
  shows "follows session_order Fresh (run_session X cfg remote stream ends)"
proof -
  have "follows session_order Greeted (session_loop X cfg stream handshake_new ends)"
    using session_loop_follows [OF assms, of handshake_new stream]
    by (simp add: handshake_ok_def handshake_new_def stage_of_def)
  then show ?thesis
    unfolding run_session_def send_version_def
    by (simp add: follows_simps follows_after_def p2p_send_follows [OF assms])
qed

subsection \<open>What a client does to the engine\<close>

text \<open>
  Besides taking the permit, the engine is changed by the handler of announced blocks only, with
  an announcement of a header that \<open>H\<close> holds of.
\<close>

definition takes_permit :: "engine \<Rightarrow> engine \<Rightarrow> bool" where
  "takes_permit s t \<longleftrightarrow> t = s \<or> en_permit s \<and> t = s\<lparr>en_permit := False\<rparr>"

definition announces_header :: "externs \<Rightarrow> config \<Rightarrow> bytes \<Rightarrow> reading \<Rightarrow> engine \<Rightarrow> engine \<Rightarrow> bool" where
  "announces_header X cfg header rd s t \<longleftrightarrow>
     (\<exists>height. t = (snd (snd (fast_block_body X cfg (fast_block_of (announcement_of X header) height)
        (clock_of rd) s)))\<lparr>en_permit := True\<rparr>)"

fun engine_effect :: "externs \<Rightarrow> config \<Rightarrow> (bytes \<Rightarrow> bool) \<Rightarrow> (engine, bytes) happened \<Rightarrow> bool" where
  "engine_effect X cfg H (Locks rd s t) \<longleftrightarrow>
     takes_permit s t \<or> (\<exists>header. H header \<and> length header = 80 \<and> announces_header X cfg header rd s t)"
| "engine_effect X cfg H (Shares f) \<longleftrightarrow> False"
| "engine_effect X cfg H (Submits b r) \<longleftrightarrow> False"
| "engine_effect X cfg H (Spawns p) \<longleftrightarrow> False"
| "engine_effect X cfg H e \<longleftrightarrow> True"

abbreviation effects :: "externs \<Rightarrow> config \<Rightarrow> (bytes \<Rightarrow> bool) \<Rightarrow> p2p_prog \<Rightarrow> bool" where
  "effects X cfg H \<equiv> does_only (engine_effect X cfg H)"

lemma p2p_send_effects [intro]:
  "(\<And>e. effects X cfg H (fail e)) \<Longrightarrow> effects X cfg H p \<Longrightarrow> effects X cfg H (p2p_send X cfg c payload fail p)"
  by (auto simp: p2p_send_def does_only_simps split: sum.split)

lemma send_version_effects:
  "(\<And>e. effects X cfg H (fail e)) \<Longrightarrow> effects X cfg H p \<Longrightarrow> effects X cfg H (send_version X cfg remote fail p)"
  unfolding send_version_def by (intro does_only_simps allI p2p_send_effects) simp_all

lemma announce_block_effects:
  assumes "effects X cfg H p" and "H header" and "length header = 80"
  shows "effects X cfg H (announce_block X cfg (announcement_of X header) height p)"
proof -
  let ?body = "\<lambda>rd engine. snd (snd (fast_block_body X cfg (fast_block_of (announcement_of X header) height)
    (clock_of rd) engine))"
  have "engine_effect X cfg H (Locks rd s ((?body rd s)\<lparr>en_permit := True\<rparr>))" for rd s
    using assms(2,3) by (auto simp: announces_header_def)
  then have "effects X cfg H (Locked (\<lambda>rd engine. ((?body rd engine)\<lparr>en_permit := True\<rparr>, p)))"
    by (intro does_only_simps) (simp_all add: assms(1) del: engine_effect.simps)
  with assms(1) show ?thesis
    unfolding announce_block_def by (intro does_only_simps) (auto simp: takes_permit_def)
qed

lemma announce_blocks_effects:
  assumes "effects X cfg H p"
  shows "\<forall>h \<in> set hs. H h \<and> length h = 80 \<Longrightarrow>
    effects X cfg H (announce_blocks X cfg base i (map (announcement_of X) hs) p)"
  by (induction hs arbitrary: i) (auto simp: assms intro: announce_block_effects)

lemma parse_headers_sound:
  assumes "parse_headers_announcements X payload = Inr as"
  shows "\<exists>hs. as = map (announcement_of X) hs \<and> (\<forall>h \<in> set hs. length h = 80 \<and> sublist h payload)"
proof -
  obtain n pos pos' where "header_entries X n payload pos [] = Inr (as, pos')"
    using assms by (auto simp: parse_headers_announcements_def rbind_Inr_iff split: if_splits)
  from header_entries_sound [OF this] obtain hs where hs: "as = map (announcement_of X) hs"
    "\<forall>h \<in> set hs. length h = 80 \<and> (\<exists>i. get_range payload i (i + 80) = Some h)" by auto
  have "sublist h payload" if "get_range payload i j = Some h" for i j h
  proof -
    have "h = take (j - i) (drop i payload)" using that by (simp add: get_range_def split: if_splits)
    moreover have "payload = take i payload @ take (j - i) (drop i payload) @ drop (j - i) (drop i payload)"
      by (metis append_take_drop_id)
    ultimately show ?thesis unfolding sublist_def by metis
  qed
  with hs show ?thesis by blast
qed

lemma parse_cmpctblock_sound:
  assumes "parse_cmpctblock_announcement X payload = Inr a"
  shows "\<exists>h. a = announcement_of X h \<and> length h = 80 \<and> sublist h payload"
proof -
  have "length (take 80 payload) = 80" "a = announcement_of X (take 80 payload)"
    using assms by (auto simp: parse_cmpctblock_announcement_def parse_announcement_of split: if_splits)
  moreover have "sublist (take 80 payload) payload" by (simp add: sublist_take)
  ultimately show ?thesis by blast
qed

lemma on_message_effects:
  assumes fail: "\<And>e. effects X cfg H (fail e)" and k: "\<And>h. effects X cfg H (k h)"
    and H: "\<And>h. sublist h (mf_payload m) \<Longrightarrow> length h = 80 \<Longrightarrow> H h"
  shows "effects X cfg H (on_message X cfg m h fail k)"
proof -
  note parts = fail k does_only_simps
  have finish: "effects X cfg H (finish_fast_handshake X cfg fail p)" if "effects X cfg H p" for p
    using that fail by (auto simp: finish_fast_handshake_def)
  have "effects X cfg H (on_version X cfg h fail k)" "effects X cfg H (on_verack X cfg h fail k)"
    using finish fail k by (auto simp: on_version_def on_verack_def Let_def)
  moreover have "effects X cfg H (on_inv X cfg (mf_payload m) h k)"
    using k by (auto simp: on_inv_def split: sum.split option.split intro!: does_only_simps p2p_send_effects)
  moreover have "effects X cfg H (announce_blocks X cfg base 0 as (k h))"
    if "parse_headers_announcements X (mf_payload m) = Inr as" for base as
    using parse_headers_sound [OF that] announce_blocks_effects [OF k] H by blast
  then have "effects X cfg H (on_headers X cfg (mf_payload m) h k)"
    using k by (auto simp: on_headers_def Let_def split: sum.split intro!: does_only_simps)
  moreover have "effects X cfg H (announce_block X cfg a height (k h))"
    if "parse_cmpctblock_announcement X (mf_payload m) = Inr a" for a height
    using parse_cmpctblock_sound [OF that] announce_block_effects [OF k] H by blast
  then have "effects X cfg H (on_cmpctblock X cfg (mf_payload m) h k)"
    using k by (auto simp: on_cmpctblock_def Let_def split: sum.split intro!: does_only_simps)
  moreover have "effects X cfg H (on_p2p_ping X cfg (mf_payload m) fail (k h))"
    using fail k by (auto simp: on_p2p_ping_def)
  ultimately show ?thesis using k by (simp add: on_message_def Let_def)
qed

text \<open>The payload of a message and what follows it are parts of the stream.\<close>

lemma read_message_parts:
  assumes "read_message X cfg stream = Inr (m, rest)"
  shows "sublist (mf_payload m) stream" and "sublist rest stream"
proof -
  obtain n where "mf_payload m = take n (drop 24 stream)" "rest = drop n (drop 24 stream)"
    using assms by (auto simp: read_message_def read_exact_def rbind_Inr_iff Let_def split: if_splits)
  then show "sublist (mf_payload m) stream" "sublist rest stream"
    by (metis sublist_drop sublist_take sublist_order.order.trans)+
qed

lemma session_loop_effects:
  assumes fail: "\<And>e. effects X cfg H (fail e)"
  shows "(\<And>h. sublist h stream \<Longrightarrow> length h = 80 \<Longrightarrow> H h) \<Longrightarrow> effects X cfg H (session_loop X cfg stream h fail)"
proof (induction stream arbitrary: h rule: length_induct)
  case (1 stream)
  show ?case
  proof (cases "read_message X cfg stream")
    case (Inl e)
    then show ?thesis by (subst session_loop.simps) (simp add: fail)
  next
    case (Inr mr)
    obtain m rest where mr: "read_message X cfg stream = Inr (m, rest)" using Inr by (cases mr) auto
    note parts = read_message_parts [OF mr]
    have "effects X cfg H (session_loop X cfg rest h fail)" for h
      using 1(1) read_message_shorter [OF mr] 1(2) parts(2) by (meson sublist_order.order.trans)
    moreover have "H h" if "sublist h (mf_payload m)" "length h = 80" for h
      using 1(2) that parts(1) by (meson sublist_order.order.trans)
    ultimately show ?thesis
      using on_message_effects [OF fail, where m = m] mr by (subst session_loop.simps) simp
  qed
qed

lemma probe_loop_effects:
  assumes fail: "\<And>e. effects X cfg H (fail e)" and p: "effects X cfg H p"
  shows "effects X cfg H (probe_loop X cfg stream fail p)"
proof (induction stream rule: length_induct)
  case (1 stream)
  show ?case
  proof (cases "read_message X cfg stream")
    case (Inr mr)
    obtain m rest where mr: "read_message X cfg stream = Inr (m, rest)" using Inr by (cases mr) auto
    then have "effects X cfg H (probe_loop X cfg rest fail p)" using 1 read_message_shorter by blast
    then show ?thesis
      using fail p mr by (subst probe_loop.simps) (auto simp: on_p2p_ping_def)
  qed (subst probe_loop.simps, simp add: fail)
qed

definition received :: "(socket_addr \<times> bytes) result list \<Rightarrow> bytes \<Rightarrow> bool" where
  "received connections h \<longleftrightarrow> (\<exists>remote stream. Inr (remote, stream) \<in> set connections \<and> sublist h stream)"

lemma session_attempts_effects:
  "(\<And>h. received cs h \<Longrightarrow> length h = 80 \<Longrightarrow> H h) \<Longrightarrow> effects X cfg H (session_attempts X cfg cs)"
proof (induction cs)
  case (Cons c cs)
  have rest: "effects X cfg H (session_attempts X cfg cs)"
    by (rule Cons.IH) (use Cons.prems in \<open>auto simp: received_def\<close>)
  show ?case
  proof (cases c)
    case (Inr rs)
    obtain remote stream where rs: "rs = (remote, stream)" by fastforce
    have "effects X cfg H (session_loop X cfg stream handshake_new (\<lambda>_. session_attempts X cfg cs))"
      by (rule session_loop_effects [OF rest]) (use Cons.prems Inr rs in \<open>auto simp: received_def\<close>)
    with rest Inr rs show ?thesis by (simp add: run_session_def send_version_effects)
  qed (use rest in simp)
qed (simp add: does_only_simps)

lemma p2p_run_effects:
  assumes "\<And>h. received cs h \<Longrightarrow> length h = 80 \<Longrightarrow> H h"
  shows "effects X cfg H (p2p_run X cfg cs)"
proof -
  have "effects X cfg H (wait_for_startup_ready X cfg cs)"
    using assms
  proof (induction cs)
    case (Cons c cs)
    have h: "\<And>h. received cs h \<Longrightarrow> length h = 80 \<Longrightarrow> H h" using Cons.prems by (auto simp: received_def)
    have rest: "effects X cfg H (wait_for_startup_ready X cfg cs)" by (rule Cons.IH) (rule h)
    have sess: "effects X cfg H (session_attempts X cfg cs)" by (rule session_attempts_effects) (rule h)
    show ?case
      using rest sess by (auto simp: probe_peer_ready_def split: sum.split intro!: send_version_effects probe_loop_effects)
  qed (simp add: does_only_simps)
  then show ?thesis by (simp add: p2p_run_def does_only_simps split: option.split)
qed

text \<open>A job that such a step publishes.\<close>

lemma announced_job:
  assumes X: "hex_ok X" "sha_ok X" and e: "engine_effect X cfg H (Locks rd s t)"
    and new: "en_current t \<noteq> en_current s"
  shows "\<exists>header tip version prev mroot time nonce target. H header \<and>
    header_fields header = (version, prev, mroot, time, tip_nbits_u32 tip, nonce) \<and> length header = 80 \<and>
    en_chain_tip s = Some tip \<and> eq_ignore_ascii_case (tip_hash_hex tip) (hex_encode X (rev prev)) \<and>
    compact_target_to_le (tip_nbits_u32 tip) = Some target \<and>
    le_to_nat (double_sha256 X header) \<le> le_to_nat target \<and>
    jt_prevhash_le_bytes (en_current t) = double_sha256 X header \<and>
    jt_height (en_current t) = tip_height tip + 2 \<and> jt_transactions (en_current t) = []"
proof -
  have "\<not> takes_permit s t" using new by (auto simp: takes_permit_def)
  with e obtain header height where h: "H header" "length header = 80"
    and t: "t = (snd (snd (fast_block_body X cfg (fast_block_of (announcement_of X header) height) (clock_of rd) s)))
      \<lparr>en_permit := True\<rparr>"
    by (auto simp: announces_header_def)
  obtain version prev mroot time nbits nonce where f: "header_fields header = (version, prev, mroot, time, nbits, nonce)"
    by (cases "header_fields header") auto
  define blk where "blk = fast_block_of (announcement_of X header) height"
  have b: "fb_prevhash_hex blk = hex_encode X (rev prev)" "fb_block_hash_hex blk = hex_encode X (rev (double_sha256 X header))"
    "fb_block_nbits blk = nbits"
    by (simp_all add: blk_def fast_block_of_def announcement_of_def f)
  obtain r sp u where body: "fast_block_body X cfg blk (clock_of rd) s = (r, sp, u)" by (metis prod_cases3)
  then have u: "t = u\<lparr>en_permit := True\<rparr>" by (simp add: t flip: blk_def)
  from fast_block_body_cases [OF X(1) body] u new
  obtain tip mtp key job where g: "en_chain_tip s = Some tip" "fast_guards X cfg blk tip"
    "built_empty X cfg tip (fb_block_hash_hex blk) (fb_block_height blk + 1) mtp key (en_job_counter s) job"
    "published X s job u"
    by (auto simp: same_published_def)
  have job: "en_current t = job" using g(4) u by (simp add: published_def)
  have dec: "hex_decode X (fb_block_hash_hex blk) = Inr (rev (double_sha256 X header))"
    by (simp add: b hex_ok_roundtrip [OF X(1)])
  have l: "length (double_sha256 X header) = 32" by (simp add: double_sha256_def sha_ok_length [OF X(2)])
  have n: "nbits = tip_nbits_u32 tip" using g(2) b by (simp add: fast_guards_def)
  obtain target where target: "compact_target_to_le nbits = Some target" "leq_le256 (double_sha256 X header) target"
    using g(2) dec l b
    by (auto simp: fast_guards_def block_hash_meets_compact_target_def rbind_Inr_iff ok_or_def split: option.splits)
  then have "le_to_nat (double_sha256 X header) \<le> le_to_nat target"
    using l compact_target_to_le_Some [OF target(1)] by (simp add: leq_le256_le_to_nat)
  moreover have "jt_prevhash_le_bytes job = double_sha256 X header" "jt_transactions job = []"
    "jt_height job = tip_height tip + 2"
    using g(2,3) dec by (auto simp: built_empty_def fast_guards_def)
  moreover have "eq_ignore_ascii_case (tip_hash_hex tip) (hex_encode X (rev prev))"
    using g(2) b by (simp add: fast_guards_def)
  ultimately show ?thesis using h f g(1) n target(1) job
    by (intro exI [of _ header] exI [of _ tip] exI [of _ version] exI [of _ prev] exI [of _ mroot] exI [of _ time]
      exI [of _ nonce] exI [of _ target] conjI) simp_all
qed

subsection \<open>Sample connections\<close>

lemma session_loop_frame:
  "frame_ok X cfg m \<Longrightarrow> session_loop X cfg (frame_bytes X cfg m @ rest) h fail =
     on_message X cfg m h fail (\<lambda>h. session_loop X cfg rest h fail)"
  by (subst session_loop.simps) (simp add: read_message_frame)

lemma probe_loop_version:
  "frame_ok X cfg m \<Longrightarrow> mf_command m = ''version'' \<Longrightarrow>
   probe_loop X cfg (frame_bytes X cfg m @ rest) fail p = p2p_send X cfg ''verack'' [] fail p"
  by (subst probe_loop.simps) (simp add: read_message_frame)

lemma p2p_send_trace:
  assumes "wire_ok X cfg" and "ascii_text c" and "length c \<le> 12" and "length payload \<le> MAX_PAYLOAD_LEN"
  obtains m where "command_of m = c" and "payload_of m = payload"
    and "\<And>fail p es. task_trace p es \<Longrightarrow> task_trace (p2p_send X cfg c payload fail p) (Sends m True # es)"
proof -
  have "frame_ok X cfg \<lparr>mf_command = c, mf_payload = payload\<rparr>"
    using assms by (simp add: frame_ok_def wire_ok_def)
  from message_bytes_frame [OF this] obtain m where m: "message_bytes X cfg c payload = Inr m" by auto
  then have "command_of m = c" "payload_of m = payload"
    using message_bytes_parts assms(1,2) by (simp_all add: wire_ok_def)
  moreover have "task_trace (p2p_send X cfg c payload fail p) (Sends m True # es)" if "task_trace p es" for fail p es
    using m that by (auto simp: p2p_send_def trace_simps)
  ultimately show thesis by (rule that)
qed

text \<open>A node that greets, acknowledges and announces a block.\<close>

definition node_externs :: externs where
  "node_externs = ref_externs\<lparr>sha256 := (\<lambda>_. replicate 32 0)\<rparr>"

definition node_config :: config where
  "node_config = sample_config\<lparr>p2p_fast_peer := Some ''node''\<rparr>"

definition node_header :: bytes where
  "node_header = build_header 0x20000000 (replicate 32 0) (replicate 32 1) 5 0x1d00ffff 7"

definition node_message :: "string \<Rightarrow> bytes \<Rightarrow> message_frame" where
  "node_message c payload = \<lparr>mf_command = c, mf_payload = payload\<rparr>"

definition node_stream :: bytes where
  "node_stream = frame_bytes node_externs node_config (node_message ''version'' [])
    @ frame_bytes node_externs node_config (node_message ''verack'' [])
    @ frame_bytes node_externs node_config (node_message ''cmpctblock'' (node_header @ replicate 10 0))"

definition node_addr :: socket_addr where
  "node_addr = \<lparr>sa_ip = V4 0x7f000001, sa_port = 8333\<rparr>"

definition node_tip :: chain_tip_state where
  "node_tip = sample_tip\<lparr>tip_hash_hex := hex_encode node_externs (replicate 32 0)\<rparr>"

definition node_engine :: engine where
  "node_engine = (engine_new pool_counters_default 0)
     \<lparr>en_chain_tip := Some node_tip, en_current := (empty_template 0)\<lparr>jt_height := 840000\<rparr>\<rparr>"

definition node_reading :: reading where
  "node_reading = \<lparr>rd_now = 0, rd_secs = 0, rd_ms = 0, rd_elapsed_us = 0, rd_current = empty_template 0,
     rd_watch = empty_template 0, rd_closed = False, rd_order = [], rd_random = (\<lambda>_. 9)\<rparr>"

lemma node_externs_ok: "hex_ok node_externs" "sha_ok node_externs" "wire_ok node_externs cfg"
  using ref_hex_ok by (simp_all add: node_externs_def hex_ok_def sha_ok_def wire_ok_def ref_externs_def)

lemma node_message_ok:
  "ascii_text c \<Longrightarrow> length c \<le> 12 \<Longrightarrow> length payload \<le> 100 \<Longrightarrow> frame_ok node_externs node_config (node_message c payload)"
  using node_externs_ok(3) [of node_config]
  by (simp add: frame_ok_def wire_ok_def node_message_def MAX_PAYLOAD_LEN_def)

lemma length_node_header: "length node_header = 80"
  by (simp add: node_header_def build_header_def)

text \<open>A session with it: the handshake, and what the announcement does from any state.\<close>

lemma node_session:
  assumes e: "jt_height (current_job e) = 840000"
    and es: "task_trace (announce_block node_externs node_config (announcement_of node_externs node_header) 840000
      (fail ''unexpected end of file'')) es"
  obtains ms where "map command_of ms = [''version'', ''verack'', ''sendheaders'', ''sendcmpct'', ''sendcmpct'']"
    and "task_trace (run_session node_externs node_config node_addr node_stream fail)
      (Loads e # Reads rd # map (\<lambda>m. Sends m True) ms @ Loads e # es)"
proof -
  let ?X = node_externs and ?cfg = node_config
  let ?hello = "build_version_payload (jt_height (current_job e)) (rd_secs rd) (map (rd_random rd) [0..<8]) node_addr"
  note send = p2p_send_trace [OF node_externs_ok(3) [of ?cfg]]
  have hello: "length ?hello \<le> MAX_PAYLOAD_LEN"
    by (simp add: build_version_payload_def length_encode_varint length_network_address length_user_agent
      varint_len_def MAX_PAYLOAD_LEN_def Let_def)
  obtain m1 where m1: "command_of m1 = ''version''"
    "\<And>p es. task_trace p es \<Longrightarrow> task_trace (p2p_send ?X ?cfg ''version'' ?hello fail p) (Sends m1 True # es)"
    by (rule send [OF _ _ hello, of "''version''"]) simp_all
  obtain m2 where m2: "command_of m2 = ''verack''"
    "\<And>p es. task_trace p es \<Longrightarrow> task_trace (p2p_send ?X ?cfg ''verack'' [] fail p) (Sends m2 True # es)"
    by (rule send [of "''verack''" "[]"]) simp_all
  obtain m3 where m3: "command_of m3 = ''sendheaders''"
    "\<And>p es. task_trace p es \<Longrightarrow> task_trace (p2p_send ?X ?cfg ''sendheaders'' [] fail p) (Sends m3 True # es)"
    by (rule send [of "''sendheaders''" "[]"]) simp_all
  obtain m4 where m4: "command_of m4 = ''sendcmpct''"
    "\<And>p es. task_trace p es \<Longrightarrow> task_trace (p2p_send ?X ?cfg ''sendcmpct'' (build_sendcmpct_payload 2) fail p) (Sends m4 True # es)"
    by (rule send [of "''sendcmpct''" "build_sendcmpct_payload 2"]) (simp_all add: build_sendcmpct_payload_def MAX_PAYLOAD_LEN_def)
  obtain m5 where m5: "command_of m5 = ''sendcmpct''"
    "\<And>p es. task_trace p es \<Longrightarrow> task_trace (p2p_send ?X ?cfg ''sendcmpct'' (build_sendcmpct_payload 1) fail p) (Sends m5 True # es)"
    by (rule send [of "''sendcmpct''" "build_sendcmpct_payload 1"]) (simp_all add: build_sendcmpct_payload_def MAX_PAYLOAD_LEN_def)
  let ?f = "\<lambda>c payload. frame_bytes ?X ?cfg (node_message c payload)"
  let ?block = "node_header @ replicate 10 0"
  have ok: "frame_ok ?X ?cfg (node_message ''version'' [])" "frame_ok ?X ?cfg (node_message ''verack'' [])"
    "frame_ok ?X ?cfg (node_message ''cmpctblock'' ?block)"
    by (simp_all add: node_message_ok length_node_header)
  have eof: "session_loop ?X ?cfg [] h fail = fail ''unexpected end of file''" for h
    by (subst session_loop.simps) (simp add: read_message_def read_exact_def)
  have parse: "parse_cmpctblock_announcement ?X ?block = Inr (announcement_of ?X node_header)"
    by (simp add: parse_cmpctblock_announcement_def parse_announcement_of length_node_header)
  have t5: "task_trace (session_loop ?X ?cfg (?f ''cmpctblock'' ?block) h fail) (Loads e # es)"
    if "sent_fast_handshake h" for h
    using session_loop_frame [OF ok(3), of "[]" h fail] es e that eof parse
    by (simp add: on_message_def node_message_def on_cmpctblock_def trace_simps)
  have t2: "task_trace (session_loop ?X ?cfg (?f ''verack'' [] @ ?f ''cmpctblock'' ?block) h fail)
      (Sends m3 True # Sends m4 True # Sends m5 True # Loads e # es)"
    if "sent_verack h" "\<not> sent_fast_handshake h" for h
    unfolding session_loop_frame [OF ok(2)]
    using that t5 [of "h\<lparr>received_verack := True, sent_fast_handshake := True\<rparr>"]
    by (simp add: on_message_def node_message_def on_verack_def finish_fast_handshake_def m3(2) m4(2) m5(2) Let_def)
  have t1: "task_trace (session_loop ?X ?cfg node_stream handshake_new fail)
      (Sends m2 True # Sends m3 True # Sends m4 True # Sends m5 True # Loads e # es)"
    unfolding node_stream_def session_loop_frame [OF ok(1)]
    using t2 [of "handshake_new\<lparr>sent_verack := True\<rparr>"]
    by (simp add: on_message_def node_message_def on_version_def handshake_new_def m2(2) Let_def)
  have "task_trace (run_session ?X ?cfg node_addr node_stream fail)
      (Loads e # Reads rd # map (\<lambda>m. Sends m True) [m1, m2, m3, m4, m5] @ Loads e # es)"
    using m1(2) [OF t1] by (simp add: run_session_def send_version_def trace_simps)
  with m1(1) m2(1) m3(1) m4(1) m5(1) show thesis by (intro that [of "[m1, m2, m3, m4, m5]"]) simp_all
qed

lemma node_config_ok: "config_ok node_externs node_config"
  using validate_ok [OF sample_valid] unfolding config_ok_def payout_ok_def sv2_listener_ok_def
  by (simp add: node_config_def node_externs_def difficulty_ok_def)

lemma node_announcement:
  "announcement_of node_externs node_header =
     \<lparr>ba_prevhash_hex = ref_hex_encode (replicate 32 0), ba_block_hash_hex = ref_hex_encode (replicate 32 0),
      ba_block_time = 5, ba_block_nbits = 0x1d00ffff\<rparr>"
  using header_fields_build [of "replicate 32 0" "replicate 32 1" "0x20000000" 5 "0x1d00ffff" 7 "[]"]
  by (simp add: announcement_of_def node_header_def double_sha256_def node_externs_def)

lemma node_empty_job:
  "\<exists>job. build_empty_job node_externs node_config tip (ref_hex_encode (replicate 32 0)) 840001 mtp key n secs now = Inr job"
proof -
  obtain c1 c2 tx b where p: "build_coinbase_parts node_externs node_config (block_subsidy_sat 840001) 840001 None None =
      Inr (c1, c2, tx, b)"
    using coinbase_parts_exist [OF node_config_ok, of 840001 "block_subsidy_sat 840001"] by auto
  obtain b1 b2 where "hex_decode node_externs c1 = Inr b1" "hex_decode node_externs c2 = Inr b2"
    using coinbase_parts_decode [OF node_externs_ok(1) p] by auto
  with p show ?thesis
    by (simp add: build_empty_job_def node_externs_def ref_hex_roundtrip swap_words_def to_little_endian_def Let_def)
qed

lemma node_fast_block:
  "\<exists>e'. fast_block_body node_externs node_config (fast_block_of (announcement_of node_externs node_header) 840000)
      (clock_of rd) (node_engine\<lparr>en_permit := False\<rparr>) = (Inr (), None, e') \<and> jt_ready (en_current e')"
proof -
  let ?blk = "fast_block_of (announcement_of node_externs node_header) 840000"
  obtain t where t: "compact_target_to_le 0x1d00ffff = Some t"
    by (simp add: compact_target_to_le_def Let_def drop_bit_eq_div)
  then have len: "length t = 32" using compact_target_to_le_Some by blast
  have pow: "block_hash_meets_compact_target node_externs (ref_hex_encode (replicate 32 0)) 0x1d00ffff = Inr True"
    using len by (simp add: block_hash_meets_compact_target_def node_externs_def ref_hex_roundtrip t leq_le256_le_to_nat le_to_nat_zeros)
  have next_h: "sat_add 840000 1 = (840001 :: u64)" by (simp add: sat_add_def)
  have blk: "fb_prevhash_hex ?blk = ref_hex_encode (replicate 32 0)" "fb_block_hash_hex ?blk = ref_hex_encode (replicate 32 0)"
    "fb_block_time ?blk = 5" "fb_block_height ?blk = 840000" "fb_block_nbits ?blk = 0x1d00ffff"
    by (simp_all add: fast_block_of_def node_announcement)
  have tip: "tip_hash_hex node_tip = ref_hex_encode (replicate 32 0)" "tip_height node_tip = 839999"
    "tip_nbits_u32 node_tip = 0x1d00ffff"
    by (simp_all add: node_tip_def sample_tip_def node_externs_def)
  have eng: "en_chain_tip node_engine = Some node_tip" "\<not> jt_ready (en_current node_engine)"
    "en_last_template_key node_engine = None" "en_receivers node_engine = 0" "en_job_counter node_engine = 1"
    by (simp_all add: node_engine_def engine_new_def empty_template_def)
  have net: "network node_config = Bitcoin" by (simp add: node_config_def)
  obtain job where job: "build_empty_job node_externs node_config node_tip (ref_hex_encode (replicate 32 0)) 840001
      (max (tip_median_time_past node_tip) 5) (fast_template_key ?blk 840001 node_tip) 1
      (ck_secs (clock_of rd)) (ck_utc (clock_of rd)) = Inr job"
    using node_empty_job by blast
  have ready: "jt_ready job" using build_empty_job_built [OF job] by (simp add: built_empty_def)
  have dec: "hex_decode node_externs (ref_hex_encode bs) = Inr bs" for bs
    by (simp add: node_externs_def ref_hex_roundtrip)
  obtain prev where prev: "to_little_endian node_externs (replicate 32 0) = Inr prev"
    by (simp add: to_little_endian_def)
  show ?thesis
    using job ready prev
    by (simp add: fast_block_body_def blk tip eng pow next_h net dec eq_ignore_ascii_case_def
      should_publish_fast_empty_job_for_network_def publish_fast_job_def publish_job_def Let_def)
qed

lemma node_announces:
  obtains s t where "task_trace (announce_block node_externs node_config (announcement_of node_externs node_header) 840000 Return)
      [Locks rd node_engine s, Locks rd s t]" and "en_current t \<noteq> en_current s"
proof -
  let ?s = "node_engine\<lparr>en_permit := False\<rparr>"
  obtain e' where e': "fast_block_body node_externs node_config (fast_block_of (announcement_of node_externs node_header) 840000)
      (clock_of rd) ?s = (Inr (), None, e')" "jt_ready (en_current e')"
    using node_fast_block by blast
  have permit: "en_permit node_engine" and old: "\<not> jt_ready (en_current ?s)"
    by (simp_all add: node_engine_def engine_new_def empty_template_def)
  have "task_trace (announce_block node_externs node_config (announcement_of node_externs node_header) 840000 Return)
      [Locks rd node_engine ?s, Locks rd ?s (e'\<lparr>en_permit := True\<rparr>)]"
    using e'(1) permit by (auto simp: announce_block_def trace_simps)
  moreover have "en_current (e'\<lparr>en_permit := True\<rparr>) \<noteq> en_current ?s" using e'(2) old by auto
  ultimately show thesis by (rule that)
qed

text \<open>The probe, then the session.\<close>

lemma node_run:
  obtains es s t where "task_trace (p2p_run node_externs node_config [Inr (node_addr, node_stream), Inr (node_addr, node_stream)]) es"
    and "Locks node_reading s t \<in> set es" and "en_current t \<noteq> en_current s"
proof -
  let ?X = node_externs and ?cfg = node_config and ?e = node_engine and ?rd = node_reading
  let ?hello = "build_version_payload (jt_height (current_job ?e)) (rd_secs ?rd) (map (rd_random ?rd) [0..<8]) node_addr"
  let ?fail = "\<lambda>_ :: string. session_attempts ?X ?cfg []"
  let ?again = "\<lambda>_ :: string. wait_for_startup_ready ?X ?cfg [Inr (node_addr, node_stream)]"
  note send = p2p_send_trace [OF node_externs_ok(3) [of ?cfg]]
  obtain s t where st: "task_trace (announce_block ?X ?cfg (announcement_of ?X node_header) 840000 (?fail ''unexpected end of file''))
      [Locks ?rd ?e s, Locks ?rd s t]" "en_current t \<noteq> en_current s"
    using node_announces by auto
  have e: "jt_height (current_job ?e) = 840000" by (simp add: node_engine_def current_job_def)
  obtain ms where t2: "task_trace (run_session ?X ?cfg node_addr node_stream ?fail)
      (Loads ?e # Reads ?rd # map (\<lambda>m. Sends m True) ms @ Loads ?e # [Locks ?rd ?e s, Locks ?rd s t])"
    by (rule node_session [where fail = ?fail, OF e st(1)])
  have hello: "length ?hello \<le> MAX_PAYLOAD_LEN"
    by (simp add: build_version_payload_def length_encode_varint length_network_address length_user_agent
      varint_len_def MAX_PAYLOAD_LEN_def Let_def)
  obtain m1 where m1: "\<And>fail p es. task_trace p es \<Longrightarrow> task_trace (p2p_send ?X ?cfg ''version'' ?hello fail p) (Sends m1 True # es)"
    by (rule send [OF _ _ hello, of "''version''"]) (simp, simp, blast)
  obtain m2 where m2: "\<And>fail p es. task_trace p es \<Longrightarrow> task_trace (p2p_send ?X ?cfg ''verack'' [] fail p) (Sends m2 True # es)"
    by (rule send [of "''verack''" "[]"]) (simp, simp, simp, blast)
  have ok: "frame_ok ?X ?cfg (node_message ''version'' [])" by (simp add: node_message_ok)
  have "probe_loop ?X ?cfg node_stream ?again p = p2p_send ?X ?cfg ''verack'' [] ?again p" for p
    unfolding node_stream_def by (rule probe_loop_version [OF ok]) (simp add: node_message_def)
  then have probe: "task_trace (probe_loop ?X ?cfg node_stream ?again p) (Sends m2 True # es)" if "task_trace p es" for p es
    using m2 [OF that] by simp
  have "p2p_run ?X ?cfg [Inr (node_addr, node_stream), Inr (node_addr, node_stream)] =
      probe_peer_ready ?X ?cfg node_addr node_stream ?again (run_session ?X ?cfg node_addr node_stream ?fail)"
    by (simp add: p2p_run_def node_config_def)
  then have "task_trace (p2p_run ?X ?cfg [Inr (node_addr, node_stream), Inr (node_addr, node_stream)])
      (Loads ?e # Reads ?rd # Sends m1 True # Sends m2 True #
       Loads ?e # Reads ?rd # map (\<lambda>m. Sends m True) ms @ Loads ?e # [Locks ?rd ?e s, Locks ?rd s t])"
    using m1 [OF probe [OF t2]] by (simp add: probe_peer_ready_def send_version_def trace_simps)
  then show thesis by (rule that [OF _ _ st(2)]) simp
qed

subsection \<open>Properties\<close>

text \<open>C20 (\<open>send_message\<close>, \<open>read_message\<close>): the messages that the client writes one after the other,
  with short ASCII commands and payloads within the limit, are read back in order, and what
  follows them is left.\<close>

theorem p2p_messages_roundtrip:
  assumes "\<And>m. m \<in> set ms \<Longrightarrow> frame_ok X cfg m"
  shows "(\<forall>m \<in> set ms. message_bytes X cfg (mf_command m) (mf_payload m) = Inr (frame_bytes X cfg m)) \<and>
    decode_many (frame_read X cfg) (length ms) (concat (map (frame_bytes X cfg) ms) @ rest) = Some (ms, rest)"
  using frames.decode_many_enc [of ms X cfg rest] message_bytes_frame assms by blast

theorem p2p_messages_roundtrip_witness:
  "\<exists>a b. message_bytes node_externs node_config ''verack'' [] = Inr a \<and>
     message_bytes node_externs node_config ''pong'' [1, 2, 3, 4, 5, 6, 7, 8] = Inr b \<and>
     decode_many (frame_read node_externs node_config) 2 (a @ b) =
       Some ([node_message ''verack'' [], node_message ''pong'' [1, 2, 3, 4, 5, 6, 7, 8]], [])"
proof -
  let ?ms = "[node_message ''verack'' [], node_message ''pong'' [1, 2, 3, 4, 5, 6, 7, 8]]"
  have "\<And>m. m \<in> set ?ms \<Longrightarrow> frame_ok node_externs node_config m" by (auto intro!: node_message_ok)
  note r = p2p_messages_roundtrip [where ms = ?ms and rest = "[]", OF this]
  have "message_bytes node_externs node_config ''verack'' [] = Inr (frame_bytes node_externs node_config (node_message ''verack'' []))"
    "message_bytes node_externs node_config ''pong'' [1, 2, 3, 4, 5, 6, 7, 8] =
      Inr (frame_bytes node_externs node_config (node_message ''pong'' [1, 2, 3, 4, 5, 6, 7, 8]))"
    "length ?ms = 2"
    using conjunct1 [OF r] by (simp_all add: node_message_def)
  with conjunct2 [OF r] show ?thesis by (auto simp: numeral_2_eq_2 simp del: decode_many.simps)
qed

text \<open>\<open>parse_headers_announcements\<close>, \<open>parse_inv_block_hashes\<close>, \<open>parse_peer_version\<close>: block headers
  in a \<open>headers\<close> message are announced in order, with the previous block, the hash, the time and
  the compact target of each; an \<open>inv\<close> gives the hashes of its entries of the six block types;
  and the version message of the client reads back to its protocol version and start height.\<close>

theorem p2p_payloads_read_back:
  assumes "\<forall>h \<in> set hs. length h = 80" and "length hs < 2 ^ 64"
    and "\<forall>(t, h) \<in> set es. length h = 32" and "length es < 2 ^ 64" and "length nonce = 8"
  shows "parse_headers_announcements X (encode_varint (word_of_nat (length hs)) [] @ concat (map (\<lambda>h. h @ [0]) hs)) =
      Inr (map (announcement_of X) hs) \<and>
    parse_inv_block_hashes (encode_varint (word_of_nat (length es)) [] @ concat (map (\<lambda>(t, h). u32_to_le t @ h) es)) =
      Inr (map snd (filter (\<lambda>(t, h). t \<in> {2, 3, 4, 0x40000002, 0x40000003, 0x40000004}) es)) \<and>
    parse_peer_version (build_version_payload height now nonce remote) =
      Inr \<lparr>pv_version = 70016, pv_start_height = ucast (min (sat_sub height 1) 0x7fffffff)\<rparr>"
  using headers_read [OF assms(1,2)] inv_read [OF assms(3,4)] version_payload_reads [OF assms(5)]
  by (simp add: is_block_inventory_type_iff)

theorem p2p_payloads_read_back_witness:
  "parse_headers_announcements node_externs (encode_varint 1 [] @ node_header @ [0]) =
     Inr [\<lparr>ba_prevhash_hex = hex_encode node_externs (replicate 32 0),
       ba_block_hash_hex = hex_encode node_externs (replicate 32 0), ba_block_time = 5, ba_block_nbits = 0x1d00ffff\<rparr>] \<and>
   parse_inv_block_hashes (encode_varint 2 [] @ u32_to_le 1 @ replicate 32 7 @ u32_to_le 0x40000002 @ replicate 32 8) =
     Inr [replicate 32 8]"
proof -
  have a: "announcement_of node_externs node_header = \<lparr>ba_prevhash_hex = hex_encode node_externs (replicate 32 0),
       ba_block_hash_hex = hex_encode node_externs (replicate 32 0), ba_block_time = 5, ba_block_nbits = 0x1d00ffff\<rparr>"
    using header_fields_build [of "replicate 32 0" "replicate 32 1" "0x20000000" 5 "0x1d00ffff" 7 "[]"]
    by (simp add: announcement_of_def node_header_def double_sha256_def node_externs_def)
  show ?thesis
    using p2p_payloads_read_back [where hs = "[node_header]" and nonce = "replicate 8 0" and X = node_externs
      and es = "[(1, replicate 32 7), (0x40000002, replicate 32 8)]"]
    by (simp add: a length_node_header)
qed

text \<open>C19 (\<open>run_session\<close>): whatever the peer sends and however the engine changes, the client of a
  session sends its version first, acknowledges the peer's once, then announces \<open>sendheaders\<close> and
  the two versions of compact blocks, each at most once and in this order, and only then asks for
  headers and hands announced blocks to the engine; beside these it sends only pongs. After a failed
  write it sends nothing more and leaves the engine alone, with one exception: a \<open>getheaders\<close> that
  cannot be written is only logged, and the session goes on.\<close>

theorem p2p_session_order:
  assumes "wire_ok X cfg" and "task_trace (run_session X cfg remote stream ends) es"
  shows "run_spec session_order Fresh es \<noteq> None"
  using followsD [OF run_session_follows [OF assms(1)] assms(2)] .

theorem p2p_session_order_witness:
  "\<exists>es. task_trace (run_session node_externs node_config node_addr node_stream ends) es \<and>
     map command_of (messages es) = [''version'', ''verack'', ''sendheaders'', ''sendcmpct'', ''sendcmpct''] \<and>
     run_spec session_order Fresh es \<noteq> None"
proof -
  have e: "jt_height (current_job node_engine) = 840000" by (simp add: node_engine_def current_job_def)
  obtain ms where ms: "map command_of ms = [''version'', ''verack'', ''sendheaders'', ''sendcmpct'', ''sendcmpct'']"
    and t: "task_trace (run_session node_externs node_config node_addr node_stream ends)
      (Loads node_engine # Reads node_reading # map (\<lambda>m. Sends m True) ms @ Loads node_engine # [])"
    by (rule node_session [OF e task_trace.intros(1)])
  have "messages (map (\<lambda>m. Sends m True) ms @ es) = ms @ messages es" for es :: "(engine, bytes) happened list"
    by (induction ms) auto
  with p2p_session_order [OF node_externs_ok(3) t] ms t show ?thesis
    by (intro exI [of _ "Loads node_engine # Reads node_reading # map (\<lambda>m. Sends m True) ms @ [Loads node_engine]"]) simp
qed

text \<open>C18 (\<open>P2pClient::run\<close>, \<open>handle_fast_block_announcement\<close>): whenever the client changes the
  engine's current job, it has received an eighty-byte header that extends the engine's chain tip,
  has the tip's compact target and whose double hash meets that target; the new job is empty and
  builds on this hash, two above the old tip.\<close>

theorem p2p_jobs_from_headers:
  assumes "hex_ok X" and "sha_ok X"
    and "task_trace (p2p_run X cfg connections) es" and "Locks rd s t \<in> set es"
    and "en_current t \<noteq> en_current s"
  shows "\<exists>header tip version prev mroot time nonce target. received connections header \<and>
    header_fields header = (version, prev, mroot, time, tip_nbits_u32 tip, nonce) \<and> length header = 80 \<and>
    en_chain_tip s = Some tip \<and> eq_ignore_ascii_case (tip_hash_hex tip) (hex_encode X (rev prev)) \<and>
    compact_target_to_le (tip_nbits_u32 tip) = Some target \<and>
    le_to_nat (double_sha256 X header) \<le> le_to_nat target \<and>
    jt_prevhash_le_bytes (en_current t) = double_sha256 X header \<and>
    jt_height (en_current t) = tip_height tip + 2 \<and> jt_transactions (en_current t) = []"
proof -
  have "effects X cfg (received connections) (p2p_run X cfg connections)" by (rule p2p_run_effects)
  from announced_job [OF assms(1,2) does_onlyD [OF this assms(3,4)] assms(5)] show ?thesis .
qed


theorem p2p_jobs_from_headers_witness:
  "\<exists>es rd s t. task_trace (p2p_run node_externs node_config [Inr (node_addr, node_stream), Inr (node_addr, node_stream)]) es \<and>
     Locks rd s t \<in> set es \<and> en_current t \<noteq> en_current s \<and>
     jt_prevhash_le_bytes (en_current t) = replicate 32 0"
proof -
  obtain es s t where run: "task_trace (p2p_run node_externs node_config [Inr (node_addr, node_stream), Inr (node_addr, node_stream)]) es"
    "Locks node_reading s t \<in> set es" "en_current t \<noteq> en_current s"
    by (rule node_run)
  from p2p_jobs_from_headers [OF node_externs_ok(1,2) run]
  have "jt_prevhash_le_bytes (en_current t) = replicate 32 0" by (auto simp: double_sha256_def node_externs_def)
  with run show ?thesis by blast
qed

end
