(* ===== verification/Latency.thy ===== *)
theory Latency
  imports Stratum "HOL-Library.List_Lexorder" "HOL-Library.Char_ord"
begin

text \<open>
  The part of \<open>src/stratum.rs\<close> that measures the latency of the miners: the registry of the
  sessions, the probe of a session, and the task that writes to a client, which also answers the
  probes of its connection.
\<close>

subsection \<open>\<open>MinerLatencyRegistry\<close>\<close>

record probe_result =
  pb_latency_ms :: "f64 option"
  pb_peer_addr :: "string option"
  pb_error :: "string option"

record miner_latency_sample =
  la_worker :: string
  la_latency_ms :: "f64 option"
  la_sampled_at :: instant
  la_peer_addr :: "string option"
  la_error :: "string option"

text \<open>\<open>getsockopt(TCP_INFO)\<close> gives the round-trip time in microseconds, or the text of the error.\<close>

definition tcp_latency_ms_from_stream :: "u32 result \<Rightarrow> f64 result" where
  "tcp_latency_ms_from_stream tcp_info =
     rbind tcp_info (\<lambda>rtt.
       if rtt = 0 then Inl ''tcp rtt unavailable''
       else Inr (f64_of_int (uint rtt) / Fin 1000))"

definition probe_result_from_writer :: "string option \<Rightarrow> u32 result \<Rightarrow> probe_result" where
  "probe_result_from_writer peer_addr tcp_info =
     (case tcp_latency_ms_from_stream tcp_info of
        Inr latency_ms \<Rightarrow>
          \<lparr>pb_latency_ms = Some latency_ms, pb_peer_addr = peer_addr, pb_error = None\<rparr>
      | Inl error \<Rightarrow> \<lparr>pb_latency_ms = None, pb_peer_addr = peer_addr, pb_error = Some error\<rparr>)"

text \<open>
  What a session does with a probe: its channel is closed, it drops the probe, it answers. A
  writer task that is blocked in a write to its client does none of it as long as it is.
\<close>

datatype probe = SessionClosed | ProbeDropped | Probed probe_result

fun latency_sample :: "string \<Rightarrow> instant \<Rightarrow> probe \<Rightarrow> miner_latency_sample" where
  "latency_sample worker sampled_at SessionClosed =
     \<lparr>la_worker = worker, la_latency_ms = None, la_sampled_at = sampled_at,
      la_peer_addr = None, la_error = Some ''session closed''\<rparr>"
| "latency_sample worker sampled_at (Probed r) =
     \<lparr>la_worker = worker, la_latency_ms = pb_latency_ms r, la_sampled_at = sampled_at,
      la_peer_addr = pb_peer_addr r, la_error = pb_error r\<rparr>"
| "latency_sample worker sampled_at ProbeDropped =
     \<lparr>la_worker = worker, la_latency_ms = None, la_sampled_at = sampled_at,
      la_peer_addr = None, la_error = Some ''latency probe dropped''\<rparr>"

text \<open>
  The sessions are probed one after the other, in the order \<open>handles\<close> of the map; \<open>ask\<close> is what
  the session of a handle does and when it was asked, \<open>None\<close> for one that never does anything:
  then \<open>sample_all\<close> does not return. The order of the strings is the one of their bytes.
\<close>

fun sample_each ::
  "(nat \<Rightarrow> (instant \<times> probe) option) \<Rightarrow> (string \<times> nat) list \<Rightarrow> miner_latency_sample list option" where
  "sample_each ask [] = Some []"
| "sample_each ask ((worker, handle) # handles) =
     (case ask handle of
        None \<Rightarrow> None
      | Some (sampled_at, answer) \<Rightarrow>
          map_option ((#) (latency_sample worker sampled_at answer)) (sample_each ask handles))"

definition sample_all ::
  "(nat \<Rightarrow> (instant \<times> probe) option) \<Rightarrow> (string \<times> nat) list \<Rightarrow> miner_latency_sample list option" where
  "sample_all ask handles = map_option (sort_key la_worker) (sample_each ask handles)"

lemma sample_each_None: "sample_each ask handles = None \<longleftrightarrow> (\<exists>h \<in> snd ` set handles. ask h = None)"
  by (induction ask handles rule: sample_each.induct) (auto split: option.splits)

lemma latency_sample_worker [simp]: "la_worker (latency_sample w t a) = w"
  by (cases a) simp_all

text \<open>The sample of one session.\<close>

definition sampled_of :: "(nat \<Rightarrow> (instant \<times> probe) option) \<Rightarrow> string \<times> nat \<Rightarrow> miner_latency_sample" where
  "sampled_of ask p = (case the (ask (snd p)) of (t, answer) \<Rightarrow> latency_sample (fst p) t answer)"

lemma la_worker_sampled_of [simp]: "la_worker (sampled_of ask p) = fst p"
  by (simp add: sampled_of_def split: prod.splits)

lemma sample_each_Some:
  "sample_each ask handles = Some samples \<Longrightarrow> samples = map (sampled_of ask) handles"
  by (induction ask handles arbitrary: samples rule: sample_each.induct)
    (auto simp: sampled_of_def split: option.splits)

subsection \<open>The writer task\<close>

text \<open>
  The task that owns the writing half of a connection. Its events: a message of the channel, with
  how much of it and its line feed the client takes before the connection fails (\<open>None\<close> when it
  takes all); the end of the channel; a probe, with what the connection tells of its peer and the
  system of the round-trip time; the end of the channel of probes. A write that never ends is no
  event: then neither are the ones behind it.
\<close>

datatype writer_event =
    WriteMessage string "nat option"
  | NoSenders
  | AnswerProbe nat "string option" "u32 result"
  | NoProbers

record writer =
  wr_sent :: string
  wr_replies :: "(nat \<times> probe_result) list"
  wr_running :: bool

definition writer_new :: writer where
  "writer_new = \<lparr>wr_sent = [], wr_replies = [], wr_running = True\<rparr>"

definition write_line :: "string \<Rightarrow> string" where
  "write_line msg = msg @ [CHR 0x0A]"

definition writer_turn :: "writer_event \<Rightarrow> writer \<Rightarrow> writer" where
  "writer_turn event w =
     (if \<not> wr_running w then w
      else case event of
          WriteMessage msg taken \<Rightarrow>
            (case taken of
               None \<Rightarrow> w\<lparr>wr_sent := wr_sent w @ write_line msg\<rparr>
             | Some n \<Rightarrow> w\<lparr>wr_sent := wr_sent w @ take n (write_line msg), wr_running := False\<rparr>)
        | NoSenders \<Rightarrow> w\<lparr>wr_running := False\<rparr>
        | AnswerProbe asker peer_addr tcp_info \<Rightarrow>
            w\<lparr>wr_replies := wr_replies w @ [(asker, probe_result_from_writer peer_addr tcp_info)]\<rparr>
        | NoProbers \<Rightarrow> w)"

definition writer_task :: "writer_event list \<Rightarrow> writer \<Rightarrow> writer" where
  "writer_task events w = fold writer_turn events w"

definition messages_of :: "writer_event list \<Rightarrow> string list" where
  "messages_of events =
     concat (map (\<lambda>event. case event of WriteMessage msg _ \<Rightarrow> [msg] | _ \<Rightarrow> []) events)"

lemma writer_stopped: "\<not> wr_running w \<Longrightarrow> writer_task events w = w"
  by (induction events arbitrary: w) (simp_all add: writer_task_def writer_turn_def)

text \<open>
  The client gets the messages in the order of the channel, each one line, up to where the
  connection fails: nothing of a later message, and all of them while the task runs.
\<close>

lemma writer_sends_prefix:
  "\<exists>rest. wr_sent (writer_task events w) @ rest =
     wr_sent w @ concat (map write_line (messages_of events))"
  "wr_running (writer_task events w) \<Longrightarrow>
     wr_sent (writer_task events w) = wr_sent w @ concat (map write_line (messages_of events))"
proof (induction events arbitrary: w)
  case Nil
  { case 1 show ?case by (simp add: writer_task_def messages_of_def) }
  { case 2 then show ?case by (simp add: writer_task_def messages_of_def) }
next
  case (Cons e events)
  have step: "writer_task (e # events) w = writer_task events (writer_turn e w)" for w
    by (simp add: writer_task_def)
  have msgs: "messages_of (e # events) =
      (case e of WriteMessage msg _ \<Rightarrow> [msg] | _ \<Rightarrow> []) @ messages_of events"
    by (simp add: messages_of_def)
  have live: "wr_sent (writer_turn e w) @ concat (map write_line (messages_of events)) =
      wr_sent w @ concat (map write_line (messages_of (e # events)))" if "wr_running (writer_turn e w)" for w
    using that by (auto simp: msgs writer_turn_def split: writer_event.splits option.splits if_splits)
  have dead: "\<exists>rest. wr_sent (writer_turn e w) @ rest =
      wr_sent w @ concat (map write_line (messages_of (e # events)))" for w
    by (auto simp: msgs writer_turn_def split: writer_event.splits option.splits)
      (metis append.assoc append_take_drop_id)
  { case (1 w)
    let ?t = "writer_turn e w"
    show ?case
    proof (cases "wr_running ?t")
      case True
      from Cons.IH(1) [of ?t] live [OF True] show ?thesis unfolding step by simp
    next
      case False
      with dead [of w] show ?thesis unfolding step by (simp add: writer_stopped)
    qed }
  { case (2 w)
    let ?t = "writer_turn e w"
    from 2 have run: "wr_running (writer_task events ?t)" by (simp add: step)
    then have "wr_running ?t" using writer_stopped by fastforce
    from Cons.IH(2) [OF run] live [OF this] show ?case unfolding step by simp }
qed

end
