(* ===== verification/Api.thy ===== *)
theory Api
  imports Latency Sv2_Transport
begin

text \<open>
  \<open>src/api.rs\<close>: the views that the HTTP server offers of the engine, the metrics store, the
  sessions and the node. A handler is a function of
  what it reads, in the order in which it reads it: the reading of a clock, the engine at
  \<open>current_job\<close>, the metrics store at \<open>snapshot\<close> (which drops inactive miners, so it also returns
  the store) and the answer of the node. The counters are atomics that are loaded one by one; the
  argument \<open>c\<close> holds what each load gives. The texts that other crates produce (a time in JSON, a
  floating-point number as text, base58 with its checksum) are the record \<open>formats\<close>.
\<close>

record formats =
  fm_time :: "instant \<Rightarrow> string"
  fm_f64 :: "f64 \<Rightarrow> string"
  fm_base58check :: "bytes \<Rightarrow> string"

definition json_time :: "formats \<Rightarrow> instant \<Rightarrow> json" where
  "json_time F t = JStr (fm_time F t)"

subsection \<open>What is shown of a miner\<close>

definition public_optional_text :: "string option \<Rightarrow> string option" where
  "public_optional_text v =
     (case map_option trim v of
        None \<Rightarrow> None
      | Some s \<Rightarrow> if s \<noteq> [] then Some s else None)"

definition public_user_agent :: "string option \<Rightarrow> string" where
  "public_user_agent user_agent = unwrap_or ''Unknown Miner'' (public_optional_text user_agent)"

definition public_protocol :: "string option \<Rightarrow> string" where
  "public_protocol protocol = unwrap_or ''Unknown'' (public_optional_text protocol)"

definition public_event_miner_id :: "share_event \<Rightarrow> string" where
  "public_event_miner_id event = unwrap_or ''miner'' (public_optional_text (se_session_id event))"

definition public_miner_id :: "miner_stats \<Rightarrow> string" where
  "public_miner_id miner =
     (if mi_protocol miner = Some ''SV1''
      then unwrap_or ''miner'' (public_optional_text (Some (mi_worker miner)))
      else unwrap_or ''miner'' (public_optional_text (mi_session_id miner)))"

definition public_miner_label :: "miner_stats \<Rightarrow> string" where
  "public_miner_label miner =
     (if mi_protocol miner = Some ''SV2'' then
        public_protocol (mi_protocol miner) @ '' / '' @
        (case public_optional_text (Some (mi_worker miner)) of
           Some s \<Rightarrow> s | None \<Rightarrow> public_user_agent (mi_user_agent miner))
      else public_protocol (mi_protocol miner) @ '' / '' @ public_user_agent (mi_user_agent miner))"

text \<open>The label of the miner of that name, if it is still known.\<close>

definition label_of :: "miner_stats list \<Rightarrow> string \<Rightarrow> string" where
  "label_of ms worker =
     (case find (\<lambda>miner. mi_worker miner = worker) ms of
        Some miner \<Rightarrow> public_miner_label miner | None \<Rightarrow> ''Hidden Miner'')"

subsection \<open>Health\<close>

definition HEALTH_MAX_GBT_AGE_SECS :: u64 where "HEALTH_MAX_GBT_AGE_SECS = 180"

definition template_matches_core_tip :: "job_template \<Rightarrow> u64 \<Rightarrow> bool" where
  "template_matches_core_tip job core_blocks \<longleftrightarrow>
     (let expected_height = sat_add core_blocks 1 in
      jt_height job = expected_height \<or>
      jt_template_source job = P2pCmpctFast \<and> jt_height job = sat_add expected_height 1)"

definition uptime_secs :: "instant \<Rightarrow> metrics_store \<Rightarrow> int" where
  "uptime_secs now store = max (num_seconds (now - st_started_at store)) 0"

text \<open>
  \<open>e\<close> is the engine when the job is read and \<open>e'\<close> when the time of the last success is; \<open>rpc\<close> is
  the node's answer to \<open>getblockchaininfo\<close>, \<open>None\<close> when it does not come within three seconds.
\<close>

definition health ::
  "engine \<Rightarrow> u64 \<Rightarrow> engine \<Rightarrow> json http_answer option \<Rightarrow> instant \<Rightarrow> metrics_store \<Rightarrow> nat \<times> json" where
  "health e now_ms e' rpc now store =
     (let job = current_job e;
          last_success_age_secs = last_gbt_success_age_secs now_ms e';
          template_fresh =
            (case last_success_age_secs of
               None \<Rightarrow> False | Some age \<Rightarrow> age \<le> HEALTH_MAX_GBT_AGE_SECS);
          rpc_info =
            (case rpc of
               None \<Rightarrow> None | Some answer \<Rightarrow> result_ok (call_with_client ''getblockchaininfo'' answer));
          rpc_blocks = Option.bind (Option.bind rpc_info (get_key ''blocks'')) as_u64;
          template_matches_tip =
            (case rpc_blocks of None \<Rightarrow> False | Some b \<Rightarrow> template_matches_core_tip job b);
          rpc_ok = (rpc_info \<noteq> None);
          ok = (jt_ready job \<and> template_fresh \<and> rpc_ok \<and> template_matches_tip)
      in (if ok then 200 else 503,
          JObj
           [(''ok'', JBool ok),
            (''template_ready'', JBool (jt_ready job)),
            (''template_fresh'', JBool template_fresh),
            (''template_matches_tip'', JBool template_matches_tip),
            (''template_height'', json_u64 (jt_height job)),
            (''last_gbt_success_age_secs'', json_opt (map_option json_u64 last_success_age_secs)),
            (''rpc_ok'', JBool rpc_ok),
            (''rpc_blocks'', json_opt (map_option json_u64 rpc_blocks)),
            (''uptime_secs'', JInt (uptime_secs now store))]))"

subsection \<open>The authority's key\<close>

definition encode_sv2_authority_public_key :: "formats \<Rightarrow> bytes \<Rightarrow> string" where
  "encode_sv2_authority_public_key F public_key = fm_base58check F ([1, 0] @ public_key)"

text \<open>\<open>read\<close> is the file system.\<close>

definition load_sv2_authority_public_key ::
  "externs \<Rightarrow> formats \<Rightarrow> (string \<Rightarrow> string result) \<Rightarrow> config \<Rightarrow> string option" where
  "load_sv2_authority_public_key X F read cfg =
     (case sv2_authority_public_key_path cfg of
        None \<Rightarrow> None
      | Some path \<Rightarrow>
          (case read path of
             Inl err \<Rightarrow> None
           | Inr raw \<Rightarrow>
               (let normalized =
                      to_ascii_lowercase (trim_0x (trim (unwrap_or [] (first_line raw))))
                in if length normalized \<noteq> 64 \<or> \<not> list_all is_hexdigit normalized then None
                   else case hex_decode X normalized of
                     Inl err \<Rightarrow> None
                   | Inr bytes \<Rightarrow>
                       if length bytes \<noteq> 32 then None
                       else Some (encode_sv2_authority_public_key F bytes))))"

text \<open>\<open>ApiState\<close>: what is fixed when the server starts.\<close>

record api_state =
  as_network_name :: string
  as_sv2_authority_public_key :: "string option"

fun network_label :: "network \<Rightarrow> string" where
  "network_label Bitcoin = ''Mainnet''"
| "network_label Testnet = ''Testnet''"
| "network_label Signet = ''Signet''"
| "network_label _ = ''Unknown''"

definition api_state_new ::
  "externs \<Rightarrow> formats \<Rightarrow> (string \<Rightarrow> string result) \<Rightarrow> config \<Rightarrow> api_state" where
  "api_state_new X F read cfg =
     \<lparr>as_network_name = network_label (network cfg),
      as_sv2_authority_public_key = load_sv2_authority_public_key X F read cfg\<rparr>"

subsection \<open>Summaries\<close>

definition display_prevhash :: "externs \<Rightarrow> job_template \<Rightarrow> string" where
  "display_prevhash X job =
     (if \<not> jt_ready job \<or> jt_prevhash_le job = [] then []
      else hex_encode X (rev (jt_prevhash_le_bytes job)))"

definition summary ::
  "externs \<Rightarrow> api_state \<Rightarrow> metrics_snapshot \<Rightarrow> engine \<Rightarrow> pool_counters \<Rightarrow> int \<Rightarrow> json" where
  "summary X st snap e c uptime =
     (let job = current_job e;
          best_worker = map_option (label_of (sn_miners snap)) (sn_global_best_worker snap)
      in JObj
     [(''uptime_secs'', JInt uptime),
      (''total_hashrate_gh'', json_f64 (sn_total_hashrate_gh snap)),
      (''total_blocks'', json_usize (sn_total_blocks snap)),
      (''accepted_blocks'', json_usize (sn_accepted_blocks snap)),
      (''confirmed_blocks'', json_usize (sn_confirmed_blocks snap)),
      (''matured_blocks'', json_usize (sn_matured_blocks snap)),
      (''connected_miners'', json_usize (length (sn_miners snap))),
      (''current_height'', json_u64 (jt_height job)),
      (''current_reward_sat'', json_u64 (jt_coinbase_value job)),
      (''current_tx_count'', json_usize (length (jt_transactions job))),
      (''network_difficulty'', json_f64 (jt_network_difficulty job)),
      (''current_prevhash'', JStr (display_prevhash X job)),
      (''global_best_diff'', json_f64 (sn_global_best_difficulty snap)),
      (''global_best_diff_worker'', json_str_opt best_worker),
      (''zmq_blocks_detected'', json_u64 (pc_zmq_blocks_detected c)),
      (''zmq_block_notifications'', json_u64 (pc_zmq_block_received c)),
      (''jobs_sent'', json_u64 (pc_jobs_sent c)),
      (''clean_jobs_sent'', json_u64 (pc_clean_jobs_sent c)),
      (''notify_deduped'', json_u64 (pc_notify_deduped c)),
      (''notify_rate_limited'', json_u64 (pc_notify_rate_limited c)),
      (''duplicate_shares'', json_u64 (pc_duplicate_shares c)),
      (''reconnects_total'', json_u64 (pc_reconnects_total c)),
      (''submitblock_accepted'', json_u64 (pc_submitblock_accepted c)),
      (''submitblock_rejected'', json_u64 (pc_submitblock_rejected c)),
      (''submitblock_rpc_fail'', json_u64 (pc_submitblock_rpc_fail c)),
      (''version_rolling_violations'', json_u64 (pc_version_rolling_violations c)),
      (''stales_new_block'', json_u64 (pc_stales_new_block c)),
      (''stales_expired'', json_u64 (pc_stales_expired c)),
      (''stales_reconnect'', json_u64 (pc_stales_reconnect c)),
      (''sv2_connections_total'', json_u64 (pc_sv2_connections_total c)),
      (''sv2_connections_active'', json_u64 (pc_sv2_connections_active c)),
      (''sv2_connections_closed'', json_u64 (pc_sv2_connections_closed c)),
      (''sv2_rejected_max_connections'', json_u64 (pc_sv2_rejected_max_connections c)),
      (''sv2_rejected_per_ip'', json_u64 (pc_sv2_rejected_per_ip c)),
      (''sv2_handshake_success'', json_u64 (pc_sv2_handshake_success c)),
      (''sv2_handshake_failures'', json_u64 (pc_sv2_handshake_failures c)),
      (''sv2_setup_accepted'', json_u64 (pc_sv2_setup_accepted c)),
      (''sv2_setup_rejected'', json_u64 (pc_sv2_setup_rejected c)),
      (''sv2_channels_opened'', json_u64 (pc_sv2_channels_opened c)),
      (''sv2_channel_open_errors'', json_u64 (pc_sv2_channel_open_errors c)),
      (''sv2_channels_closed'', json_u64 (pc_sv2_channels_closed c)),
      (''sv2_unsupported_messages'', json_u64 (pc_sv2_unsupported_messages c)),
      (''sv2_submit_accepted'', json_u64 (pc_sv2_submit_accepted c)),
      (''sv2_submit_rejected'', json_u64 (pc_sv2_submit_rejected c)),
      (''sv2_blocks_found'', json_u64 (pc_sv2_blocks_found c)),
      (''sv2_authority_public_key'', json_str_opt (as_sv2_authority_public_key st))])"

definition GATEWAY_VERSION :: string where "GATEWAY_VERSION = ''StratumBee 0.1.0''"

definition stats :: "metrics_snapshot \<Rightarrow> engine \<Rightarrow> int \<Rightarrow> json" where
  "stats snap e uptime =
     (let job = current_job e;
          connected = length (sn_miners snap);
          hashrate_hs = sn_total_hashrate_gh snap * Fin 1000000000
      in JObj
     [(''gateway_version'', JStr GATEWAY_VERSION),
      (''uptime_seconds'', JInt uptime),
      (''hashrate_hs'', json_f64 hashrate_hs),
      (''hashrate_th_s'', json_f64 (hashrate_hs / Fin 1000000000000)),
      (''connections'', json_usize connected),
      (''subscriptions'', json_usize connected),
      (''current_height'', json_u64 (jt_height job)),
      (''current_value_btc'', json_f64 (f64_of_int (uint (jt_coinbase_value job)) / Fin 100000000)),
      (''txn_count'', json_usize (length (jt_transactions job))),
      (''network_difficulty'', json_f64 (jt_network_difficulty job)),
      (''total_blocks'', json_usize (sn_total_blocks snap)),
      (''accepted_blocks'', json_usize (sn_accepted_blocks snap)),
      (''confirmed_blocks'', json_usize (sn_confirmed_blocks snap)),
      (''matured_blocks'', json_usize (sn_matured_blocks snap)),
      (''template_ready'', JBool (jt_ready job))])"

subsection \<open>Miners, blocks and shares\<close>

definition worker_response :: "formats \<Rightarrow> miner_stats \<Rightarrow> json" where
  "worker_response F miner = JObj
     [(''id'', JStr (public_miner_id miner)),
      (''user_agent'', JStr (public_user_agent (mi_user_agent miner))),
      (''protocol'', JStr (public_protocol (mi_protocol miner))),
      (''display_name'', JStr (public_miner_label miner)),
      (''hashrate'', json_f64 (mi_hashrate_gh miner / Fin 1000)),
      (''hashrate_hs'', json_f64 (mi_hashrate_gh miner * Fin 1000000000)),
      (''best_diff'', json_f64 (mi_best_difficulty miner)),
      (''current_diff'', json_f64 (mi_difficulty miner)),
      (''shares'', json_u64 (mi_shares miner)),
      (''last_seen'', json_time F (mi_last_seen miner))]"

definition workers :: "formats \<Rightarrow> metrics_snapshot \<Rightarrow> json" where
  "workers F snap = JArr (map (worker_response F) (sn_miners snap))"

definition miner_response :: "formats \<Rightarrow> miner_stats \<Rightarrow> json" where
  "miner_response F miner = JObj
     [(''id'', JStr (public_miner_id miner)),
      (''user_agent'', JStr (public_user_agent (mi_user_agent miner))),
      (''protocol'', JStr (public_protocol (mi_protocol miner))),
      (''display_name'', JStr (public_miner_label miner)),
      (''difficulty'', json_f64 (mi_difficulty miner)),
      (''best_difficulty'', json_f64 (mi_best_difficulty miner)),
      (''best_submitted_difficulty'', json_f64 (mi_best_submitted_difficulty miner)),
      (''shares'', json_u64 (mi_shares miner)),
      (''rejected'', json_u64 (mi_rejected miner)),
      (''stale'', json_u64 (mi_stale miner)),
      (''hashrate_gh'', json_f64 (mi_hashrate_gh miner)),
      (''last_seen'', json_time F (mi_last_seen miner)),
      (''notify_to_submit_ms'', json_f64 (mi_notify_to_submit_ms miner)),
      (''submit_rtt_ms'', json_f64 (mi_submit_rtt_ms miner)),
      (''last_share_time'', json_opt (map_option (json_time F) (mi_last_share_time miner)))]"

definition miners :: "formats \<Rightarrow> metrics_snapshot \<Rightarrow> json" where
  "miners F snap = JArr (map (miner_response F) (sn_miners snap))"

definition block_response :: "formats \<Rightarrow> miner_stats list \<Rightarrow> block_event \<Rightarrow> json" where
  "block_response F ms block = JObj
     [(''height'', json_u64 (be_height block)),
      (''hash'', JStr (be_hash block)),
      (''worker'', JStr (label_of ms (be_worker block))),
      (''difficulty'', json_f64 (be_difficulty block)),
      (''status'', JStr (be_status block)),
      (''reason'', json_str_opt (be_reason block)),
      (''confirmations'', json_opt (map_option JInt (be_confirmations block))),
      (''in_active_chain'', json_opt (map_option JBool (be_in_active_chain block))),
      (''reward_status'', JStr (be_reward_status block)),
      (''created_at'', json_time F (be_created_at block))]"

text \<open>The snapshot of the miners is taken before the blocks are read.\<close>

definition blocks :: "formats \<Rightarrow> metrics_snapshot \<Rightarrow> metrics_store \<Rightarrow> json" where
  "blocks F snap store = JArr (map (block_response F (sn_miners snap)) (recent_blocks store))"

definition share_event_response :: "formats \<Rightarrow> share_event \<Rightarrow> json" where
  "share_event_response F event = JObj
     [(''miner_id'', JStr (public_event_miner_id event)),
      (''user_agent'', JStr (public_user_agent (se_user_agent event))),
      (''protocol'', JStr (public_protocol (se_protocol event))),
      (''difficulty'', json_f64 (se_difficulty event)),
      (''accepted'', JBool (se_accepted event)),
      (''is_block'', JBool (se_is_block event)),
      (''created_at'', json_time F (se_created_at event)),
      (''job_age_secs'', json_u64 (se_job_age_secs event)),
      (''notify_delay_ms'', json_u64 (se_notify_delay_ms event)),
      (''reconnect_recent'', JBool (se_reconnect_recent event))]"

text \<open>The last thirty minutes, in nanoseconds.\<close>

definition events :: "formats \<Rightarrow> instant \<Rightarrow> metrics_store \<Rightarrow> json" where
  "events F now store =
     JArr (map (share_event_response F) (recent_events (30 * 60 * 1000000000) now store))"

subsection \<open>The node and the template\<close>

definition network_response :: "api_state \<Rightarrow> json http_answer \<Rightarrow> json" where
  "network_response st rpc =
     (let info = result_ok (call_with_client ''getmininginfo'' rpc);
          field = (\<lambda>k. Option.bind info (get_key k))
      in JObj
     [(''network'', JStr (as_network_name st)),
      (''blocks'', json_opt (map_option json_u64 (Option.bind (field ''blocks'') as_u64))),
      (''difficulty'', json_opt (map_option json_f64 (Option.bind (field ''difficulty'') as_f64))),
      (''networkhashps'',
         json_opt (map_option json_f64 (Option.bind (field ''networkhashps'') as_f64)))])"

definition template_response :: "engine \<Rightarrow> json" where
  "template_response e =
     (let job = current_job e in JObj
     [(''ready'', JBool (jt_ready job)),
      (''job_id'', JStr (jt_job_id job)),
      (''height'', json_u64 (jt_height job)),
      (''version'', JStr (jt_version job)),
      (''bits'', JStr (jt_nbits job)),
      (''ntime'', JStr (jt_ntime job)),
      (''prevhash'', JStr (jt_prevhash job)),
      (''network_difficulty'', json_f64 (jt_network_difficulty job)),
      (''tx_count'', json_usize (length (jt_transactions job))),
      (''coinbase_value'', json_u64 (jt_coinbase_value job)),
      (''witness_commitment'', json_str_opt (jt_witness_commitment_script job))])"

definition mempool :: "json http_answer \<Rightarrow> json" where
  "mempool rpc = (case call_with_client ''getmempoolinfo'' rpc of Inr v \<Rightarrow> v | Inl e \<Rightarrow> JObj [])"

subsection \<open>Latencies\<close>

text \<open>The loop over the miners of the snapshot; \<open>sampled\<close> are the names that have a sample.\<close>

fun add_sv2_samples ::
  "instant \<Rightarrow> miner_stats list \<Rightarrow> string set \<Rightarrow> miner_latency_sample list \<Rightarrow> miner_latency_sample list" where
  "add_sv2_samples now [] sampled samples = samples"
| "add_sv2_samples now (miner # ms) sampled samples =
     (if mi_protocol miner \<noteq> Some ''SV2'' then add_sv2_samples now ms sampled samples
      else
        let worker = public_miner_id miner in
        if worker \<in> sampled then add_sv2_samples now ms sampled samples
        else add_sv2_samples now ms (insert worker sampled)
          (samples @
            [\<lparr>la_worker = worker, la_latency_ms = None, la_sampled_at = now, la_peer_addr = None,
              la_error = Some ''tcp latency unsupported for SV2''\<rparr>]))"

definition latency_samples ::
  "(nat \<Rightarrow> (instant \<times> probe) option) \<Rightarrow> (string \<times> nat) list \<Rightarrow> instant \<Rightarrow> metrics_snapshot \<Rightarrow>
   miner_latency_sample list option" where
  "latency_samples ask handles now snap =
     map_option (\<lambda>samples.
       sort_key la_worker
         (add_sv2_samples now (sn_miners snap) (la_worker ` set samples) samples))
       (sample_all ask handles)"

definition latency_sample_json :: "formats \<Rightarrow> miner_latency_sample \<Rightarrow> json" where
  "latency_sample_json F s = JObj
     [(''worker'', JStr (la_worker s)),
      (''latency_ms'', json_opt (map_option json_f64 (la_latency_ms s))),
      (''sampled_at'', json_time F (la_sampled_at s)),
      (''peer_addr'', json_str_opt (la_peer_addr s)),
      (''error'', json_str_opt (la_error s))]"

definition latency ::
  "formats \<Rightarrow> (nat \<Rightarrow> (instant \<times> probe) option) \<Rightarrow> (string \<times> nat) list \<Rightarrow> instant \<Rightarrow>
   metrics_snapshot \<Rightarrow> json option" where
  "latency F ask handles now snap =
     map_option (\<lambda>samples. JArr (map (latency_sample_json F) samples))
       (latency_samples ask handles now snap)"

subsection \<open>Prometheus\<close>

definition push_metric :: "string \<Rightarrow> string \<Rightarrow> string \<Rightarrow> string" where
  "push_metric name v out = out @ name @ '' '' @ v @ [CHR 0x0A]"

definition fmt_u64 :: "u64 \<Rightarrow> string" where
  "fmt_u64 n = dec_digits (unat n)"

text \<open>
  The metrics, in order; \<open>- 1\<close> is \<open>u64::MAX\<close>. The age of the last success is read later than the
  job, from \<open>e'\<close>.
\<close>

definition prometheus_sv2_values :: "pool_counters \<Rightarrow> (string \<times> string) list" where
  "prometheus_sv2_values c =
     [(''stratumbee_sv2_connections_total'', fmt_u64 (pc_sv2_connections_total c)),
      (''stratumbee_sv2_connections_active'', fmt_u64 (pc_sv2_connections_active c)),
      (''stratumbee_sv2_connections_closed_total'', fmt_u64 (pc_sv2_connections_closed c)),
      (''stratumbee_sv2_rejected_max_connections_total'', fmt_u64 (pc_sv2_rejected_max_connections c)),
      (''stratumbee_sv2_rejected_per_ip_total'', fmt_u64 (pc_sv2_rejected_per_ip c)),
      (''stratumbee_sv2_handshake_success_total'', fmt_u64 (pc_sv2_handshake_success c)),
      (''stratumbee_sv2_handshake_failures_total'', fmt_u64 (pc_sv2_handshake_failures c)),
      (''stratumbee_sv2_setup_accepted_total'', fmt_u64 (pc_sv2_setup_accepted c)),
      (''stratumbee_sv2_setup_rejected_total'', fmt_u64 (pc_sv2_setup_rejected c)),
      (''stratumbee_sv2_channels_opened_total'', fmt_u64 (pc_sv2_channels_opened c)),
      (''stratumbee_sv2_channel_open_errors_total'', fmt_u64 (pc_sv2_channel_open_errors c)),
      (''stratumbee_sv2_channels_closed_total'', fmt_u64 (pc_sv2_channels_closed c)),
      (''stratumbee_sv2_unsupported_messages_total'', fmt_u64 (pc_sv2_unsupported_messages c)),
      (''stratumbee_sv2_submit_accepted_total'', fmt_u64 (pc_sv2_submit_accepted c)),
      (''stratumbee_sv2_submit_rejected_total'', fmt_u64 (pc_sv2_submit_rejected c)),
      (''stratumbee_sv2_blocks_found_total'', fmt_u64 (pc_sv2_blocks_found c))]"

definition prometheus_values ::
  "formats \<Rightarrow> metrics_snapshot \<Rightarrow> engine \<Rightarrow> u64 \<Rightarrow> engine \<Rightarrow> pool_counters \<Rightarrow> int \<Rightarrow>
   (string \<times> string) list" where
  "prometheus_values F snap e now_ms e' c uptime =
     (let job = current_job e in
     [(''stratumbee_uptime_seconds'', fmt_int uptime),
      (''stratumbee_template_ready'', if jt_ready job then ''1'' else ''0''),
      (''stratumbee_current_height'', fmt_u64 (jt_height job)),
      (''stratumbee_current_tx_count'', dec_digits (length (jt_transactions job))),
      (''stratumbee_current_reward_sat'', fmt_u64 (jt_coinbase_value job)),
      (''stratumbee_connected_miners'', dec_digits (length (sn_miners snap))),
      (''stratumbee_total_hashrate_gh'', fm_f64 F (sn_total_hashrate_gh snap)),
      (''stratumbee_total_blocks'', dec_digits (sn_total_blocks snap)),
      (''stratumbee_accepted_blocks'', dec_digits (sn_accepted_blocks snap)),
      (''stratumbee_confirmed_blocks'', dec_digits (sn_confirmed_blocks snap)),
      (''stratumbee_matured_blocks'', dec_digits (sn_matured_blocks snap)),
      (''stratumbee_last_gbt_success_age_seconds'', fmt_u64 (unwrap_or (- 1) (last_gbt_success_age_secs now_ms e'))),
      (''stratumbee_jobs_sent_total'', fmt_u64 (pc_jobs_sent c)),
      (''stratumbee_clean_jobs_sent_total'', fmt_u64 (pc_clean_jobs_sent c)),
      (''stratumbee_notify_deduped_total'', fmt_u64 (pc_notify_deduped c)),
      (''stratumbee_notify_rate_limited_total'', fmt_u64 (pc_notify_rate_limited c)),
      (''stratumbee_duplicate_shares_total'', fmt_u64 (pc_duplicate_shares c)),
      (''stratumbee_reconnects_total'', fmt_u64 (pc_reconnects_total c)),
      (''stratumbee_submitblock_accepted_total'', fmt_u64 (pc_submitblock_accepted c)),
      (''stratumbee_submitblock_rejected_total'', fmt_u64 (pc_submitblock_rejected c)),
      (''stratumbee_submitblock_rpc_fail_total'', fmt_u64 (pc_submitblock_rpc_fail c)),
      (''stratumbee_version_rolling_violations_total'', fmt_u64 (pc_version_rolling_violations c)),
      (''stratumbee_stales_new_block_total'', fmt_u64 (pc_stales_new_block c)),
      (''stratumbee_stales_expired_total'', fmt_u64 (pc_stales_expired c)),
      (''stratumbee_stales_reconnect_total'', fmt_u64 (pc_stales_reconnect c)),
      (''stratumbee_zmq_block_notifications_total'', fmt_u64 (pc_zmq_block_received c)),
      (''stratumbee_zmq_blocks_detected_total'', fmt_u64 (pc_zmq_blocks_detected c))] @ prometheus_sv2_values c)"

definition prometheus_metrics ::
  "formats \<Rightarrow> metrics_snapshot \<Rightarrow> engine \<Rightarrow> u64 \<Rightarrow> engine \<Rightarrow> pool_counters \<Rightarrow> int \<Rightarrow> string" where
  "prometheus_metrics F snap e now_ms e' c uptime =
     fold (\<lambda>(name, v) out. push_metric name v out) (prometheus_values F snap e now_ms e' c uptime) []"

subsection \<open>The server\<close>

datatype endpoint =
    Index | Health | Stats | Workers | Summary | Miners | Blocks | Events | NetworkInfo
  | TemplateInfo | Mempool | Latency | Prometheus

definition routes :: "(string \<times> endpoint) list" where
  "routes =
     [(''/'', Index), (''/health'', Health), (''/api/stats'', Stats), (''/api/workers'', Workers),
      (''/api/v1/summary'', Summary), (''/api/v1/miners'', Miners), (''/api/v1/blocks'', Blocks),
      (''/api/v1/events'', Events), (''/api/v1/network'', NetworkInfo),
      (''/api/v1/template'', TemplateInfo), (''/api/v1/mempool'', Mempool),
      (''/api/v1/latency'', Latency), (''/metrics'', Prometheus)]"

text \<open>
  What a request reads: the engine at \<open>current_job\<close> and, later, at the time of the last success;
  the clocks at the snapshot and in the handler; the counters; the order of the map of miners; the
  answer of the node and whether it came in time; the registry in its order and what the sessions
  do with their probes.
\<close>

record api_reading =
  ar_engine :: engine
  ar_engine_later :: engine
  ar_now_ms :: u64
  ar_snapshot_now :: instant
  ar_now :: instant
  ar_counters :: pool_counters
  ar_order :: "miner_stats list \<Rightarrow> miner_stats list"
  ar_rpc :: "json http_answer"
  ar_rpc_in_time :: bool
  ar_handles :: "(string \<times> nat) list"
  ar_ask :: "nat \<Rightarrow> (instant \<times> probe) option"

text \<open>\<open>PlainText\<close> has the content type of Prometheus, \<open>NotFound\<close> is the answer without a route.\<close>

datatype api_reply = HtmlPage string | JsonReply nat json | PlainText string | NotFound

text \<open>
  A \<open>GET\<close> request: the reply, \<open>None\<close> when there is none, and the metrics store afterwards;
  \<open>html\<close> is the dashboard.
\<close>

definition api_get ::
  "externs \<Rightarrow> formats \<Rightarrow> string \<Rightarrow> api_state \<Rightarrow> api_reading \<Rightarrow> string \<Rightarrow> metrics_store \<Rightarrow>
   api_reply option \<times> metrics_store" where
  "api_get X F html st rd path store =
     (let (snap, store') = snapshot (ar_order rd) (ar_snapshot_now rd) store;
          uptime = uptime_secs (ar_now rd) store;
          json = (\<lambda>v. Some (JsonReply 200 v))
      in case map_of routes path of
        None \<Rightarrow> (Some NotFound, store)
      | Some Index \<Rightarrow> (Some (HtmlPage html), store)
      | Some Health \<Rightarrow>
          (let (status, body) = health (ar_engine rd) (ar_now_ms rd) (ar_engine_later rd)
                 (if ar_rpc_in_time rd then Some (ar_rpc rd) else None) (ar_now rd) store
           in (Some (JsonReply status body), store))
      | Some Stats \<Rightarrow> (json (stats snap (ar_engine rd) uptime), store')
      | Some Workers \<Rightarrow> (json (workers F snap), store')
      | Some Summary \<Rightarrow> (json (summary X st snap (ar_engine rd) (ar_counters rd) uptime), store')
      | Some Miners \<Rightarrow> (json (miners F snap), store')
      | Some Blocks \<Rightarrow> (json (blocks F snap store'), store')
      | Some Events \<Rightarrow> (json (events F (ar_now rd) store), store)
      | Some NetworkInfo \<Rightarrow> (json (network_response st (ar_rpc rd)), store)
      | Some TemplateInfo \<Rightarrow> (json (template_response (ar_engine rd)), store)
      | Some Mempool \<Rightarrow> (json (mempool (ar_rpc rd)), store)
      | Some Latency \<Rightarrow>
          (case latency F (ar_ask rd) (ar_handles rd) (ar_now rd) snap of
             None \<Rightarrow> (None, store)
           | Some v \<Rightarrow> (json v, store'))
      | Some Prometheus \<Rightarrow>
          (Some (PlainText (prometheus_metrics F snap (ar_engine rd) (ar_now_ms rd)
              (ar_engine_later rd) (ar_counters rd) uptime)), store'))"

subsection \<open>Lemmas\<close>

text \<open>A request changes nothing but that it drops inactive miners.\<close>

lemma api_get_store:
  "snd (api_get X F html st rd path store) \<in> {store, snd (snapshot (ar_order rd) (ar_snapshot_now rd) store)}"
  by (auto simp: api_get_def Let_def split: prod.splits option.splits endpoint.splits)

lemma api_get_keeps_metrics:
  "metrics_ok (st_inner store) \<Longrightarrow> metrics_ok (st_inner (snd (api_get X F html st rd path store)))"
  using api_get_store [of X F html st rd path store]
  by (auto simp: snapshot_def Let_def prune_inactive_ok)

lemma tip_of_core:
  assumes "template_matches_core_tip job b" and "b < - 2"
  shows "jt_height job = b + 1 \<or> jt_template_source job = P2pCmpctFast \<and> jt_height job = b + 2"
    and "jt_height job \<noteq> 0"
proof -
  have "sat_add b 1 = b + 1" and "sat_add (b + 1) 1 = b + 2" and "b + 1 \<noteq> 0" and "b + 2 \<noteq> 0"
    using assms(2) by (simp_all add: sat_add_def word_less_nat_alt word_le_nat_alt unat_word_ariths unat_arith_simps)
  with assms(1) show "jt_height job = b + 1 \<or> jt_template_source job = P2pCmpctFast \<and> jt_height job = b + 2"
    and "jt_height job \<noteq> 0"
    by (auto simp: template_matches_core_tip_def Let_def)
qed

lemma rpc_blocks_Some:
  assumes "Option.bind (Option.bind (result_ok (call_with_client m answer)) (get_key ''blocks'')) as_u64 = Some b"
  shows "\<exists>s v. answer = Answer s \<lparr>rr_result = Some v, rr_error = None\<rparr> \<and> get_key ''blocks'' v = Some (JInt (uint b))"
proof -
  obtain v where v: "call_with_client m answer = Inr v" and k: "Option.bind (get_key ''blocks'' v) as_u64 = Some b"
    using assms by (cases "call_with_client m answer") auto
  obtain i where i: "get_key ''blocks'' v = Some (JInt i)" "as_u64 (JInt i) = Some b"
    using k by (cases "get_key ''blocks'' v") (auto elim: as_u64.elims)
  have "i = uint b" using i(2) by (auto simp: uint_word_of_int split: if_splits)
  moreover obtain s r where r: "answer = Answer s r" using v by (cases answer) auto
  moreover have "r = \<lparr>rr_result = Some v, rr_error = None\<rparr>"
    using v r by (cases r) (auto simp: ok_or_def split: option.splits)
  ultimately show ?thesis using i(1) by blast
qed

lemma fresh_age:
  assumes "last_gbt_success_age_secs now_ms e = Some age" and "age \<le> HEALTH_MAX_GBT_AGE_SECS"
  shows "en_last_gbt_success_ms e \<noteq> 0 \<and> unat now_ms - unat (en_last_gbt_success_ms e) < 181000"
proof -
  have "en_last_gbt_success_ms e \<noteq> 0" and age: "age = sat_sub now_ms (en_last_gbt_success_ms e) div 1000"
    using assms(1) by (auto simp: last_gbt_success_age_secs_def Let_def split: if_splits)
  have "unat (sat_sub now_ms (en_last_gbt_success_ms e)) div 1000 \<le> 180"
    using assms(2) age by (simp add: HEALTH_MAX_GBT_AGE_SECS_def word_le_nat_alt unat_div)
  then show ?thesis using \<open>en_last_gbt_success_ms e \<noteq> 0\<close> by (simp add: unat_sat_sub)
qed

lemma health_ok:
  assumes "health e now_ms e' rpc now store = (200, body)"
  shows "jt_ready (en_current e)"
    and "en_last_gbt_success_ms e' \<noteq> 0 \<and> unat now_ms - unat (en_last_gbt_success_ms e') < 181000"
    and "\<exists>s v b. rpc = Some (Answer s \<lparr>rr_result = Some v, rr_error = None\<rparr>) \<and>
       get_key ''blocks'' v = Some (JInt (uint b)) \<and> template_matches_core_tip (en_current e) b"
proof -
  let ?b = "Option.bind (Option.bind (case rpc of None \<Rightarrow> None
      | Some answer \<Rightarrow> result_ok (call_with_client ''getblockchaininfo'' answer)) (get_key ''blocks'')) as_u64"
  have "jt_ready (en_current e)"
    and "case last_gbt_success_age_secs now_ms e' of None \<Rightarrow> False | Some age \<Rightarrow> age \<le> HEALTH_MAX_GBT_AGE_SECS"
    and b: "case ?b of None \<Rightarrow> False | Some b \<Rightarrow> template_matches_core_tip (en_current e) b"
    using assms by (simp_all add: health_def Let_def current_job_def split: if_splits)
  then show "jt_ready (en_current e)"
    and "en_last_gbt_success_ms e' \<noteq> 0 \<and> unat now_ms - unat (en_last_gbt_success_ms e') < 181000"
    by (auto split: option.splits dest: fresh_age)
  obtain b where "?b = Some b" and m: "template_matches_core_tip (en_current e) b"
    using b by (auto split: option.splits)
  then obtain answer where "rpc = Some answer"
    and "Option.bind (Option.bind (result_ok (call_with_client ''getblockchaininfo'' answer)) (get_key ''blocks'')) as_u64 = Some b"
    by (cases rpc) auto
  with rpc_blocks_Some [OF this(2)] m
  show "\<exists>s v b. rpc = Some (Answer s \<lparr>rr_result = Some v, rr_error = None\<rparr>) \<and>
       get_key ''blocks'' v = Some (JInt (uint b)) \<and> template_matches_core_tip (en_current e) b"
    by blast
qed

definition sample_store :: metrics_store where
  "sample_store =
     \<lparr>st_inner =
        \<lparr>ms_miners = [], ms_events = [], ms_blocks = [], ms_share_samples = [],
         ms_global_best_difficulty = 0, ms_global_best_worker = None, ms_max_events = 10, ms_max_blocks = 10\<rparr>,
      st_miner_inactive_timeout = 1000, st_counters = pool_counters_default, st_started_at = 0\<rparr>"

text \<open>C16 (\<open>health\<close>): when \<open>/health\<close> answers 200, however the tasks of the engine interleave and the
  request reads them, there is a job, a \<open>getblocktemplate\<close> succeeded within the last 181 seconds
  of the clock, and the node answered in time with the height of its chain, which is the height of
  the parent of the job, or, for a job of a fast block announcement, one less.\<close>

theorem health_sound:
  assumes "hex_ok X" and "(engine_step X cfg ^^ m) (engine_new counters started, None) (e, t)"
    and "(engine_step X cfg ^^ n) (e, t) (e', t')"
    and "health e now_ms e' rpc now store = (200, body)"
  shows "jt_ready (en_current e) \<and>
    en_last_gbt_success_ms e' \<noteq> 0 \<and> unat now_ms - unat (en_last_gbt_success_ms e') < 181000 \<and>
    (\<exists>s v b. rpc = Some (Answer s \<lparr>rr_result = Some v, rr_error = None\<rparr>) \<and>
       get_key ''blocks'' v = Some (JInt (uint b)) \<and>
       (b < - 2 \<longrightarrow>
          (\<exists>tip. en_chain_tip e = Some tip \<and> parent_of X tip (en_current e) \<and>
             (tip_height tip = b \<or>
              jt_template_source (en_current e) = P2pCmpctFast \<and> tip_height tip = b + 1))))"
proof -
  note ok = health_ok [OF assms(4)]
  obtain s v b where rpc: "rpc = Some (Answer s \<lparr>rr_result = Some v, rr_error = None\<rparr>)"
    "get_key ''blocks'' v = Some (JInt (uint b))" and m: "template_matches_core_tip (en_current e) b"
    using ok(3) by blast
  have "\<exists>tip. en_chain_tip e = Some tip \<and> parent_of X tip (en_current e) \<and>
      (tip_height tip = b \<or> jt_template_source (en_current e) = P2pCmpctFast \<and> tip_height tip = b + 1)"
    if "b < - 2"
  proof -
    note h = tip_of_core [OF m that]
    obtain tip where tip: "en_chain_tip e = Some tip" "parent_of X tip (en_current e)"
      using engine_steps_ok [OF assms(1) engine_new_ok assms(2)] ok(1) h(2)
      by (auto simp: engine_ok_def)
    then have "tip_height tip = jt_height (en_current e) - 1" by (simp add: parent_of_def)
    with h(1) have "tip_height tip = b \<or>
        jt_template_source (en_current e) = P2pCmpctFast \<and> tip_height tip = b + 1" by auto
    with tip show ?thesis by blast
  qed
  with ok(1,2) rpc show ?thesis by blast
qed

theorem health_sound_witness:
  "\<exists>(e :: engine) (e' :: engine) rpc body. health e 2000 e' rpc 0 sample_store = (200, body) \<and>
     (\<exists>tip. en_chain_tip e = Some tip \<and> tip_height tip = 839999)"
proof -
  obtain e where e: "(engine_step ref_externs sample_config ^^ 2) (engine_new pool_counters_default 0, None) (e, None)"
    "jt_ready (en_current e)" "jt_height (en_current e) = 840000" using sample_run by blast
  let ?e' = "note_gbt_success 1000 e"
  have step: "(engine_step ref_externs sample_config ^^ 1) (e, None) (?e', None)"
    by (simp add: engine_step.note_success relcompp.simps)
  define rpc where "rpc = Some (Answer ''200 OK''
    \<lparr>rr_result = Some (JObj [(''blocks'', JInt 839999)]), rr_error = None\<rparr>)"
  have "fst (health e 2000 ?e' rpc 0 sample_store) = 200"
    using e(2,3)
    by (simp add: health_def rpc_def current_job_def last_gbt_success_age_secs_def note_gbt_success_def
      sat_sub_def sat_add_def HEALTH_MAX_GBT_AGE_SECS_def template_matches_core_tip_def Let_def)
  then obtain body where h: "health e 2000 ?e' rpc 0 sample_store = (200, body)"
    by (cases "health e 2000 ?e' rpc 0 sample_store") simp
  from health_sound [OF ref_hex_ok e(1) step h]
  obtain b :: u64 where "uint b = 839999" and tip: "b < - 2 \<longrightarrow>
      (\<exists>tip. en_chain_tip e = Some tip \<and> parent_of ref_externs tip (en_current e) \<and>
        (tip_height tip = b \<or> jt_template_source (en_current e) = P2pCmpctFast \<and> tip_height tip = b + 1))"
    by (auto simp: rpc_def)
  then have "b = 839999" by (metis word_of_int_numeral word_of_int_uint)
  with tip obtain tip where "en_chain_tip e = Some tip" "parent_of ref_externs tip (en_current e)" by auto
  moreover from this(2) e(3) have "tip_height tip = 839999"
    by (simp add: parent_of_def)
  ultimately show ?thesis using h by blast
qed

subsection \<open>Latencies, correct\<close>

definition sv2_unsupported :: "instant \<Rightarrow> string \<Rightarrow> miner_latency_sample" where
  "sv2_unsupported now worker =
     \<lparr>la_worker = worker, la_latency_ms = None, la_sampled_at = now, la_peer_addr = None,
      la_error = Some ''tcp latency unsupported for SV2''\<rparr>"

lemma la_worker_unsupported [simp]: "la_worker (sv2_unsupported now w) = w"
  by (simp add: sv2_unsupported_def)

definition sv2_ids :: "miner_stats list \<Rightarrow> string list" where
  "sv2_ids ms = map public_miner_id (filter (\<lambda>miner. mi_protocol miner = Some ''SV2'') ms)"

lemma add_sv2_samples_eq:
  "\<exists>new. add_sv2_samples now ms sampled samples = samples @ map (sv2_unsupported now) new \<and>
     distinct new \<and> set new = set (sv2_ids ms) - sampled"
proof (induction ms arbitrary: sampled samples)
  case Nil
  show ?case by (simp add: sv2_ids_def)
next
  case (Cons m ms)
  let ?w = "public_miner_id m"
  show ?case
  proof (cases "mi_protocol m = Some ''SV2'' \<and> ?w \<notin> sampled")
    case False
    with Cons.IH [of sampled samples] show ?thesis by (auto simp: sv2_ids_def Let_def)
  next
    case True
    obtain new where "add_sv2_samples now ms (insert ?w sampled) (samples @ [sv2_unsupported now ?w]) =
        (samples @ [sv2_unsupported now ?w]) @ map (sv2_unsupported now) new"
      "distinct new" "set new = set (sv2_ids ms) - insert ?w sampled"
      using Cons.IH [of "insert ?w sampled" "samples @ [sv2_unsupported now ?w]"] by blast
    with True show ?thesis
      by (intro exI [of _ "?w # new"]) (auto simp: sv2_ids_def Let_def sv2_unsupported_def)
  qed
qed

definition sample_snapshot :: metrics_snapshot where
  "sample_snapshot =
     \<lparr>sn_miners = [(miner_new ''w'' 1 0 0 0)\<lparr>mi_protocol := Some ''SV2'', mi_session_id := Some ''sv2-1''\<rparr>],
      sn_total_hashrate_gh = 0, sn_total_blocks = 0, sn_accepted_blocks = 0, sn_confirmed_blocks = 0,
      sn_matured_blocks = 0, sn_global_best_difficulty = 0, sn_global_best_worker = None\<rparr>"

text \<open>C27 (\<open>latency\<close>, \<open>MinerLatencyRegistry::sample_all\<close>): the latency view comes back unless some
  registered session never reacts to its probe; then it is sorted by worker and names every worker
  once: each registered one with what its session answered, and each further Stratum V2 miner of
  the metrics, marked as not supported.\<close>

theorem latency_report:
  assumes "distinct (map fst handles)"
  shows "case latency_samples ask handles now snap of
      None \<Rightarrow> \<exists>handle \<in> snd ` set handles. ask handle = None
    | Some samples \<Rightarrow>
        sorted (map la_worker samples) \<and> distinct (map la_worker samples) \<and>
        (\<forall>(worker, handle) \<in> set handles. \<exists>t answer.
           ask handle = Some (t, answer) \<and> latency_sample worker t answer \<in> set samples) \<and>
        (\<forall>s \<in> set samples. la_worker s \<notin> fst ` set handles \<longrightarrow>
           s = sv2_unsupported now (la_worker s) \<and> la_worker s \<in> set (sv2_ids (sn_miners snap))) \<and>
        set (sv2_ids (sn_miners snap)) \<subseteq> la_worker ` set samples"
proof (cases "sample_each ask handles")
  case None
  then have "\<exists>handle \<in> snd ` set handles. ask handle = None" by (simp only: sample_each_None)
  with None show ?thesis by (simp add: latency_samples_def sample_all_def)
next
  case (Some probed)
  have probed: "probed = map (sampled_of ask) handles" by (rule sample_each_Some [OF Some])
  have answers: "\<forall>h \<in> snd ` set handles. ask h \<noteq> None"
    using Some sample_each_None [of ask handles] by auto
  let ?sorted = "sort_key la_worker probed"
  obtain new where new: "add_sv2_samples now (sn_miners snap) (la_worker ` set ?sorted) ?sorted =
      ?sorted @ map (sv2_unsupported now) new"
    and d: "distinct new" and set_new: "set new = set (sv2_ids (sn_miners snap)) - la_worker ` set ?sorted"
    using add_sv2_samples_eq by blast
  let ?all = "?sorted @ map (sv2_unsupported now) new"
  have res: "latency_samples ask handles now snap = Some (sort_key la_worker ?all)"
    by (simp add: latency_samples_def sample_all_def Some new [simplified])
  have "map la_worker probed = map fst handles" by (simp add: probed)
  have workers: "la_worker ` set ?sorted = fst ` set handles"
    by (simp add: probed image_image)
  have "mset (map la_worker (sort_key la_worker ?all)) = mset (map fst handles @ new)"
    by (simp add: probed image_mset.compositionality comp_def)
  moreover have "distinct (map fst handles @ new)" using assms d set_new workers by auto
  ultimately have "distinct (map la_worker (sort_key la_worker ?all))"
    using mset_eq_imp_distinct_iff by blast
  moreover have "\<exists>t answer. ask handle = Some (t, answer) \<and>
      latency_sample worker t answer \<in> set (sort_key la_worker ?all)"
    if w: "(worker, handle) \<in> set handles" for worker handle
  proof -
    obtain t answer where a: "ask handle = Some (t, answer)" using answers w by force
    have "sampled_of ask (worker, handle) \<in> set probed" using w by (auto simp: probed)
    with a show ?thesis by (auto simp: sampled_of_def)
  qed
  moreover have "s = sv2_unsupported now (la_worker s) \<and> la_worker s \<in> set (sv2_ids (sn_miners snap))"
    if "s \<in> set (sort_key la_worker ?all)" "la_worker s \<notin> fst ` set handles" for s
    using that set_new by (auto simp: probed) force+
  moreover have "set (sv2_ids (sn_miners snap)) \<subseteq> la_worker ` set (sort_key la_worker ?all)"
    using set_new by (auto simp: image_Un image_image)
  ultimately show ?thesis unfolding res option.case
    by (intro conjI ballI sorted_sort_key) (blast | simp)+
qed

theorem latency_report_witness:
  "latency_samples (\<lambda>_. Some (5, SessionClosed)) [(''a'', 3)] 7 sample_snapshot =
     Some [latency_sample ''a'' 5 SessionClosed, sv2_unsupported 7 ''sv2-1''] \<and>
   sorted (map la_worker [latency_sample ''a'' 5 SessionClosed, sv2_unsupported 7 ''sv2-1''])"
proof -
  let ?ask = "\<lambda>_ :: nat. Some (5 :: int, SessionClosed)"
  have "public_miner_id (hd (sn_miners sample_snapshot)) = ''sv2-1''"
    by (simp add: sample_snapshot_def public_miner_id_def miner_new_def public_optional_text_def
      trim_visible visible_def)
  then have "latency_samples ?ask [(''a'', 3)] 7 sample_snapshot =
      Some [latency_sample ''a'' 5 SessionClosed, sv2_unsupported 7 ''sv2-1'']"
    by (simp add: sample_snapshot_def latency_samples_def sample_all_def sv2_unsupported_def Let_def
      less_char_def miner_new_def)
  with latency_report [of "[(''a'', 3)]" ?ask 7 sample_snapshot] show ?thesis by simp
qed

subsection \<open>The key on the dashboard\<close>

text \<open>\<open>hex::decode\<close> takes both cases of the digits; only the text of an error shows the case.\<close>

definition hex_case_ok :: "externs \<Rightarrow> bool" where
  "hex_case_ok X \<longleftrightarrow> (\<forall>s. result_ok (hex_decode X (to_ascii_lowercase s)) = result_ok (hex_decode X s))"

lemma hex_digit_lower [simp]: "hex_digit (ascii_lower c) = hex_digit c"
  by (simp add: hex_digit_def ascii_lower_def Let_def)

lemma is_hexdigit_lower [simp]: "is_hexdigit (ascii_lower c) = is_hexdigit c"
  by (simp add: is_hexdigit_def)

lemma ref_hex_case_ok: "hex_case_ok ref_externs"
proof -
  have "result_ok (ref_hex_decode (map ascii_lower s)) = result_ok (ref_hex_decode s)" for s
  proof (induction s rule: ref_hex_decode.induct)
    case (3 c d s)
    then show ?case
      by (cases "hex_digit c"; cases "hex_digit d"; cases "ref_hex_decode (map ascii_lower s)";
        cases "ref_hex_decode s") auto
  qed simp_all
  then show ?thesis by (simp add: hex_case_ok_def to_ascii_lowercase_def ref_externs_def)
qed

text \<open>The check of the digits and of the length comes before the decoding, and adds nothing to it.\<close>

lemma decode_key:
  assumes "hex_ok X" and "hex_case_ok X"
  shows "(if length (to_ascii_lowercase s) \<noteq> 64 \<or> \<not> list_all is_hexdigit (to_ascii_lowercase s) then None
      else case hex_decode X (to_ascii_lowercase s) of
        Inl err \<Rightarrow> None
      | Inr bytes \<Rightarrow> if length bytes \<noteq> 32 then None else Some (f bytes)) =
    map_option f (result_ok (rbind (hex_decode X s) (\<lambda>bs.
      if length bs \<noteq> 32 then Inl e else Inr bs)))"
proof (cases "hex_decode X s")
  case (Inl err)
  with assms(2) have "result_ok (hex_decode X (to_ascii_lowercase s)) = None"
    by (simp add: hex_case_ok_def)
  then have "\<exists>e. hex_decode X (to_ascii_lowercase s) = Inl e"
    by (cases "hex_decode X (to_ascii_lowercase s)") auto
  with Inl show ?thesis by auto
next
  case (Inr bs)
  with assms(2) have "result_ok (hex_decode X (to_ascii_lowercase s)) = Some bs"
    by (simp add: hex_case_ok_def)
  then have low: "hex_decode X (to_ascii_lowercase s) = Inr bs"
    by (cases "hex_decode X (to_ascii_lowercase s)") auto
  then have "length (to_ascii_lowercase s) = 2 * length bs" and "list_all is_hexdigit (to_ascii_lowercase s)"
    using hex_ok_decode_length [OF assms(1) low] hex_ok_decode_digits [OF assms(1) low]
    by (auto simp: list_all_iff)
  with low Inr show ?thesis by simp
qed

lemma result_ok_context: "result_ok (rbind (with_context c r) f) = result_ok (rbind r f)"
  by (cases r) simp_all

lemma dashboard_key_is_read_key:
  assumes "hex_ok X" and "hex_case_ok X"
  shows "load_sv2_authority_public_key X F read cfg =
    (case sv2_authority_public_key_path cfg of
       None \<Rightarrow> None
     | Some path \<Rightarrow>
         map_option (encode_sv2_authority_public_key F) (result_ok (read_public_hex_key X (read path))))"
proof (cases "sv2_authority_public_key_path cfg")
  case (Some path)
  show ?thesis
  proof (cases "read path")
    case (Inr raw)
    show ?thesis
      by (simp only: Inr result_ok_context load_sv2_authority_public_key_def Some read_public_hex_key_def read_hex_key_def
        Let_def decode_key [OF assms] rbind_simps with_context_simps with_context_Inr option.case sum.case)
  qed (simp add: load_sv2_authority_public_key_def Some read_public_hex_key_def read_hex_key_def)
qed (simp add: load_sv2_authority_public_key_def)

lemma is_hexdigit_visible: "is_hexdigit c \<Longrightarrow> visible c"
  by (auto simp: is_hexdigit_def hex_digit_def visible_def Let_def split: if_splits)

lemma first_line_visible: "list_all visible s \<Longrightarrow> s \<noteq> [] \<Longrightarrow> first_line s = Some s"
proof -
  assume "list_all visible s" and "s \<noteq> []"
  then have t: "takeWhile (\<lambda>c. c \<noteq> CHR 0x0A) s = s" by (auto simp: takeWhile_eq_all_conv list_all_iff visible_def)
  with \<open>s \<noteq> []\<close> show ?thesis unfolding first_line_def Let_def t by simp
qed

lemma read_public_hex_encoded:
  assumes "hex_ok X" and "length bs = 32"
  shows "read_public_hex_key X (Inr (hex_encode X bs)) = Inr bs"
proof -
  have "list_all visible (hex_encode X bs)"
    using hex_ok_encode_digits [OF assms(1)] by (auto simp: list_all_iff is_hexdigit_visible)
  moreover have "hex_encode X bs \<noteq> []" using hex_ok_length [OF assms(1), of bs] assms(2) by auto
  ultimately show ?thesis
    by (simp add: read_public_hex_key_def read_hex_key_def first_line_visible trim_visible
      trim_0x_hex_encode assms hex_ok_roundtrip)
qed

text \<open>C28 (\<open>load_sv2_authority_public_key\<close>): the dashboard shows a key exactly when a path is
  configured and the reader that the Stratum V2 listener uses accepts the file, however the two
  differ in their checks; when the listener starts, what is shown is the base58 text of version 1
  and the very key that it certifies with.\<close>

theorem dashboard_key_is_listener_key:
  assumes "hex_ok X" and "hex_case_ok X"
  shows "load_sv2_authority_public_key X F read cfg =
      (case sv2_authority_public_key_path cfg of
         None \<Rightarrow> None
       | Some path \<Rightarrow>
           map_option (encode_sv2_authority_public_key F) (result_ok (read_public_hex_key X (read path)))) \<and>
    (\<forall>k. load_authority X stat read cfg = Inr k \<longrightarrow>
       load_sv2_authority_public_key X F read cfg = Some (fm_base58check F ([1, 0] @ ak_public k)))"
  using dashboard_key_is_read_key [OF assms, of F read cfg]
  by (auto simp: load_authority_def encode_sv2_authority_public_key_def ok_or_def rbind_Inr_iff
    split: option.splits)

theorem dashboard_key_is_listener_key_witness:
  "load_sv2_authority_public_key ref_externs
     \<lparr>fm_time = \<lambda>_. [], fm_f64 = \<lambda>_. [], fm_base58check = ref_hex_encode\<rparr>
     (\<lambda>_. Inr (ref_hex_encode (replicate 32 7)))
     (sample_config\<lparr>sv2_authority_public_key_path := Some ''key''\<rparr>) =
   Some (ref_hex_encode ([1, 0] @ replicate 32 7))"
proof -
  let ?F = "\<lparr>fm_time = \<lambda>_. [], fm_f64 = \<lambda>_. [], fm_base58check = ref_hex_encode\<rparr>"
  let ?raw = "ref_hex_encode (replicate 32 7)"
  have "read_public_hex_key ref_externs (Inr ?raw) = Inr (replicate 32 7)"
    using read_public_hex_encoded [OF ref_hex_ok, of "replicate 32 7"] by (simp add: ref_externs_def)
  with dashboard_key_is_listener_key [OF ref_hex_ok ref_hex_case_ok,
      of ?F "\<lambda>_. Inr ?raw" "sample_config\<lparr>sv2_authority_public_key_path := Some ''key''\<rparr>"]
  show ?thesis by (simp add: encode_sv2_authority_public_key_def)
qed

end
