(* ===== verification/Entry.thy ===== *)
theory Entry
  imports Api
begin

text \<open>
  \<open>src/main.rs\<close>, and the accept loop of \<open>StratumServer::run\<close>: how the parts are put together when
  the program starts, which tasks it starts, and what ends it. The file, the environment, the HTTP
  crate and the answers of the node are arguments; logging is left out.
\<close>

subsection \<open>Starting\<close>

datatype program_task = EngineTask | BlockMonitorTask | P2pTask | StratumTask | Sv2Task | ApiTask

fun task_label :: "program_task \<Rightarrow> string" where
  "task_label StratumTask = ''stratum''"
| "task_label ApiTask = ''api''"
| "task_label Sv2Task = ''sv2''"
| "task_label _ = []"

record booted =
  bo_config :: config
  bo_metrics :: metrics_store
  bo_rpc :: rpc_client
  bo_engine :: engine
  bo_tasks :: "program_task list"

text \<open>
  The tasks in the order in which they are spawned; \<open>EngineTask\<close> stands for those that
  \<open>TemplateEngine::start\<close> spawned before.
\<close>

definition spawned_tasks :: "config \<Rightarrow> program_task list" where
  "spawned_tasks cfg =
     [EngineTask, BlockMonitorTask]
     @ (if p2p_fast_peer cfg \<noteq> None then [P2pTask] else [])
     @ [StratumTask]
     @ (if sv2_enabled cfg then [Sv2Task] else [])
     @ (if api_enabled cfg then [ApiTask] else [])"

text \<open>
  How starting ends: a panic, an error, no end with the answers that the node gave, or a running
  program. \<open>file\<close> is the parsed configuration file, \<open>build\<close> the HTTP crate and \<open>answers\<close> what the
  node answers to \<open>getblocktemplate\<close>.
\<close>

datatype boot_end = BootPanic | BootFailed string | BootWaiting | Booted booted

definition boot ::
  "externs \<Rightarrow> (string \<Rightarrow> string option) \<Rightarrow> file_config result \<Rightarrow> (http_client \<Rightarrow> unit result) \<Rightarrow>
   (gbt_response result \<times> clock) list \<Rightarrow> instant \<Rightarrow> boot_end" where
  "boot X env file build answers now =
     (case (case file of Inl err \<Rightarrow> Some (Inl err) | Inr fc \<Rightarrow> load_config X env fc) of
        None \<Rightarrow> BootPanic
      | Some loaded \<Rightarrow>
     (case with_context ''load config'' loaded of
        Inl err \<Rightarrow> BootFailed err
      | Inr cfg \<Rightarrow>
     (case metrics_store_new (max_recent_events cfg) (max_block_history cfg)
          (word_of_nat (miner_inactive_timeout_secs cfg)) now of
        None \<Rightarrow> BootPanic
      | Some metrics \<Rightarrow>
     (case with_context ''build RPC client''
          (rpc_client_new build (rpc_url cfg) (rpc_user cfg) (rpc_pass cfg)) of
        Inl err \<Rightarrow> BootFailed err
      | Inr rpc \<Rightarrow>
     (case engine_start X cfg answers (engine_new (st_counters metrics) now) of
        None \<Rightarrow> BootWaiting
      | Some (started, self) \<Rightarrow>
     (case with_context ''start template engine'' started of
        Inl err \<Rightarrow> BootFailed err
      | Inr _ \<Rightarrow>
          Booted \<lparr>bo_config = cfg, bo_metrics = metrics, bo_rpc = rpc, bo_engine = self,
            bo_tasks = spawned_tasks cfg\<rparr>))))))"

subsection \<open>Ending\<close>

text \<open>What a task's handle gives: its result, or that it panicked or was cancelled.\<close>

datatype join = Finished "unit result" | JoinError string

fun handle_task_result :: "join \<Rightarrow> string \<Rightarrow> unit result" where
  "handle_task_result (Finished (Inr _)) name = Inr ()"
| "handle_task_result (Finished (Inl err)) name = with_context (name @ '' exited with error'') (Inl err)"
| "handle_task_result (JoinError err) name = with_context (name @ '' task join failed'') (Inl err)"

text \<open>The handles that \<open>run\<close> waits for, beside the signal.\<close>

definition awaited :: "config \<Rightarrow> program_task list" where
  "awaited cfg =
     [StratumTask] @ (if api_enabled cfg then [ApiTask] else [])
     @ (if sv2_enabled cfg then [Sv2Task] else [])"

text \<open>
  \<open>tokio::select!\<close>: the first event that \<open>run\<close> waits for decides; \<open>None\<close> while there is none.
  Events that are ready together come in any order.
\<close>

datatype main_event = TaskEnded program_task join | CtrlC

fun main_select :: "config \<Rightarrow> main_event list \<Rightarrow> unit result option" where
  "main_select cfg [] = None"
| "main_select cfg (CtrlC # evs) = Some (Inr ())"
| "main_select cfg (TaskEnded t res # evs) =
     (if t \<in> set (awaited cfg) then Some (handle_task_result res (task_label t))
      else main_select cfg evs)"

text \<open>
  The accept loops: the connections whose tasks were spawned, and how the loop ended, if it did.
  The one of the Stratum V2 listener also decides on permits (\<open>accept_connection\<close>); its error has
  a context.
\<close>

fun accept_loop :: "'c result list \<Rightarrow> 'c list \<times> unit result option" where
  "accept_loop [] = ([], None)"
| "accept_loop (Inl err # accepts) = ([], Some (Inl err))"
| "accept_loop (Inr conn # accepts) = (let (conns, res) = accept_loop accepts in (conn # conns, res))"

definition stratum_run :: "unit result \<Rightarrow> 'c result list \<Rightarrow> 'c list \<times> unit result option" where
  "stratum_run bind accepts =
     (case bind of Inl err \<Rightarrow> ([], Some (Inl err)) | Inr _ \<Rightarrow> accept_loop accepts)"

definition sv2_run ::
  "authority_key_pair result \<Rightarrow> unit result \<Rightarrow> 'c result list \<Rightarrow> 'c list \<times> unit result option" where
  "sv2_run authority bind accepts =
     (case authority of
        Inl err \<Rightarrow> ([], Some (Inl err))
      | Inr _ \<Rightarrow>
          (case with_context ''bind sv2 listener'' bind of
             Inl err \<Rightarrow> ([], Some (Inl err))
           | Inr _ \<Rightarrow> accept_loop (map (with_context ''accept sv2 connection'') accepts)))"

subsection \<open>Lemmas\<close>

lemma awaited_spawned: "set (awaited cfg) = set (spawned_tasks cfg) - {EngineTask, BlockMonitorTask, P2pTask}"
  by (auto simp: awaited_def spawned_tasks_def)

lemma accept_loop_fails: "accept_loop (map Inr conns @ Inl err # accepts) = (conns, Some (Inl err))"
  by (induction conns) (simp_all add: Let_def)

lemma accept_loop_runs: "accept_loop (map Inr conns) = (conns, None)"
  by (induction conns) (simp_all add: Let_def)

lemma main_select_background:
  "CtrlC \<notin> set evs \<Longrightarrow> (\<And>t res. TaskEnded t res \<in> set evs \<Longrightarrow> t \<notin> set (awaited cfg)) \<Longrightarrow>
   main_select cfg (evs @ later) = main_select cfg later"
  by (induction cfg evs rule: main_select.induct) auto

text \<open>The first refresh of a new engine publishes a job, or starting fails.\<close>

lemma first_gbt_publishes:
  assumes "hex_ok X" and "apply_gbt_body X cfg gbt source clk (engine_new counters now) = (Inr u, e')"
  shows "\<exists>key. built_from X cfg gbt key 1 (en_current e')" and "jt_ready (en_current e')"
    and "en_pending e' = 0" and "en_permit e'"
proof -
  let ?e = "engine_new counters now"
  note cases = apply_gbt_body_cases [OF assms]
  have "en_job_counter e' = 2"
    using assms(2)
    by (auto simp: apply_gbt_body_def is_gbt_older_than_current_def engine_new_def empty_template_def
      publish_job_def update_chain_tip_from_job_def Let_def split: sum.splits option.splits if_splits)
  then have "\<not> same_published ?e e'" by (simp add: same_published_def engine_new_def)
  with cases obtain key job where "built_from X cfg gbt key 1 job" "published X ?e job e'"
    by (auto simp: engine_new_def)
  then show "\<exists>key. built_from X cfg gbt key 1 (en_current e')" and "jt_ready (en_current e')"
    by (auto simp: published_def)
  from cases show "en_pending e' = 0" and "en_permit e'" by (simp_all add: same_frame_def engine_new_def)
qed

lemma engine_start_done:
  assumes "hex_ok X" and "engine_start X cfg answers (engine_new counters now) = Some (Inr u, e)"
  shows "\<exists>gbt clk rest key. answers = (Inr gbt, clk) # rest \<and> built_from X cfg gbt key 1 (en_current e) \<and>
      en_last_gbt_success_ms e = ck_ms clk"
    and "jt_ready (en_current e)" and "engine_ok X (e, None)"
proof -
  have r: "refresh_template X cfg answers Startup (engine_new counters now) = Some (Inr (), e)"
    using assms(2) by (auto simp: engine_start_def)
  obtain answer clk rest where answers: "answers = (answer, clk) # rest"
    using r by (cases answers) auto
  obtain gbt where gbt: "answer = Inr gbt" using r answers by (cases answer) auto
  obtain res e1 where a: "apply_gbt_body X cfg gbt Startup clk (engine_new counters now) = (res, e1)"
    by fastforce
  then have resp: "apply_gbt_response X cfg gbt Startup clk (engine_new counters now) = (res, e1)"
    by (simp add: apply_gbt_response_def engine_new_def)
  have "res = Inr ()" using r answers gbt resp by (cases res) auto
  note first = first_gbt_publishes [OF assms(1) a [unfolded \<open>res = Inr ()\<close>]]
  have e: "e = (note_gbt_success (ck_ms clk) e1)\<lparr>en_pending := 0\<rparr>"
    using r answers gbt resp \<open>res = Inr ()\<close> first(3)
    by (auto simp: take_pending_refresh_source_def from_pending_slot_def note_gbt_success_def Let_def)
  then show "\<exists>gbt clk rest key. answers = (Inr gbt, clk) # rest \<and> built_from X cfg gbt key 1 (en_current e) \<and>
      en_last_gbt_success_ms e = ck_ms clk"
    using first(1) answers gbt by (auto simp: note_gbt_success_def)
  show "jt_ready (en_current e)" using first(2) by (simp add: e note_gbt_success_def)
  have "step_effect X (engine_new counters now) e1"
    using apply_gbt_body_effect [OF assms(1), of "engine_new counters now" cfg gbt Startup clk] a by simp
  then have "engine_ok X (e1, None)"
    by (rule step_effect_ok [OF engine_new_ok]) (simp add: first(4))
  then show "engine_ok X (e, None)" by (simp add: e engine_ok_def note_gbt_success_def)
qed

lemma boot_cases:
  assumes "boot X env file build answers now = Booted b"
  shows "\<exists>fc. file = Inr fc \<and> load_config X env fc = Some (Inr (bo_config b))"
    and "metrics_store_new (max_recent_events (bo_config b)) (max_block_history (bo_config b))
      (word_of_nat (miner_inactive_timeout_secs (bo_config b))) now = Some (bo_metrics b)"
    and "\<exists>u. engine_start X (bo_config b) answers (engine_new (st_counters (bo_metrics b)) now) =
      Some (Inr u, bo_engine b)"
    and "bo_tasks b = spawned_tasks (bo_config b)"
  using assms
  by (auto simp: boot_def with_context_def split: sum.splits option.splits)

subsection \<open>Properties\<close>

text \<open>C15 (\<open>run\<close>): a program that has started has a valid configuration, metrics in order, and an
  engine in order whose current job is built from the node's first answer; it serves Stratum V1,
  and Stratum V2, the HTTP server and the peer-to-peer client exactly as configured. Starting
  fails or goes on otherwise: no miner is served before there is a job.\<close>

theorem booted_program:
  assumes "hex_ok X" and "boot X env file build answers now = Booted b"
  shows "config_ok X (bo_config b) \<and> metrics_ok (st_inner (bo_metrics b)) \<and>
    engine_ok X (bo_engine b, None) \<and> jt_ready (current_job (bo_engine b)) \<and>
    (\<exists>gbt clk rest key. answers = (Inr gbt, clk) # rest \<and>
       built_from X (bo_config b) gbt key 1 (current_job (bo_engine b)) \<and>
       en_last_gbt_success_ms (bo_engine b) = ck_ms clk) \<and>
    StratumTask \<in> set (bo_tasks b) \<and>
    (Sv2Task \<in> set (bo_tasks b) \<longleftrightarrow> sv2_enabled (bo_config b)) \<and>
    (ApiTask \<in> set (bo_tasks b) \<longleftrightarrow> api_enabled (bo_config b)) \<and>
    (P2pTask \<in> set (bo_tasks b) \<longleftrightarrow> p2p_fast_peer (bo_config b) \<noteq> None)"
proof -
  note b = boot_cases [OF assms(2)]
  obtain fc where "load_config X env fc = Some (Inr (bo_config b))" using b(1) by blast
  then have "config_ok X (bo_config b)" using load_config_Some validate_ok by blast
  moreover obtain u where "engine_start X (bo_config b) answers
      (engine_new (st_counters (bo_metrics b)) now) = Some (Inr u, bo_engine b)" using b(3) by blast
  note engine_start_done [OF assms(1) this]
  moreover have "metrics_ok (st_inner (bo_metrics b))" using b(2) by (rule metrics_ok_new)
  ultimately show ?thesis by (simp add: b(4) spawned_tasks_def current_job_def)
qed

lemma sample_start:
  "\<exists>e. engine_start ref_externs sample_config [(Inr sample_gbt, \<lparr>ck_ms = 7, ck_secs = 0, ck_utc = 0\<rparr>)]
     (engine_new counters 0) = Some (Inr (), e)"
proof -
  define txroot where "txroot = compute_txid_partial_root ref_externs (gbt_transactions sample_gbt)"
  define key where "key = gbt_template_key sample_gbt txroot"
  obtain job where "build_job ref_externs sample_config sample_gbt key Startup txroot 1 0 = Inr job"
    using sample_job by blast
  then show ?thesis
    by (simp add: engine_start_def apply_gbt_response_def apply_gbt_body_def is_gbt_older_than_current_def
      engine_new_def empty_template_def
      sample_gbt_def [THEN arg_cong [where f = gbt_rules], simplified]
      sample_gbt_def [THEN arg_cong [where f = gbt_longpollid], simplified]
      strip_prefix_def is_supported_forced_rule_def txroot_def [symmetric] key_def [symmetric]
      publish_job_def update_chain_tip_from_job_def take_pending_refresh_source_def
      from_pending_slot_def note_gbt_success_def Let_def)
qed

theorem booted_program_witness:
  "\<exists>b. boot ref_externs (\<lambda>_. None) (Inr sample_file) (\<lambda>_. Inr ())
     [(Inr sample_gbt, \<lparr>ck_ms = 7, ck_secs = 0, ck_utc = 0\<rparr>)] 0 = Booted b \<and>
     jt_ready (current_job (bo_engine b)) \<and> en_last_gbt_success_ms (bo_engine b) = 7"
proof -
  let ?answers = "[(Inr sample_gbt, \<lparr>ck_ms = 7, ck_secs = 0, ck_utc = 0\<rparr>)]"
  obtain metrics where m: "metrics_store_new (max_recent_events sample_config) (max_block_history sample_config)
      (word_of_nat (miner_inactive_timeout_secs sample_config)) 0 = Some metrics"
    by (simp add: metrics_store_new_def duration_seconds_def sample_config_def build_config_def
      sample_file_def file_config_default_def runtime_section_default_def)
  obtain e where e: "engine_start ref_externs sample_config ?answers (engine_new (st_counters metrics) 0) =
      Some (Inr (), e)" using sample_start by blast
  obtain b where b: "boot ref_externs (\<lambda>_. None) (Inr sample_file) (\<lambda>_. Inr ()) ?answers 0 = Booted b"
    using m e by (simp add: boot_def sample_loads rpc_client_new_def Let_def)
  from booted_program [OF ref_hex_ok b] b show ?thesis by auto
qed

text \<open>C17 (\<open>run\<close>, \<open>StratumServer::run\<close>, \<open>Sv2Server::run\<close>): the first connection that cannot be
  accepted, for whatever reason (a peer that has gone, no file descriptors left), ends the listener
  with that error, and with it the whole program: every session of both protocols.\<close>

theorem accept_error_ends_program:
  assumes "CtrlC \<notin> set before" and "\<forall>t res. TaskEnded t res \<in> set before \<longrightarrow> t \<notin> set (awaited cfg)"
  shows "stratum_run (Inr ()) (map Inr conns @ Inl err # accepts) = (conns, Some (Inl err)) \<and>
    main_select cfg (before @ TaskEnded StratumTask (Finished (Inl err)) # after) =
      Some (Inl ''stratum exited with error'') \<and>
    (sv2_enabled cfg \<longrightarrow>
       sv2_run (Inr keys) (Inr ()) (map Inr conns @ Inl err # accepts) =
         (conns, Some (Inl ''accept sv2 connection'')) \<and>
       main_select cfg (before @ TaskEnded Sv2Task (Finished (Inl ''accept sv2 connection'')) # after) =
         Some (Inl ''sv2 exited with error''))"
proof -
  have "main_select cfg (before @ later) = main_select cfg later" for later
    using assms by (intro main_select_background) blast+
  moreover have "accept_loop (map (with_context ''accept sv2 connection'') (map Inr conns @ Inl err # accepts)) =
      (conns, Some (Inl ''accept sv2 connection''))"
    using accept_loop_fails [of conns "''accept sv2 connection''"] by (simp add: comp_def)
  ultimately show ?thesis
    by (simp add: stratum_run_def sv2_run_def accept_loop_fails awaited_def)
qed

theorem accept_error_ends_program_witness:
  "main_select sample_config
     ([TaskEnded P2pTask (JoinError ''panic'')] @ [TaskEnded StratumTask (Finished (Inl ''Too many open files''))]) =
   Some (Inl ''stratum exited with error'')"
proof -
  have "\<forall>t res. TaskEnded t res \<in> set [TaskEnded P2pTask (JoinError ''panic'')] \<longrightarrow> t \<notin> set (awaited sample_config)"
    by (simp add: awaited_def)
  from accept_error_ends_program [OF _ this, of "[]" "''Too many open files''" "[]" "[]"]
  show ?thesis by (simp add: awaited_def)
qed

end
