(* ===== verification/Spec2Isabelle.thy ===== *)
theory Spec2Isabelle
  imports Stratum_Properties Sv2_Properties P2p_Properties Entry
begin

text \<open>
  StratumBee is a gateway between a Bitcoin node and the miners of one operator: it fetches block
  templates, builds jobs that pay the configured script, hands them out over Stratum V1 and
  Stratum V2, checks the shares that come back, and submits to the node those that are blocks.
  This development models the Rust program in \<open>src/src\<close> and proves what makes it correct.

  \<^bold>\<open>The program.\<close> \<open>main.rs\<close> loads the configuration, starts the template engine and runs the
  listeners. The engine (\<open>TemplateEngine\<close>, \<open>template.rs\<close>) asks the node for templates over RPC
  (\<open>rpc.rs\<close>), by long polling and on the triggers of ZMQ, and takes block announcements from the
  peer-to-peer client (\<open>p2p.rs\<close>); it publishes one current job. Every connection of the Stratum V1
  server (\<open>stratum.rs\<close>) and of the Stratum V2 server (\<open>sv2/\<close>) reads the job, derives jobs of its
  own from it, and checks shares with \<open>validate_share\<close> (\<open>share.rs\<close>); a block goes back through
  \<open>TemplateEngine::submit_block\<close>. Difficulties follow the miners' rates (\<open>vardiff.rs\<close>). All of
  them record in the metrics store (\<open>metrics.rs\<close>), which the block monitor (\<open>block_monitor.rs\<close>)
  completes and the HTTP server (\<open>api.rs\<close>) shows.

  \<^bold>\<open>Theories and sources.\<close> A Rust function, type or constant is modelled by the definition of the
  same name, as far as HOL leaves the name free; a part of a function has a name of its own and
  stands before it.
  \<^item> \<open>Prelude\<close>, \<open>Interfaces\<close>, \<open>RustStd\<close>, \<open>Float64\<close>, \<open>Json\<close>, \<open>Externs\<close>: the shared vocabulary: machine
    words, results and little-endian bytes; the contracts that components share, as locales; the
    strings of Rust as their UTF-8 bytes; binary64 with correct rounding; JSON values; and the
    crates that are not part of the repository, as one record of parameters with the behaviour
    that proofs may assume of them.
  \<^item> \<open>Bitcoin_Encoding\<close>, \<open>Hashing\<close>, \<open>Script\<close>, \<open>Target\<close>: \<open>bitcoin_encoding.rs\<close>, \<open>hash.rs\<close> and the
    encodings, merkle trees, scripts and 256-bit targets of \<open>template.rs\<close> and \<open>share.rs\<close>.
  \<^item> \<open>Config\<close>: \<open>config.rs\<close>. \<open>Template\<close>: the construction of jobs from templates and of empty jobs
    (\<open>build_job\<close>, \<open>build_empty_job\<close>, \<open>build_coinbase_parts\<close>). \<open>Share\<close>: \<open>share.rs\<close>.
  \<^item> \<open>Rpc\<close>, \<open>Metrics\<close>, \<open>Vardiff\<close>: \<open>rpc.rs\<close>, \<open>metrics.rs\<close> with \<open>block_monitor.rs\<close>, \<open>vardiff.rs\<close>.
  \<^item> \<open>Template_Engine\<close>: the state of \<open>TemplateEngine\<close> as the record \<open>engine\<close>, its operations, and the
    step relation \<open>engine_step\<close> that interleaves its tasks.
  \<^item> \<open>Tasks\<close>: the tasks of a connection as trees of atomic operations (\<open>prog\<close>), any number of them
    against one session (\<open>task_step\<close>), and the rely/guarantee rule by which invariants of all
    interleavings are proved.
  \<^item> \<open>Session\<close>, \<open>Line_Reader\<close>, \<open>Stratum\<close>, \<open>Latency\<close>: \<open>stratum.rs\<close>: the session's state and its
    operations, the bounded reader of lines, the handlers and background tasks, and the writer
    task with the latency probes. Their properties are in \<open>Stratum_Properties\<close>.
  \<^item> \<open>Sv2_Transport\<close>, \<open>Sv2\<close>: \<open>sv2/transport.rs\<close> and \<open>sv2/keys.rs\<close> (listener, limits, frames, keys), and
    \<open>sv2/connection.rs\<close> (set-up, channels, jobs, shares). Properties: \<open>Sv2_Properties\<close>.
  \<^item> \<open>P2p\<close>: \<open>p2p.rs\<close>, its messages on bytes and its session as a program of \<open>Tasks\<close> whose state is the
    engine. Properties: \<open>P2p_Properties\<close>.
  \<^item> \<open>Api\<close>, \<open>Entry\<close>: \<open>api.rs\<close> and \<open>main.rs\<close>.
  \<^item> this theory: what spans template, session and node.

  \<^bold>\<open>State and effects.\<close> A struct is a record, a map an association list or a function, and the order
  in which the code iterates over a \<open>HashMap\<close> is an argument. An operation that holds its lock (or
  the permit of the engine) from its first access to its last is one function from state to state;
  a handler that gives the lock back in between is a program of \<open>Tasks\<close>, with one node for each
  section that holds the lock, each message that is sent, each reading of a clock or of the
  current job, and each access to the metrics, so that other tasks run between any two of them. The
  messages of a V1 session go through a channel that holds 64 of them until its writer takes them:
  a task that finds it full waits, and nothing says that the writer ever takes a message or that an
  operation is ever answered.
  Errors are the left values of \<open>result\<close>, with the outermost text that the code gives; a panic is
  \<open>None\<close> or \<open>Panic\<close>. Machine integers are words that wrap, as in a release build, where the code
  does not saturate or check. The assertions \<open>debug_assert!\<close> of \<open>stratum.rs\<close> on the bootstrap claim
  and on the version mask panic where the field \<open>debug_assertions\<close> of the parameters is set; the
  third, on the length of a job identifier, always holds (\<open>length_format_session_job_id\<close>). Times are
  nanoseconds in \<open>int\<close>.

  \<^bold>\<open>What is proved.\<close>
  \<^item> From template to block: \<open>mined_block_matches_template\<close>, \<open>v1_submits_template_blocks\<close> and
    \<open>sv2_submits_template_blocks\<close>: what is handed to the node is a block on the previous block and the
    compact target of a template, with its transactions and their merkle root, paying the whole
    value to the configured script, whose hash meets the target (but for a V1 share whose padded
    extranonce begins with \<open>0x\<close>, a defect).
  \<^item> Shares: \<open>share_accepted_iff\<close>, \<open>share_target_sound\<close> and \<open>compact_target_value\<close> say which hashes
    count; \<open>accepted_share_checked\<close>, \<open>sv2_accepted_share_checked\<close>, \<open>one_reply_per_request\<close>,
    \<open>sv2_share_answered_once\<close> and \<open>duplicate_check_refines_window\<close> that the sessions accept
    nothing else, answer each request once, and refuse duplicates as the abstract window of keys
    does.
  \<^item> Encodings: the coinbase halves, CompactSize integers, script numbers, peer-to-peer messages and
    hexadecimal fields read back (the locale \<open>byte_codec\<close> and its interpretations,
    \<open>coinbase_split_reads_back\<close>, \<open>p2p_messages_roundtrip\<close>), and \<open>merkle_branches_root\<close>.
  \<^item> The engine: \<open>engine_tip_is_parent\<close>, \<open>engine_jobs_monotone\<close>, \<open>fast_job_guarded\<close> and
    \<open>submit_block_outcome\<close> hold in every interleaving of its tasks; \<open>p2p_jobs_from_headers\<close> and
    \<open>p2p_session_order\<close> for the client that announces blocks to it.
  \<^item> Connections: \<open>session_interleavings\<close> and \<open>sv2_connections_safe\<close> are invariants of all
    interleavings (no handler panics in a release build, only allowed targets and jobs go out),
    \<open>wait_loop_ends\<close> that the task of new templates waits only for an authorization that is in
    flight, and that the handler of the authorization ends that wait, \<open>sv2_jobs_announced\<close> and \<open>job_lookup\<close> what a job identifier stands for,
    \<open>line_of_stream\<close> that lines are read as they were sent, \<open>listener_limits\<close> that the limits of
    the V2 listener hold and every permit comes back.
  \<^item> Services: \<open>metrics_store_invariant\<close>, \<open>snapshot_counts\<close>, \<open>vardiff_proposals_in_range\<close>,
    \<open>vardiff_rate_and_hysteresis\<close>, \<open>loaded_config_valid\<close>, \<open>loaded_config_builds_coinbase\<close>;
    \<open>health_sound\<close>, \<open>latency_report\<close> and \<open>dashboard_key_is_listener_key\<close> for the HTTP server;
    \<open>booted_program\<close> for the start of the program.
  \<^item> Behaviour that its authors may not intend: \<open>sv2_unanswered_block_lost\<close>,
    \<open>accept_error_ends_program\<close>, \<open>load_panics_on_nan\<close>, and the lemmas on odd extranonces,
    malformed nonces and the failing assertion on the version mask (\<open>debug_build_share_panics\<close>) in
    \<open>Stratum_Properties\<close>.

  \<^bold>\<open>Interfaces.\<close> \<open>fifo_log\<close>, \<open>dedup_filter\<close>, \<open>id_source\<close> and \<open>byte_codec\<close> (theory \<open>Interfaces\<close>) and
  \<open>rely_guarantee\<close> (theory \<open>Tasks\<close>) are interpreted in the theories of the components that provide
  them: the logs of the metrics store and of the vardiff controller, the job queue and the share
  window of a V1 session and of a V2 connection, the sources of identifiers, the codecs, and the
  invariants of both kinds of connection.

  \<^bold>\<open>Bounds and ends of loops.\<close> Definitions end by their recursion: loops over data recurse on it, and
  the loops whose number of rounds is not a length have a measure (the digits of a number, the
  levels of a merkle tree, the bytes left of a stream). A loop that waits for the outside recurses
  on the list of what the outside does (answers of the node, chunks of a stream, events of a
  task), of any length, and says \<open>None\<close> where it would wait for more. \<open>read_frame\<close>, whose decoder is
  a parameter that may ask for bytes for ever, is a partial function. The one loop with a bound
  of its own is the wait of the task of new templates for an authorization (\<open>notify_turn\<close>): its
  argument is the number of rounds after which a run is cut, every number is offered as a start of
  the task, and so whatever the loop does up to any moment is covered.

  \<^bold>\<open>Not modelled.\<close> Sockets, timers and their durations, the Noise protocol and the codecs of the
  Stratum V2 crates, TOML and JSON parsing and the HTTP exchange are parameters or are left out;
  so are logging, the command line, the text of the dashboard, CORS, and the reconnection of the
  ZMQ socket, which only repeats the handling of messages (\<open>zmq_message\<close>). The serialization of
  outgoing JSON is left to its crate: messages are the values that are serialized. The abort of
  the tasks of a closed session only takes steps away. The getters of the counters are the fields
  of \<open>pool_counters\<close>.
\<close>

subsection \<open>From the template to the block\<close>

text \<open>
  A job that was built from a template, and a share on it that is a block: everything the
  serialized block consists of, in terms of the template.
\<close>

definition block_of_template ::
  "externs \<Rightarrow> config \<Rightarrow> gbt_response \<Rightarrow> bytes \<Rightarrow> bytes \<Rightarrow> bytes \<Rightarrow> bytes \<Rightarrow> bool" where
  "block_of_template X cfg gbt script_pubkey en1 en2 block \<longleftrightarrow>
     (\<exists>header cb coinbase txs tx_hashes prev mroot sig commitment version ntime nbits nonce.
        block = header @ encode_varint (word_of_nat (length (gbt_transactions gbt)) + 1) [] @ cb @ concat txs \<and>
        length header = 80 \<and>
        header_fields header = (version, rev prev, mroot, ntime, nbits, nonce) \<and>
        hex_decode X (gbt_previousblockhash gbt) = Inr prev \<and>
        u32_from_hex (gbt_bits gbt) = Some nbits \<and>
        map_result (gbt_tx_hash X) (gbt_transactions gbt) = Inr tx_hashes \<and>
        map_result (hex_decode X) (map tx_data (gbt_transactions gbt)) = Inr txs \<and>
        [mroot] = merkle_root X (double_sha256 X coinbase # tx_hashes) \<and>
        (cb = coinbase \<or> strip_witness cb = Some coinbase) \<and>
        read_coinbase coinbase = Some (sig @ en1 @ en2,
          (unat (gbt_coinbasevalue gbt), script_pubkey) # witness_outputs commitment,
          coinbase_locktime (gbt_height gbt)) \<and>
        (\<exists>rest. read_height sig = Some (int (unat (gbt_height gbt)), rest)))"

lemma job_witness_commitment_eq:
  "job_witness_commitment X gbt = Inr wit \<Longrightarrow> wit = gbt_default_witness_commitment gbt"
  by (auto simp: job_witness_commitment_def rbind_Inr_iff split: option.splits if_splits)

lemma map_result_map: "map_result f (map g xs) = map_result (\<lambda>x. f (g x)) xs"
  by (induction xs) auto

lemma length_apply_branches:
  "sha_ok X \<Longrightarrow> length c = 32 \<Longrightarrow> length (apply_branches X c bs) = 32"
  by (induction bs rule: rev_induct) (simp_all add: apply_branches_def)

text \<open>A block share on a job that was built from a template.\<close>

lemma built_block_matches_template:
  assumes X: "hex_ok X" "sha_ok X"
    and built: "built_from X cfg gbt key n job"
    and share: "validate_share X secs job (jt_coinbase1_bytes job @ en1) submit target None = Inr r"
    and block: "res_is_block r"
    and en1: "length en1 = extranonce1_size cfg"
    and en2: "hex_decode X (trim_0x (sub_extranonce2 submit)) = Inr en2" "length en2 = extranonce2_size cfg"
    and payout: "payout_script_pubkey X cfg = Inr script_pubkey" "length script_pubkey < 2 ^ 64"
    and small: "\<forall>w c. gbt_default_witness_commitment gbt = Some w \<and> hex_decode X w = Inr c \<longrightarrow> length c < 2 ^ 64"
  shows "\<exists>block_hex blk. res_block_hex r = Some block_hex \<and> hex_decode X block_hex = Inr blk \<and>
    block_of_template X cfg gbt script_pubkey en1 en2 blk \<and>
    le_to_nat (double_sha256 X (take 80 blk)) \<le> le_to_nat (jt_target_le job)"
proof -
  obtain tx_hashes prev coinbase_tx wit where
    wit: "job_witness_commitment X gbt = Inr wit" and
    parts: "build_coinbase_parts X cfg (gbt_coinbasevalue gbt) (gbt_height gbt)
      (Option.bind (gbt_coinbaseaux gbt) aux_flags) wit =
      Inr (jt_coinbase1 job, jt_coinbase2 job, coinbase_tx, jt_has_witness_commitment job)" and
    txh: "map_result (gbt_tx_hash X) (gbt_transactions gbt) = Inr tx_hashes" and
    prev: "hex_decode X (gbt_previousblockhash gbt) = Inr prev" "jt_prevhash_le_bytes job = rev prev" and
    halves: "hex_decode X (jt_coinbase1 job) = Inr (jt_coinbase1_bytes job)"
      "hex_decode X (jt_coinbase2 job) = Inr (jt_coinbase2_bytes job)" and
    nbits: "u32_from_hex (gbt_bits gbt) = Some (jt_nbits_u32 job)" and
    txs: "jt_transactions job = map tx_data (gbt_transactions gbt)"
    using built by (auto simp: built_from_def)
  have ok: "jt_ok X job" by (rule built_from_ok [OF X(1) built])
  define hdr where "hdr = share_header X job (jt_coinbase1_bytes job @ en1) submit None"
  define cbt where "cbt = share_coinbase job (jt_coinbase1_bytes job @ en1) None"
  obtain p block_hex data cb where
    p: "parses X submit p" and
    hex: "res_block_hex r = Some block_hex" and
    data: "map_result (hex_decode X) (jt_transactions job) = Inr data" and
    blk: "hex_decode X block_hex = Inr (hdr p
      @ encode_varint (word_of_nat (length (jt_transactions job)) + 1) [] @ cb @ concat data)" and
    cb: "if jt_has_witness_commitment job then strip_witness cb = Some (cbt p) else cb = cbt p" and
    pow: "le_to_nat (double_sha256 X (hdr p)) \<le> le_to_nat (jt_target_le job)" and
    fields: "header_fields (hdr p) = (share_version job submit, jt_prevhash_le_bytes job,
       apply_branches X (double_sha256 X (cbt p)) (jt_merkle_branches_le job),
       ps_ntime p, jt_nbits_u32 job, ps_nonce p)"
    using block_share_bytes [OF X ok share block] unfolding hdr_def cbt_def by blast
  have "ps_extranonce2 p = en2" using p en2(1) by (simp add: parses_def)
  then have cbt: "cbt p = jt_coinbase1_bytes job @ (en1 @ en2) @ jt_coinbase2_bytes job"
    by (simp add: cbt_def share_coinbase_def)
  have len: "length (en1 @ en2) = extranonce1_size cfg + extranonce2_size cfg" using en1 en2(2) by simp
  obtain sig spk c where spk: "payout_script_pubkey X cfg = Inr spk"
    and sig: "coinbase_script_sig X cfg (gbt_height gbt) (Option.bind (gbt_coinbaseaux gbt) aux_flags) = Inr sig"
    and tx: "cbt p = coinbase_tx_of (sig @ en1 @ en2) (gbt_coinbasevalue gbt) spk c (gbt_height gbt)"
    and l: "length (sig @ en1 @ en2) \<le> 100"
    and c: "(c = None) = (wit = None)"
    and w: "\<forall>x. wit = Some x \<longrightarrow> (\<exists>y. c = Some y \<and> hex_decode X x = Inr y)"
    using coinbase_halves [OF X(1) parts halves len] unfolding cbt by metis
  have "\<forall>y. c = Some y \<longrightarrow> length y < 2 ^ 64"
    using w c small job_witness_commitment_eq [OF wit] by (cases wit) auto
  from read_coinbase_tx_of [of "sig @ en1 @ en2" spk c "gbt_coinbasevalue gbt" "gbt_height gbt", OF _ _ this]
  have read: "read_coinbase (cbt p) = Some (sig @ en1 @ en2,
      (unat (gbt_coinbasevalue gbt), script_pubkey) # witness_outputs c, coinbase_locktime (gbt_height gbt))"
    using l spk payout tx by simp
  obtain after where height: "read_height sig = Some (int (unat (gbt_height gbt)), after)"
    using coinbase_script_sig_height [OF sig, of "[]"] by auto
  have root: "[apply_branches X (double_sha256 X (cbt p)) (jt_merkle_branches_le job)] =
      merkle_root X (double_sha256 X (cbt p) # tx_hashes)"
    by (rule built_from_root [OF built txh])
  have l32: "length (jt_prevhash_le_bytes job) = 32" using ok by (simp add: jt_ok_def)
  have hlen: "length (hdr p) = 80"
    unfolding hdr_def share_header_def
    by (intro length_build_header l32 length_apply_branches X) (simp add: X)
  have "block_of_template X cfg gbt script_pubkey en1 en2 (hdr p
      @ encode_varint (word_of_nat (length (jt_transactions job)) + 1) [] @ cb @ concat data)"
    unfolding block_of_template_def
    using hlen fields prev nbits txh data [unfolded txs] root cb read height
    by (intro exI conjI) (auto simp: txs split: if_splits)
  with hex blk pow hlen show ?thesis by (intro exI conjI) auto
qed

text \<open>C1 (\<open>build_job\<close>, \<open>validate_share\<close>): a share that is reported as a block, on a job built from
  a template, with extranonces of the configured sizes, serializes a block on the template's
  previous block and with its compact target, whose transactions are a coinbase and the
  template's in order, whose merkle root is that of their identifiers, and whose coinbase starts
  with the height of the template and pays its whole value to the configured script; its hash
  meets the template's target.\<close>

theorem mined_block_matches_template:
  assumes X: "hex_ok X" "sha_ok X"
    and job: "build_job X cfg gbt key source txroot n now = Inr job"
    and share: "validate_share X secs job (jt_coinbase1_bytes job @ en1) submit target None = Inr r"
    and block: "res_is_block r"
    and en1: "length en1 = extranonce1_size cfg"
    and en2: "hex_decode X (trim_0x (sub_extranonce2 submit)) = Inr en2" "length en2 = extranonce2_size cfg"
    and payout: "payout_script_pubkey X cfg = Inr script_pubkey" "length script_pubkey < 2 ^ 64"
    and small: "\<forall>w c. gbt_default_witness_commitment gbt = Some w \<and> hex_decode X w = Inr c \<longrightarrow> length c < 2 ^ 64"
  shows "\<exists>block_hex blk. res_block_hex r = Some block_hex \<and> hex_decode X block_hex = Inr blk \<and>
    block_of_template X cfg gbt script_pubkey en1 en2 blk \<and>
    le_to_nat (double_sha256 X (take 80 blk)) \<le> le_to_nat (jt_target_le job)"
  by (rule built_block_matches_template [OF X build_job_built_from [OF job] share block en1 en2 payout small])


definition mined_submit :: share_submit where
  "mined_submit = \<lparr>sub_extranonce2 = ''01020304'', sub_ntime = ''6553f100'', sub_nonce = ''0000002a'',
     sub_version = None\<rparr>"

lemma mined_share_validates:
  assumes "build_job ref_externs sample_config sample_gbt key src txroot n now = Inr job"
  shows "\<exists>r. validate_share ref_externs 1700000000 job (pre :: bytes) mined_submit target None = Inr r \<and>
    res_is_block r \<and> res_block_hex r \<noteq> None"
proof -
  have built: "built_from ref_externs sample_config sample_gbt key n job" by (rule build_job_built_from [OF assms])
  have mint: "jt_mintime_u32 job = 1700000000" and txs: "jt_transactions job = []"
    using built by (auto simp: built_from_def sample_gbt_def)
  have "gbt_target_le ref_externs (gbt_target sample_gbt) = Inr (jt_target_le job)"
    using built by (auto simp: built_from_def)
  then have target: "jt_target_le job = replicate 32 0xff"
    by (simp add: gbt_target_le_def sample_gbt_def ref_hex_roundtrip Let_def)
  obtain tx b where "build_coinbase_parts ref_externs sample_config (gbt_coinbasevalue sample_gbt)
      (gbt_height sample_gbt) (Option.bind (gbt_coinbaseaux sample_gbt) aux_flags) None =
      Inr (jt_coinbase1 job, jt_coinbase2 job, tx, b)" "b = jt_has_witness_commitment job"
    using built by (auto simp: built_from_def job_witness_commitment_def sample_gbt_def)
  then have nowit: "\<not> jt_has_witness_commitment job"
    by (auto elim!: build_coinbase_parts_Inr simp: parts_ok_def Let_def)
  let ?p = "\<lparr>ps_ntime = 1700000000, ps_extranonce2 = [1, 2, 3, 4], ps_nonce = 42\<rparr>"
  have p: "parses ref_externs mined_submit ?p"
    by (simp add: parses_def mined_submit_def parse_u32_be_hex_def u32_from_hex_def hex_digit_def Let_def)
  have t: "time_ok 1700000000 job (ps_ntime ?p)" by (simp add: time_ok_def mint)
  show ?thesis
    unfolding validate_share_parsed [OF p t] Let_def
    by (simp add: easy_hash [OF ref_sha_ok] target txs nowit build_block_hex_def Let_def)
qed

theorem mined_block_matches_template_witness:
  "\<exists>block_hex blk. hex_decode ref_externs block_hex = Inr blk \<and>
     block_of_template ref_externs sample_config sample_gbt [0x51] [9, 9, 9, 9] [1, 2, 3, 4] blk"
proof -
  obtain job where job: "build_job ref_externs sample_config sample_gbt [] Startup [] 1 0 = Inr job"
    using sample_job by blast
  obtain r where r: "validate_share ref_externs 1700000000 job (jt_coinbase1_bytes job @ [9, 9, 9, 9])
      mined_submit (replicate 32 0xff) None = Inr r" "res_is_block r"
    using mined_share_validates [OF job] by blast
  have en2: "hex_decode ref_externs (trim_0x (sub_extranonce2 mined_submit)) = Inr [1, 2, 3, 4]"
    by (simp add: mined_submit_def hex_digit_def Let_def)
  from mined_block_matches_template [OF ref_hex_ok ref_sha_ok job r _ en2 _ sample_payout]
  show ?thesis by (auto simp: sample_gbt_def)
qed








subsection \<open>Stratum V2\<close>

text \<open>C10 (\<open>handle_submit_extended\<close>, \<open>validate_share\<close>, \<open>build_job\<close>): a Stratum V2 connection whose
  jobs were built from templates hands a block to the node only for a share that meets the
  template's target; that block is on the template's previous block, with its transactions and
  their merkle root, with the channel's extranonce prefix and the submitted extranonce in its
  coinbase, and pays the whole value to the configured script. Nothing is asked of the share.\<close>

theorem sv2_submits_template_blocks:
  assumes X: "hex_ok X" "sha_ok X"
    and run: "task_trace (run_turn X W cfg event) es" "Spawns q \<in> set es"
    and states: "\<And>st. Loads (Some st) \<in> set es \<Longrightarrow>
      state_ok (\<lambda>job. \<exists>gbt key n. P gbt \<and> built_from X cfg gbt key n job) cfg st"
    and payout: "payout_script_pubkey X cfg = Inr script_pubkey" "length script_pubkey < 2 ^ 64"
    and small: "\<And>gbt w c. P gbt \<Longrightarrow> gbt_default_witness_commitment gbt = Some w \<Longrightarrow>
      hex_decode X w = Inr c \<Longrightarrow> length c < 2 ^ 64"
  shows "\<exists>b ev st frame submit ch gbt key n job blk. q = submission_task b ev \<and>
    Loads (Some st) \<in> set es \<and> event = Frame frame \<and> w_decode_submit W (fr_payload frame) = Inr submit \<and>
    map_of (c2_channels st) (se_channel_id submit) = Some ch \<and>
    P gbt \<and> built_from X cfg gbt key n job \<and> hex_decode X (su_block_hex b) = Inr blk \<and>
    block_of_template X cfg gbt script_pubkey (ch_extranonce_prefix ch) (se_extranonce submit) blk \<and>
    le_to_nat (double_sha256 X (take 80 blk)) \<le> le_to_nat (jt_target_le job)"
proof -
  have w: "weighty (Spawns q)" by simp
  obtain st es' frame submit where es: "es = Loads (Some st) # es'" and q: "Spawns q \<in> set es'"
    and f: "event = Frame frame" "w_decode_submit W (fr_payload frame) = Inr submit"
    and t': "task_trace (handle_submit_extended X W cfg submit st keep) es'"
    by (rule run_turn_submit [OF run w]) simp_all
  obtain ch e v st' where at: "map_of (c2_channels st) (se_channel_id submit) = Some ch"
    "length (se_extranonce submit) = ch_extranonce_size ch" "map_of (ch_jobs ch) (se_job_id submit) = Some e"
    "resolve_submitted_version e (se_version submit) = Some v" "build_dup_key_v2 submit v \<notin> c2_submitted st"
    and t'': "task_trace (check_share_v2 X W cfg submit (ch_worker ch) e v st' keep) es'"
    by (rule handle_submit_check [OF t' q w]) simp_all
  have "does_only (v2_share_event X submit st) (check_share_v2 X W cfg submit (ch_worker ch) e v st' keep)"
    by (rule check_share_only [where c = ch]) (use at in \<open>auto simp: v2_share_checked_def\<close>)
  from does_onlyD [OF this t'' q] obtain ch2 e2 v2 r b ev where
    r: "v2_share_checked X submit st ch2 e2 v2 r" "res_is_block r" "res_block_hex r = Some (su_block_hex b)"
    and b: "q = submission_task b ev"
    by (rule v2_share_event_spawn)
  have st: "state_ok (\<lambda>job. \<exists>gbt key n. P gbt \<and> built_from X cfg gbt key n job) cfg st" using states es by simp
  have acc: "res_accepted r \<or> res_is_block r" using r(2) by simp
  note valid = checked_share_valid [OF X(1) st r(1) acc]
  have ch2: "map_of (c2_channels st) (se_channel_id submit) = Some ch2" using r(1) by (simp add: v2_share_checked_def)
  have en1: "length (ch_extranonce_prefix ch2) = extranonce1_size cfg"
    using state_ok_lookup [OF st ch2] by (simp add: channel_ok_def)
  obtain gbt key n where gbt: "P gbt" "built_from X cfg gbt key n (cj_template e2)"
    and prefix: "cj_coinbase_prefix e2 = jt_coinbase1_bytes (cj_template e2) @ ch_extranonce_prefix ch2"
    using valid(2) by (auto simp: channel_job_ok_def)
  obtain secs where share: "validate_share X secs (cj_template e2)
      (jt_coinbase1_bytes (cj_template e2) @ ch_extranonce_prefix ch2) (share_submit_of X submit v2)
      (cj_share_target_le e2) None = Inr r"
    using r(1) prefix by (auto simp: v2_share_checked_def)
  have en2: "hex_decode X (trim_0x (sub_extranonce2 (share_submit_of X submit v2))) = Inr (se_extranonce submit)"
    using X(1) by (simp add: share_submit_of_def trim_0x_hex_encode hex_ok_roundtrip)
  have "\<forall>w c. gbt_default_witness_commitment gbt = Some w \<and> hex_decode X w = Inr c \<longrightarrow> length c < 2 ^ 64"
    using small [OF gbt(1)] by blast
  from built_block_matches_template [OF X gbt(2) share r(2) en1 en2 valid(1) payout this] r(3)
  obtain blk where "hex_decode X (su_block_hex b) = Inr blk"
    "block_of_template X cfg gbt script_pubkey (ch_extranonce_prefix ch2) (se_extranonce submit) blk"
    "le_to_nat (double_sha256 X (take 80 blk)) \<le> le_to_nat (jt_target_le (cj_template e2))" by auto
  moreover have "Loads (Some st) \<in> set es" using es by simp
  ultimately show ?thesis using b f ch2 gbt
    by (intro exI [of _ b] exI [of _ ev] exI [of _ st] exI [of _ frame] exI [of _ submit] exI [of _ ch2]
      exI [of _ gbt] exI [of _ key] exI [of _ n] exI [of _ "cj_template e2"] exI [of _ blk] conjI)
qed

lemma sample_channel_vardiff: "vd_samples (ch_vardiff (sample_channel job target)) = []"
  by (simp add: sample_channel_jobs vardiff_new_def Let_def)

lemma one_sample_keeps_difficulty:
  "vd_samples v = [] \<Longrightarrow>
  \<exists>v'. maybe_retarget X (vd_record_share (t, d) v) cur now = Some (None, v')"
proof -
  have "f64_of_int (num_milliseconds 0) / Fin 1000 = 0"
    by (simp add: f64_of_int_small num_milliseconds_def trunc_div_def zero_f64_def f64_of_rat_def Let_def)
  then show "vd_samples v = [] \<Longrightarrow> ?thesis"
    by (simp add: maybe_retarget_def vd_record_share_def CACHE_SIZE_def zero_f64_def Let_def)
qed

lemma sample_retarget:
  assumes "c2_channels st = [(1, sample_channel job target)]"
  shows "\<exists>st'. retarget_channel_state X 1 (Some d) now st = Some (None, st')"
proof -
  obtain v' where "maybe_retarget X (vd_record_share (now, d) (ch_vardiff (sample_channel job target)))
      (ch_difficulty (sample_channel job target)) now = Some (None, v')"
    using one_sample_keeps_difficulty by (metis sample_channel_vardiff)
  then show ?thesis using assms by (simp add: retarget_channel_state_def Let_def)
qed


lemma built_share_ready: "built_from ref_externs sample_config sample_gbt key n job \<Longrightarrow> share_ready ref_externs job"
  by (auto simp: share_ready_def built_from_def job_witness_commitment_def sample_gbt_def parts_ok_def Let_def
    elim!: build_coinbase_parts_Inr)

definition mined_submit_v2 :: "u32 \<Rightarrow> submit_shares_extended" where
  "mined_submit_v2 version = sample_submit_v2 1700000000 version"

lemma mined_share_of:
  assumes built: "built_from ref_externs sample_config sample_gbt key n job"
  obtains r h where "validate_share ref_externs 1700000000 job (jt_coinbase1_bytes job @ [9, 9, 9, 9])
      (share_submit_of ref_externs (mined_submit_v2 v') v) target None = Inr r"
    and "res_is_block r" and "res_block_hex r = Some h"
proof -
  have "gbt_target_le ref_externs (gbt_target sample_gbt) = Inr (jt_target_le job)"
    using built by (auto simp: built_from_def)
  then have target: "jt_target_le job = replicate 32 0xff"
    by (simp add: gbt_target_le_def sample_gbt_def ref_hex_roundtrip Let_def)
  have "time_ok 1700000000 job 1700000000"
    using built by (auto simp: built_from_def sample_gbt_def time_ok_def)
  from sample_v2_share [OF ref_hex_ok ref_sha_ok _ target this] built that show thesis
    unfolding mined_submit_v2_def by (metis built_share_ready option.exhaust)
qed

theorem sv2_submits_template_blocks_witness:
  "\<exists>es W b ev blk frame prefix. task_trace (run_turn ref_externs W sample_config (Frame frame)) es \<and>
     Spawns (submission_task b ev) \<in> set es \<and> hex_decode ref_externs (su_block_hex b) = Inr blk \<and>
     block_of_template ref_externs sample_config sample_gbt [0x51] prefix [1, 2, 3, 4] blk"
proof -
  let ?P = "\<lambda>gbt. gbt = sample_gbt"
  let ?J = "\<lambda>job. \<exists>gbt key n. ?P gbt \<and> built_from ref_externs sample_config gbt key n job"
  obtain job where "build_job ref_externs sample_config sample_gbt [] Startup [] 1 0 = Inr job"
    using sample_job by blast
  then have built: "built_from ref_externs sample_config sample_gbt [] 1 job" by (rule build_job_built_from)
  obtain target where target: "share_target_le (Fin 16384) = Inr target" using sample_target by blast
  obtain r h where r: "validate_share ref_externs 1700000000 job (jt_coinbase1_bytes job @ [9, 9, 9, 9])
      (share_submit_of ref_externs (mined_submit_v2 (jt_version_u32 job)) (jt_version_u32 job)) target None = Inr r"
    "res_is_block r" "res_block_hex r = Some h"
    by (rule mined_share_of [OF built])
  let ?submit = "mined_submit_v2 (jt_version_u32 job)"
  let ?W = "sample_wire ?submit" and ?st = "sample_state job target"
  have id: "se_channel_id ?submit = 1" by (simp add: mined_submit_v2_def sample_submit_v2_def)
  have chan: "c2_channels (snd (remember_share k ?st)) = [(1, sample_channel job target)]" for k
    by (simp add: remember_share_def MAX_RECENT_SHARES_def Let_def)
  obtain es q where rest: "task_trace (Count inc_sv2_submit_accepted (record_and_submit ref_externs ?W sample_config
      ?submit (ch_worker (sample_channel job target)) (sample_channel_job job target) r True
      (snd (remember_share (build_dup_key_v2 ?submit (jt_version_u32 job)) ?st)) keep)) es"
    and es: "Spawns q \<in> set es" "\<And>s. Loads s \<notin> set es"
  proof -
    obtain st' where st': "retarget_channel_state ref_externs 1 (Some (cj_difficulty (sample_channel_job job target)))
      (rd_now sample_reading) (snd (remember_share (build_dup_key_v2 ?submit (jt_version_u32 job)) ?st)) = Some (None, st')"
      using sample_retarget [OF chan] by blast
    have "\<exists>f g h k q. task_trace (Count inc_sv2_submit_accepted (record_and_submit ref_externs ?W sample_config
      ?submit (ch_worker (sample_channel job target)) (sample_channel_job job target) r True
      (snd (remember_share (build_dup_key_v2 ?submit (jt_version_u32 job)) ?st)) keep))
      [Shares f, Reads sample_reading, Shares g, Shares h, Shares k, Spawns q]"
      using r st' id
      by (simp add: record_and_submit_def maybe_retarget_channel_def retarget_one_def submit_block_candidate_def
        trace_simps trace_derived_simps task_trace.intros(1) Count_def Let_def)
    then show thesis using that by auto
  qed
  have t: "task_trace (run_turn ref_externs ?W sample_config (Frame (sample_frame 0x1b)))
    (Loads (Some ?st) # Reads (sample_reading\<lparr>rd_secs := 1700000000\<rparr>) #
     Sends (SubmitSharesSuccess 1 7 1 (shares_sum (Fin 16384))) True # es)" (is "task_trace _ ?es")
    using sample_v2_trace [OF r(1) [unfolded mined_submit_v2_def] _ _ refl, of True es] rest r(2)
    by (simp add: mined_submit_v2_def)
  have J: "?J job" using built by blast
  have states: "state_ok ?J sample_config st" if "Loads (Some st) \<in> set ?es" for st
    using that es(2) sample_state_ok [where J = ?J, OF J target] by auto
  have spawn: "Spawns q \<in> set ?es" using es(1) by simp
  have "\<exists>b ev st frame submit ch gbt key n job blk. q = submission_task b ev \<and>
    Loads (Some st) \<in> set ?es \<and> Frame (sample_frame 0x1b) = Frame frame \<and>
    w_decode_submit ?W (fr_payload frame) = Inr submit \<and>
    map_of (c2_channels st) (se_channel_id submit) = Some ch \<and>
    ?P gbt \<and> built_from ref_externs sample_config gbt key n job \<and> hex_decode ref_externs (su_block_hex b) = Inr blk \<and>
    block_of_template ref_externs sample_config gbt [0x51] (ch_extranonce_prefix ch) (se_extranonce submit) blk \<and>
    le_to_nat (double_sha256 ref_externs (take 80 blk)) \<le> le_to_nat (jt_target_le job)"
    by (rule sv2_submits_template_blocks [OF ref_hex_ok ref_sha_ok t spawn states])
      (use sample_payout in \<open>auto simp: sample_gbt_def\<close>)
  then obtain b ev submit blk prefix where b: "q = submission_task b ev" "hex_decode ref_externs (su_block_hex b) = Inr blk"
    "w_decode_submit ?W (fr_payload (sample_frame 0x1b)) = Inr submit"
    "block_of_template ref_externs sample_config sample_gbt [0x51] prefix (se_extranonce submit) blk" by blast
  have "se_extranonce submit = [1, 2, 3, 4]"
    using b(3) by (auto simp: sample_wire_def mined_submit_v2_def sample_submit_v2_def)
  with t spawn b show ?thesis by metis
qed

end
